(* ===== verification/Prelude.thy ===== *)
theory Prelude
  imports Complex_Main "HOL-Library.Word" "HOL-Library.Sublist"
begin

text \<open>
  Shared vocabulary of the development: Go's strings, slices, sized integers and times as HOL
  values, the standard-library text functions the sources call, the record of library functions
  that stay parameters, and two generic interfaces (a machine with an invariant, a store that
  only changes by accepted updates) that the components interpret.

  A Go string or byte slice is a \<^typ>\<open>string\<close>, that is a list of bytes. Instants and durations
  are nanosecond counts of type \<^typ>\<open>int\<close>. A function that returns an error is a function into
  a sum whose left side is the component's error type.
\<close>

named_theorems go_simps \<open>rewrite rules for the Go library functions of the prelude\<close>
named_theorems inv_intros \<open>preservation facts of component invariants\<close>

type_synonym instant = int
type_synonym duration = int
type_synonym bytes = string

subsection \<open>Sized integers\<close>

text \<open>\<open>int32\<close> conversion truncates to 32 bits and reads two's complement.\<close>

definition to_int32 :: "int \<Rightarrow> int" where
  "to_int32 n = (n + 2 ^ 31) mod 2 ^ 32 - 2 ^ 31"

definition to_int64 :: "int \<Rightarrow> int" where
  "to_int64 n = (n + 2 ^ 63) mod 2 ^ 64 - 2 ^ 63"

lemma to_int64_id: "- (2 ^ 63) \<le> n \<Longrightarrow> n < 2 ^ 63 \<Longrightarrow> to_int64 n = n"
  by (simp add: to_int64_def)

text \<open>Go's integer division truncates towards zero.\<close>

definition go_div :: "int \<Rightarrow> int \<Rightarrow> int" where
  "go_div a b = sgn a * sgn b * (\<bar>a\<bar> div \<bar>b\<bar>)"

lemma to_int32_id [go_simps]: "- (2 ^ 31) \<le> n \<Longrightarrow> n < 2 ^ 31 \<Longrightarrow> to_int32 n = n"
  by (simp add: to_int32_def)

lemma to_int32_range: "- (2 ^ 31) \<le> to_int32 n \<and> to_int32 n < 2 ^ 31"
  by (simp add: to_int32_def)

lemma go_div_nonneg [go_simps]: "0 \<le> a \<Longrightarrow> 0 < b \<Longrightarrow> go_div a b = a div b"
  by (cases "a = 0") (simp_all add: go_div_def)

subsection \<open>Strings\<close>

definition has_prefix :: "string \<Rightarrow> string \<Rightarrow> bool" where
  "has_prefix s p \<longleftrightarrow> take (length p) s = p"

definition has_suffix :: "string \<Rightarrow> string \<Rightarrow> bool" where
  "has_suffix s p \<longleftrightarrow> length p \<le> length s \<and> drop (length s - length p) s = p"

definition trim_prefix :: "string \<Rightarrow> string \<Rightarrow> string" where
  "trim_prefix s p = (if has_prefix s p then drop (length p) s else s)"

definition trim_suffix :: "string \<Rightarrow> string \<Rightarrow> string" where
  "trim_suffix s p = (if has_suffix s p then take (length s - length p) s else s)"

fun contains :: "string \<Rightarrow> string \<Rightarrow> bool" where
  "contains [] p \<longleftrightarrow> p = []"
| "contains (c # s) p \<longleftrightarrow> has_prefix (c # s) p \<or> contains s p"

text \<open>\<open>strings.Split(s, sep)\<close> for a one-byte separator: always at least one piece.\<close>

fun split_on :: "char \<Rightarrow> string \<Rightarrow> string list" where
  "split_on sep [] = [[]]"
| "split_on sep (c # s) =
     (if c = sep then [] # split_on sep s
      else (case split_on sep s of [] \<Rightarrow> [[c]] | p # ps \<Rightarrow> (c # p) # ps))"

fun join_with :: "string \<Rightarrow> string list \<Rightarrow> string" where
  "join_with sep [] = []"
| "join_with sep [p] = p"
| "join_with sep (p # q # ps) = p @ sep @ join_with sep (q # ps)"

text \<open>\<open>strings.Cut\<close> with a one-byte separator: the text before, the text after, found.\<close>

definition cut :: "char \<Rightarrow> string \<Rightarrow> string \<times> string \<times> bool" where
  "cut sep s =
     (if sep \<in> set s then (takeWhile (\<lambda>c. c \<noteq> sep) s, tl (dropWhile (\<lambda>c. c \<noteq> sep) s), True)
      else (s, [], False))"

text \<open>
  Case mapping, folding and trimming act on ASCII; bytes from 128 on are left as they are, so
  these agree with the Go functions on texts whose letters and blanks are ASCII.
\<close>

definition lower_char :: "char \<Rightarrow> char" where
  "lower_char c = (if 65 \<le> (of_char c :: nat) \<and> (of_char c :: nat) \<le> 90
                   then char_of ((of_char c :: nat) + 32) else c)"

definition upper_char :: "char \<Rightarrow> char" where
  "upper_char c = (if 97 \<le> (of_char c :: nat) \<and> (of_char c :: nat) \<le> 122
                   then char_of ((of_char c :: nat) - 32) else c)"

definition to_lower :: "string \<Rightarrow> string" where
  "to_lower = map lower_char"

definition to_upper :: "string \<Rightarrow> string" where
  "to_upper = map upper_char"

definition equal_fold :: "string \<Rightarrow> string \<Rightarrow> bool" where
  "equal_fold a b \<longleftrightarrow> to_lower a = to_lower b"

definition is_space :: "char \<Rightarrow> bool" where
  "is_space c \<longleftrightarrow> (of_char c :: nat) \<in> {9, 10, 11, 12, 13, 32}"

definition trim_space :: "string \<Rightarrow> string" where
  "trim_space s = rev (dropWhile is_space (rev (dropWhile is_space s)))"

text \<open>\<open>strings.Trim(s, cutset)\<close> for a one-byte cutset.\<close>

definition trim_char :: "char \<Rightarrow> string \<Rightarrow> string" where
  "trim_char x s = rev (dropWhile (\<lambda>c. c = x) (rev (dropWhile (\<lambda>c. c = x) s)))"

lemma has_prefix_iff: "has_prefix s p \<longleftrightarrow> prefix p s"
  by (metis append_take_drop_id has_prefix_def prefix_def take_all_iff append_eq_conv_conj)

lemma has_prefix_Nil [simp]: "has_prefix s []"
  by (simp add: has_prefix_def)

lemma has_prefix_refl [simp]: "has_prefix s s"
  by (simp add: has_prefix_def)

lemma has_prefix_append [simp]: "has_prefix (p @ s) p"
  by (simp add: has_prefix_def)

lemma split_on_not_Nil [simp]: "split_on sep s \<noteq> []"
  by (induction s) (auto split: list.splits)

lemma split_on_no_sep: "p \<in> set (split_on sep s) \<Longrightarrow> sep \<notin> set p"
proof (induction s arbitrary: p)
  case Nil
  then show ?case by simp
next
  case (Cons c s)
  then show ?case
    by (cases "split_on sep s") (auto split: if_splits)
qed

lemma split_on_single: "sep \<notin> set s \<Longrightarrow> split_on sep s = [s]"
  by (induction s) auto

lemma split_on_append: "sep \<notin> set p \<Longrightarrow> split_on sep (p @ sep # s) = p # split_on sep s"
  by (induction p) auto

lemma split_join:
  "ps \<noteq> [] \<Longrightarrow> (\<And>p. p \<in> set ps \<Longrightarrow> sep \<notin> set p) \<Longrightarrow> split_on sep (join_with [sep] ps) = ps"
proof (induction "[sep]" ps rule: join_with.induct)
  case 1
  then show ?case by simp
next
  case (2 p)
  then show ?case by (simp add: split_on_single)
next
  case (3 p q ps)
  then show ?case by (simp add: split_on_append)
qed

lemma of_char_less_256: "(of_char c :: nat) < 256"
  using of_char_mod_256 [of c, where ?'a = nat] by (metis mod_less_divisor zero_less_numeral)

lemma lower_char_idem [simp]: "lower_char (lower_char c) = lower_char c"
  using of_char_less_256 [of c]
  by (auto simp: lower_char_def of_char_of)

lemma to_lower_idem [simp]: "to_lower (to_lower s) = to_lower s"
  by (simp add: to_lower_def)

lemma to_lower_length [simp]: "length (to_lower s) = length s"
  by (simp add: to_lower_def)

lemma equal_fold_refl [simp]: "equal_fold s s"
  by (simp add: equal_fold_def)

lemma equal_fold_sym: "equal_fold a b \<longleftrightarrow> equal_fold b a"
  by (auto simp: equal_fold_def)

lemma trim_space_Nil [simp]: "trim_space [] = []"
  by (simp add: trim_space_def)

subsection \<open>Runes\<close>

text \<open>
  Ranging over a Go string decodes UTF-8; an invalid byte yields U+FFFD and advances by one.
  \<open>decode_rune\<close> gives the code point and how many bytes after the first it consumed.
\<close>

definition cont_byte :: "nat \<Rightarrow> bool" where
  "cont_byte b \<longleftrightarrow> 128 \<le> b \<and> b \<le> 191"

definition decode_rune :: "nat \<Rightarrow> nat list \<Rightarrow> nat \<times> nat" where
  "decode_rune b bs =
     (if b < 128 then (b, 0)
      else case bs of
        b1 # b2 # b3 # _ \<Rightarrow>
          if 194 \<le> b \<and> b \<le> 223 \<and> cont_byte b1 then ((b - 192) * 64 + (b1 - 128), 1)
          else if 224 \<le> b \<and> b \<le> 239 \<and> cont_byte b1 \<and> cont_byte b2
                  \<and> (b = 224 \<longrightarrow> 160 \<le> b1) \<and> (b = 237 \<longrightarrow> b1 \<le> 159)
            then ((b - 224) * 4096 + (b1 - 128) * 64 + (b2 - 128), 2)
          else if 240 \<le> b \<and> b \<le> 244 \<and> cont_byte b1 \<and> cont_byte b2 \<and> cont_byte b3
                  \<and> (b = 240 \<longrightarrow> 144 \<le> b1) \<and> (b = 244 \<longrightarrow> b1 \<le> 143)
            then ((b - 240) * 262144 + (b1 - 128) * 4096 + (b2 - 128) * 64 + (b3 - 128), 3)
          else (65533, 0)
      | b1 # b2 # [] \<Rightarrow>
          if 194 \<le> b \<and> b \<le> 223 \<and> cont_byte b1 then ((b - 192) * 64 + (b1 - 128), 1)
          else if 224 \<le> b \<and> b \<le> 239 \<and> cont_byte b1 \<and> cont_byte b2
                  \<and> (b = 224 \<longrightarrow> 160 \<le> b1) \<and> (b = 237 \<longrightarrow> b1 \<le> 159)
            then ((b - 224) * 4096 + (b1 - 128) * 64 + (b2 - 128), 2)
          else (65533, 0)
      | b1 # [] \<Rightarrow>
          if 194 \<le> b \<and> b \<le> 223 \<and> cont_byte b1 then ((b - 192) * 64 + (b1 - 128), 1)
          else (65533, 0)
      | [] \<Rightarrow> (65533, 0))"

fun runes_of :: "nat list \<Rightarrow> nat list" where
  "runes_of [] = []"
| "runes_of (b # bs) = (let (r, w) = decode_rune b bs in r # runes_of (drop w bs))"

definition runes :: "string \<Rightarrow> nat list" where
  "runes s = runes_of (map of_char s)"

lemma runes_of_ascii: "\<forall>b \<in> set bs. b < 128 \<Longrightarrow> runes_of bs = bs"
  by (induction bs) (auto simp: decode_rune_def)

subsection \<open>Library functions that stay parameters\<close>

datatype json =
    JNull
  | JBool bool
  | JNum string \<comment> \<open>the number as \<open>fmt.Sprintf("%f", v)\<close> prints it\<close>
  | JStr string
  | JArr "json list"
  | JObj "(string \<times> json) list" \<comment> \<open>members in map form: the keys are distinct\<close>

text \<open>
  \<open>golib\<close> bundles the functions the sources call and this development does not define: the hash,
  the signature scheme, the regular-expression matcher, the JSON decoder and the Unicode tables
  above ASCII. A definition that uses one takes the record as its argument.
\<close>

record golib =
  sha256 :: "bytes \<Rightarrow> bytes"
  ed25519_sign :: "bytes \<Rightarrow> bytes \<Rightarrow> bytes"
  ed25519_verify :: "bytes \<Rightarrow> bytes \<Rightarrow> bytes \<Rightarrow> bool"
  public_key :: "bytes \<Rightarrow> bytes"
  regexp_compiles :: "string \<Rightarrow> bool"
  regexp_match :: "string \<Rightarrow> string \<Rightarrow> bool"
  json_unmarshal :: "bytes \<Rightarrow> json option"
  unicode_digit :: "nat \<Rightarrow> bool"
  unicode_letter :: "nat \<Rightarrow> bool"

text \<open>\<open>unicode.IsDigit\<close> and \<open>unicode.IsLetter\<close>: ASCII here, the tables above.\<close>

definition is_digit :: "'a golib_scheme \<Rightarrow> nat \<Rightarrow> bool" where
  "is_digit L r \<longleftrightarrow> (if r < 128 then 48 \<le> r \<and> r \<le> 57 else unicode_digit L r)"

definition is_letter :: "'a golib_scheme \<Rightarrow> nat \<Rightarrow> bool" where
  "is_letter L r \<longleftrightarrow>
     (if r < 128 then (65 \<le> r \<and> r \<le> 90) \<or> (97 \<le> r \<and> r \<le> 122) else unicode_letter L r)"

text \<open>\<open>hex.EncodeToString\<close>.\<close>

definition hex_digit :: "nat \<Rightarrow> char" where
  "hex_digit n = (if n < 10 then char_of (48 + n) else char_of (87 + n))"

definition hex_encode :: "bytes \<Rightarrow> string" where
  "hex_encode bs = concat (map (\<lambda>c. [hex_digit (of_char c div 16), hex_digit (of_char c mod 16)]) bs)"

lemma length_hex_encode [simp]: "length (hex_encode bs) = 2 * length bs"
  by (induction bs) (simp_all add: hex_encode_def)

text \<open>\<open>strconv.Itoa\<close>.\<close>

fun nat_digits :: "nat \<Rightarrow> string" where
  "nat_digits n =
     (if n < 10 then [char_of (48 + n)] else nat_digits (n div 10) @ [char_of (48 + n mod 10)])"

declare nat_digits.simps [simp del]

definition itoa :: "int \<Rightarrow> string" where
  "itoa i = (if i < 0 then CHR ''-'' # nat_digits (nat (- i)) else nat_digits (nat i))"

text \<open>\<open>strconv.Atoi\<close>: an optional sign, then decimal digits, within 64 bits.\<close>

definition digit_value :: "char \<Rightarrow> nat option" where
  "digit_value c = (let n = (of_char c :: nat) in if 48 \<le> n \<and> n \<le> 57 then Some (n - 48) else None)"

fun parse_digits :: "nat \<Rightarrow> string \<Rightarrow> nat option" where
  "parse_digits acc [] = Some acc"
| "parse_digits acc (c # s) =
     (case digit_value c of None \<Rightarrow> None | Some d \<Rightarrow> parse_digits (acc * 10 + d) s)"

definition atoi :: "string \<Rightarrow> int option" where
  "atoi s =
     (let neg = (s \<noteq> [] \<and> hd s = CHR ''-'');
          body = (if s \<noteq> [] \<and> (hd s = CHR ''-'' \<or> hd s = CHR ''+'') then tl s else s) in
      if body = [] then None
      else case parse_digits 0 body of
        None \<Rightarrow> None
      | Some n \<Rightarrow>
          (let v = (if neg then - int n else int n) in
           if - (2 ^ 63) \<le> v \<and> v < 2 ^ 63 then Some v else None))"

subsection \<open>Generic lemmas\<close>

lemma sum_list_map_remove1:
  fixes f :: "'a \<Rightarrow> nat"
  assumes "x \<in> set xs"
  shows "f x + sum_list (map f (remove1 x xs)) = sum_list (map f xs)"
  using assms by (induction xs) auto

lemma foldl_max_ge: "(a :: 'a :: linorder) \<le> foldl max a xs"
  by (induction xs arbitrary: a) (auto intro: order_trans [OF max.cobounded1])

subsection \<open>Interface: a machine that keeps an invariant\<close>

text \<open>
  A component whose operations are events \<open>'e\<close> on a state \<open>'s\<close>. The client of the interface
  runs any sequence of operations; the provider promises that each one keeps the invariant.
\<close>

locale machine =
  fixes step :: "'s \<Rightarrow> 'e \<Rightarrow> 's"
    and invar :: "'s \<Rightarrow> bool"
  assumes step_invar: "invar s \<Longrightarrow> invar (step s e)"
begin

lemma run_invar: "invar s \<Longrightarrow> invar (foldl step s es)"
  by (induction es arbitrary: s) (auto intro: step_invar)

lemma every_prefix_invar: "invar s \<Longrightarrow> invar (foldl step s (take n es))"
  by (rule run_invar)

end

subsection \<open>Interface: a versioned slot\<close>

text \<open>
  A slot that holds at most one accepted item. An admissible attempt to replace a valid item leaves
  it in place or installs a valid one that follows it; \<open>follows old new\<close> is what the provider
  promises of every replacement. The client gets the history of any sequence of attempts.
\<close>

locale versioned_slot =
  fixes attempt :: "'s \<Rightarrow> 'x \<Rightarrow> 's"
    and current :: "'s \<Rightarrow> 'v option"
    and valid :: "'v \<Rightarrow> bool"
    and admissible :: "'x \<Rightarrow> bool"
    and follows :: "'v \<Rightarrow> 'v \<Rightarrow> bool"
  assumes attempt_follows:
    "current s = Some v \<Longrightarrow> valid v \<Longrightarrow> admissible x \<Longrightarrow>
       \<exists>w. current (attempt s x) = Some w \<and> valid w \<and> (w = v \<or> follows v w)"
begin

lemma history:
  "current s = Some v \<Longrightarrow> valid v \<Longrightarrow> list_all admissible xs \<Longrightarrow>
     \<exists>w. current (foldl attempt s xs) = Some w \<and> valid w \<and> follows\<^sup>*\<^sup>* v w"
proof (induction xs arbitrary: s v)
  case Nil
  then show ?case by simp
next
  case (Cons x xs)
  then have x: "admissible x" and xs: "list_all admissible xs" by simp_all
  obtain u where u: "current (attempt s x) = Some u" "valid u" and vu: "u = v \<or> follows v u"
    using attempt_follows [OF Cons.prems(1,2) x] by blast
  from Cons.IH [OF u xs] vu show ?case
    by (auto intro: converse_rtranclp_into_rtranclp)
qed

end

end
