(* ===== verification/Messages.thy ===== *)
theory Messages
  imports Prelude
begin

text \<open>
  The protobuf messages and enumerations the modelled Go code exchanges, field by field from
  \<^verbatim>\<open>proto/yufeng/common/v1/v1.proto\<close>, \<^verbatim>\<open>proto/yufeng/artifact/v1/v1.proto\<close> and
  \<^verbatim>\<open>proto/yufeng/artifact/v1/service.proto\<close>. A message field that can be absent (a nil pointer
  in Go) is an option; a scalar has its zero value. Protobuf enumerations are open, so each one
  that the code compares numerically carries a constructor for unrecognised numbers.
\<close>

subsection \<open>Enumerations\<close>

datatype release_mode =
    RELEASE_MODE_UNSPECIFIED | RELEASE_MODE_SHADOW | RELEASE_MODE_CANARY | RELEASE_MODE_ENFORCE
  | RELEASE_MODE_other int

datatype release_state =
    RELEASE_STATE_DRAFT | RELEASE_STATE_SIGNED | RELEASE_STATE_SHADOW | RELEASE_STATE_CANARY
  | RELEASE_STATE_ENFORCE | RELEASE_STATE_RETIRED

datatype retire_reason =
    RETIRE_REASON_UNSPECIFIED | RETIRE_REASON_ROLLBACK | RETIRE_REASON_MANUAL | RETIRE_REASON_TTL
  | RETIRE_REASON_SUPERSEDED | RETIRE_REASON_HARD_EXPIRED | RETIRE_REASON_other int

datatype unit_health =
    UNIT_HEALTH_HEALTHY | UNIT_HEALTH_DEGRADED | UNIT_HEALTH_TAP_SILENT | UNIT_HEALTH_TAP_SKEW

datatype ingress_posture =
    INGRESS_POSTURE_UNSPECIFIED | INGRESS_POSTURE_REVERSE_PROXY | INGRESS_POSTURE_EXT_AUTHZ
  | INGRESS_POSTURE_TAP_ALERT | INGRESS_POSTURE_MIRROR_OBSERVE | INGRESS_POSTURE_other int

datatype inspection_surface =
    INSPECTION_SURFACE_UNSPECIFIED | INSPECTION_SURFACE_PATH | INSPECTION_SURFACE_QUERY
  | INSPECTION_SURFACE_BODY | INSPECTION_SURFACE_HEADER | INSPECTION_SURFACE_other int

datatype coverage_status =
    COVERAGE_STATUS_UNSPECIFIED | COVERAGE_STATUS_FULL | COVERAGE_STATUS_PARTIAL
  | COVERAGE_STATUS_ABSENT | COVERAGE_STATUS_UNSUPPORTED | COVERAGE_STATUS_ERROR
  | COVERAGE_STATUS_other int

datatype observation_state =
    OBSERVATION_STATE_UNSPECIFIED | OBSERVATION_STATE_SYNC_DETECTED
  | OBSERVATION_STATE_SYNC_NO_DETECTION | OBSERVATION_STATE_INSPECTION_PARTIAL
  | OBSERVATION_STATE_INSPECTION_ERROR

datatype attack_class =
    ATTACK_CLASS_UNSPECIFIED | ATTACK_CLASS_SQLI | ATTACK_CLASS_XSS | ATTACK_CLASS_PATH_TRAVERSAL
  | ATTACK_CLASS_SSRF | ATTACK_CLASS_CMDI | ATTACK_CLASS_UNMAPPED | ATTACK_CLASS_other int

datatype artifact_kind =
    KIND_UNSPECIFIED | KIND_RULE | KIND_PROFILE | KIND_PROCEDURE | KIND_SKILL
  | KIND_TOOL_DESCRIPTOR | KIND_BPF_OBJECT | KIND_SECCOMP_PROFILE | KIND_NFTABLES_RULES
  | KIND_POLICY | KIND_SHAPE | KIND_DETECTOR_MANIFEST | KIND_NORMALIZER_PROFILE
  | KIND_TAXONOMY_MAPPER | KIND_LISTEN_PLAN | KIND_EVIDENCE_POLICY | KIND_EVIDENCE_DIGEST
  | KIND_FORWARD_POLICY | KIND_TRAFFIC_REVIEW_POLICY | KIND_MODEL_PROFILE | KIND_other int

text \<open>The open enumerations the code orders are compared by number.\<close>

fun posture_number :: "ingress_posture \<Rightarrow> int" where
  "posture_number INGRESS_POSTURE_UNSPECIFIED = 0"
| "posture_number INGRESS_POSTURE_REVERSE_PROXY = 1"
| "posture_number INGRESS_POSTURE_EXT_AUTHZ = 2"
| "posture_number INGRESS_POSTURE_TAP_ALERT = 3"
| "posture_number INGRESS_POSTURE_MIRROR_OBSERVE = 4"
| "posture_number (INGRESS_POSTURE_other n) = n"

subsection \<open>Artifacts and releases\<close>

record signature =
  sig_key_id :: string
  sig_bytes :: bytes
  sig_signed_at :: instant

record scope =
  scope_asset_ids :: "string list"
  scope_route_selector :: string

record replay_report =
  malicious_total :: int
  malicious_blocked :: int
  benign_total :: int
  benign_blocked :: int
  report_passed :: bool
  corpus_ref :: string
  management_total :: int
  management_blocked :: int

record artifact =
  art_id :: string
  art_kind :: artifact_kind
  art_payload :: bytes
  art_payload_schema :: string
  art_scope :: "scope option"
  art_ttl :: "duration option"
  art_supersedes :: string
  art_evidence_refs :: "string list"
  art_replay_report :: "replay_report option"
  art_signature :: "signature option"
  art_created_at :: "instant option"
  art_created_by :: string
  art_review_at :: "instant option"
  art_hard_expires_at :: "instant option"
  art_expiry_behavior :: int
  art_scope_risk :: int
  art_evidence_class :: int

record release_item =
  item_release_id :: string
  item_artifact :: "artifact option"
  item_asset_id :: string
  item_mode :: release_mode
  item_canary_percent :: int
  item_retired :: bool
  item_retire_reason :: retire_reason
  item_changed_at :: "instant option"
  item_generation_seq :: int

record asset_generation =
  gen_id :: string
  gen_asset_id :: string
  gen_seq :: int
  gen_parent_id :: string
  gen_members :: "release_item option list"
  gen_min_edge_version :: string
  gen_not_before :: "instant option"
  gen_signature :: "signature option"
  gen_rollback_of :: int

record model_ingress_window =
  win_max_items :: nat
  win_max_retained_bytes :: nat
  win_max_queue_age :: "duration option"

record unit_listen_plan =
  plan_unit_id :: string
  plan_posture :: ingress_posture
  plan_traffic_key :: string
  plan_follow_unit_id :: string
  plan_version :: nat
  plan_listen_address :: string
  plan_upstream_url :: string
  plan_signature :: "signature option"
  plan_trusted_proxy_cidrs :: "string list"
  plan_model_ingress_window :: "model_ingress_window option"

text \<open>An absent or empty signature does not count as signed.\<close>

definition carries_signature :: "signature option \<Rightarrow> bool" where
  "carries_signature s \<longleftrightarrow> (case s of None \<Rightarrow> False | Some g \<Rightarrow> sig_bytes g \<noteq> [])"

lemma carries_signature_simps [simp]:
  "\<not> carries_signature None"
  "carries_signature (Some g) \<longleftrightarrow> sig_bytes g \<noteq> []"
  by (simp_all add: carries_signature_def)

subsection \<open>The protobuf codec\<close>

text \<open>
  The protobuf runtime is third-party: the deterministic encoder of each signed message, and the
  decoder the signer process uses, are parameters. \<open>None\<close> is an encoding or decoding error.
\<close>

record protolib = golib +
  marshal_artifact :: "artifact \<Rightarrow> bytes option"
  marshal_generation :: "asset_generation \<Rightarrow> bytes option"
  marshal_plan :: "unit_listen_plan \<Rightarrow> bytes option"
  unmarshal_artifact :: "bytes \<Rightarrow> artifact option"
  unmarshal_generation :: "bytes \<Rightarrow> asset_generation option"
  unmarshal_plan :: "bytes \<Rightarrow> unit_listen_plan option"

end
