(* ===== verification/Artifact.thy ===== *)
theory Artifact
  imports Messages
begin

text \<open>
  Artifact identity and signatures (\<^verbatim>\<open>src/lib/kernel/artifact.go\<close>, \<^verbatim>\<open>keyring.go\<close>): the
  canonical bytes of an artifact leave out its id and signature; the id is their hash, the
  signature covers the same bytes. Operations that update their argument in place return the
  error (if any) together with the object as the call leaves it.
\<close>

subsection \<open>Errors and sizes\<close>

datatype kernel_error =
    ArtifactNil
  | MarshalFailed
  | IdMismatch string string
  | MissingSignature
  | InvalidPublicKeyLength nat
  | InvalidPrivateKeyLength nat
  | SignatureVerificationFailed
  | AlreadySigned
  | SignerNil
  | VerifyRingEmpty
  | VerifyRingNil
  | ArtifactSignatureInvalid
  | GenerationNil
  | PlanNil
  | KeyIdMismatch
  | RollbackKeyCannotSign
  | EmptyDigest
  | TypedOperationRequired
  | EnvelopeEmptyOrTooLarge
  | SigningRequestInvalid
  | SigningEnvelopeInvalid
  | SigningIdentityInvalid
  | UnsignedMember
  | OperationNotAllowed
  | SignerTransport
  | SignerResponse string
  | SignerReturnedInvalidSignature
  | SignerSignatureDoesNotVerify
  | FrameExceedsLimit
  | SocketAddressEmpty
  | CheckpointInvalid

definition PublicKeySize :: nat where "PublicKeySize = 32"
definition PrivateKeySize :: nat where "PrivateKeySize = 64"
definition SignatureSize :: nat where "SignatureSize = 64"

lemmas key_sizes [go_simps] = PublicKeySize_def PrivateKeySize_def SignatureSize_def

subsection \<open>Identity and verification\<close>

definition canonicalBytes :: "'a protolib_scheme \<Rightarrow> artifact \<Rightarrow> bytes option" where
  "canonicalBytes P a = marshal_artifact P (a\<lparr>art_id := [], art_signature := None\<rparr>)"

definition KeyID :: "'a golib_scheme \<Rightarrow> bytes \<Rightarrow> string" where
  "KeyID L pub = hex_encode (sha256 L pub)"

definition keyID :: "'a golib_scheme \<Rightarrow> bytes \<Rightarrow> string" where
  "keyID L key = KeyID L (public_key L key)"

definition ArtifactID :: "'a protolib_scheme \<Rightarrow> artifact option \<Rightarrow> kernel_error + string" where
  "ArtifactID P arg =
     (case arg of
        None \<Rightarrow> Inl ArtifactNil
      | Some a \<Rightarrow>
          (case canonicalBytes P a of
             None \<Rightarrow> Inl MarshalFailed
           | Some canonical \<Rightarrow> Inr (''sha256:'' @ hex_encode (sha256 P canonical))))"

text \<open>\<open>None\<close> is Go's nil error: the artifact verifies.\<close>

definition VerifyArtifact :: "'a protolib_scheme \<Rightarrow> artifact option \<Rightarrow> bytes \<Rightarrow> kernel_error option" where
  "VerifyArtifact P arg pub =
     (case arg of
        None \<Rightarrow> Some ArtifactNil
      | Some a \<Rightarrow>
          (case ArtifactID P (Some a) of
             Inl e \<Rightarrow> Some e
           | Inr want \<Rightarrow>
               if art_id a \<noteq> want then Some (IdMismatch (art_id a) want)
               else (case art_signature a of
                       None \<Rightarrow> Some MissingSignature
                     | Some g \<Rightarrow>
                         if sig_bytes g = [] then Some MissingSignature
                         else if length pub \<noteq> PublicKeySize then Some (InvalidPublicKeyLength (length pub))
                         else (case canonicalBytes P a of
                                 None \<Rightarrow> Some MarshalFailed
                               | Some canonical \<Rightarrow>
                                   if \<not> ed25519_verify P pub canonical (sig_bytes g)
                                   then Some SignatureVerificationFailed
                                   else None))))"

subsection \<open>Signing with a private key\<close>

definition SignArtifact ::
  "'a protolib_scheme \<Rightarrow> instant \<Rightarrow> artifact option \<Rightarrow> bytes \<Rightarrow> kernel_error option \<times> artifact option" where
  "SignArtifact P now arg key =
     (if length key \<noteq> PrivateKeySize then (Some (InvalidPrivateKeyLength (length key)), arg)
      else case arg of
        None \<Rightarrow> (Some ArtifactNil, None)
      | Some a \<Rightarrow>
          if carries_signature (art_signature a) then (Some AlreadySigned, Some a)
          else case ArtifactID P (Some a) of
            Inl e \<Rightarrow> (Some e, Some a)
          | Inr want \<Rightarrow>
              if art_id a \<noteq> [] \<and> art_id a \<noteq> want then (Some (IdMismatch (art_id a) want), Some a)
              else let a = (if art_id a = [] then a\<lparr>art_id := want\<rparr> else a) in
                case canonicalBytes P a of
                  None \<Rightarrow> (Some MarshalFailed, Some a)
                | Some canonical \<Rightarrow>
                    (None, Some (a\<lparr>art_signature := Some \<lparr>sig_key_id = keyID P key,
                       sig_bytes = ed25519_sign P key canonical, sig_signed_at = now\<rparr>\<rparr>)))"

subsection \<open>The verification ring\<close>

record VerifyRing =
  ring_pubs :: "bytes list"

definition NewVerifyRing :: "bytes list \<Rightarrow> kernel_error + VerifyRing" where
  "NewVerifyRing pubs =
     (let kept = filter (\<lambda>p. length p = PublicKeySize) pubs in
      if kept = [] then Inl VerifyRingEmpty else Inr \<lparr>ring_pubs = kept\<rparr>)"

fun verify_with_any ::
  "'a protolib_scheme \<Rightarrow> artifact option \<Rightarrow> bytes list \<Rightarrow> kernel_error option \<Rightarrow> kernel_error option" where
  "verify_with_any P a [] prev =
     (case prev of None \<Rightarrow> Some ArtifactSignatureInvalid | Some e \<Rightarrow> Some e)"
| "verify_with_any P a (p # pubs) prev =
     (case VerifyArtifact P a p of
        None \<Rightarrow> None
      | Some e \<Rightarrow> verify_with_any P a pubs (Some e))"

definition VerifyRing_Verify ::
  "'a protolib_scheme \<Rightarrow> VerifyRing option \<Rightarrow> artifact option \<Rightarrow> kernel_error option" where
  "VerifyRing_Verify P ring a =
     (case ring of
        None \<Rightarrow> Some VerifyRingNil
      | Some r \<Rightarrow> verify_with_any P a (ring_pubs r) None)"

subsection \<open>Documented behaviour of the signature scheme and the codec\<close>

definition ed25519_laws :: "'a golib_scheme \<Rightarrow> bool" where
  "ed25519_laws L \<longleftrightarrow>
     (\<forall>key msg. length key = PrivateKeySize \<longrightarrow>
        length (public_key L key) = PublicKeySize \<and>
        length (ed25519_sign L key msg) = SignatureSize \<and>
        ed25519_verify L (public_key L key) msg (ed25519_sign L key msg))"

lemma ed25519_lawsD:
  assumes "ed25519_laws L" and "length key = PrivateKeySize"
  shows "length (public_key L key) = PublicKeySize"
    and "length (ed25519_sign L key msg) = SignatureSize"
    and "ed25519_sign L key msg \<noteq> []"
    and "ed25519_verify L (public_key L key) msg (ed25519_sign L key msg)"
proof -
  have *: "length (public_key L key) = PublicKeySize \<and>
           length (ed25519_sign L key msg) = SignatureSize \<and>
           ed25519_verify L (public_key L key) msg (ed25519_sign L key msg)"
    using assms unfolding ed25519_laws_def by blast
  then show "length (public_key L key) = PublicKeySize"
    and "length (ed25519_sign L key msg) = SignatureSize"
    and "ed25519_verify L (public_key L key) msg (ed25519_sign L key msg)"
    by simp_all
  from * show "ed25519_sign L key msg \<noteq> []" by (auto simp: go_simps)
qed

text \<open>Identity and signature are no part of what is hashed and signed.\<close>

lemma canonicalBytes_update [simp]:
  "canonicalBytes P (a\<lparr>art_id := i\<rparr>) = canonicalBytes P a"
  "canonicalBytes P (a\<lparr>art_signature := s\<rparr>) = canonicalBytes P a"
  by (simp_all add: canonicalBytes_def)

lemma ArtifactID_update [simp]:
  "ArtifactID P (Some (a\<lparr>art_id := i\<rparr>)) = ArtifactID P (Some a)"
  "ArtifactID P (Some (a\<lparr>art_signature := s\<rparr>)) = ArtifactID P (Some a)"
  by (simp_all add: ArtifactID_def)

lemma ArtifactID_Inr:
  "ArtifactID P (Some a) = Inr i \<longleftrightarrow>
     (\<exists>c. canonicalBytes P a = Some c \<and> i = ''sha256:'' @ hex_encode (sha256 P c))"
  by (auto simp: ArtifactID_def split: option.splits)

lemma VerifyArtifact_ok_iff:
  "VerifyArtifact P (Some a) pub = None \<longleftrightarrow>
     (\<exists>c g. canonicalBytes P a = Some c \<and> art_id a = ''sha256:'' @ hex_encode (sha256 P c) \<and>
        art_signature a = Some g \<and> sig_bytes g \<noteq> [] \<and> length pub = PublicKeySize \<and>
        ed25519_verify P pub c (sig_bytes g))"
  by (auto simp: VerifyArtifact_def ArtifactID_def split: option.splits)

lemma VerifyArtifact_nil [simp]: "VerifyArtifact P None pub = Some ArtifactNil"
  by (simp add: VerifyArtifact_def)

lemma verify_with_any_ok_iff:
  "verify_with_any P a pubs prev = None \<longleftrightarrow> (\<exists>p \<in> set pubs. VerifyArtifact P a p = None)"
  by (induction pubs arbitrary: prev) (auto split: option.splits)

text \<open>What a successful signature leaves behind.\<close>

lemma SignArtifact_ok:
  assumes "SignArtifact P now arg key = (None, res)"
  obtains a c where "arg = Some a" and "length key = PrivateKeySize"
    and "canonicalBytes P a = Some c"
    and "\<not> carries_signature (art_signature a)"
    and "art_id a = [] \<or> art_id a = ''sha256:'' @ hex_encode (sha256 P c)"
    and "res = Some (a\<lparr>art_id := ''sha256:'' @ hex_encode (sha256 P c),
           art_signature := Some \<lparr>sig_key_id = keyID P key, sig_bytes = ed25519_sign P key c,
             sig_signed_at = now\<rparr>\<rparr>)"
  using assms
  by (auto simp: SignArtifact_def ArtifactID_def Let_def split: option.splits if_splits)

subsection \<open>Interface: an envelope with a detached signature\<close>

text \<open>
  Artifacts, asset generations and listen plans share one contract: their canonical bytes do not
  depend on the signature field. A key accepts an envelope when its signature verifies on those
  bytes.
\<close>

definition envelope_accepts ::
  "('m \<Rightarrow> bytes option) \<Rightarrow> ('m \<Rightarrow> signature option) \<Rightarrow> 'a golib_scheme \<Rightarrow> bytes \<Rightarrow> 'm \<Rightarrow> bool" where
  "envelope_accepts canonical get_sig L pub m \<longleftrightarrow>
     (\<exists>c g. canonical m = Some c \<and> get_sig m = Some g \<and> sig_bytes g \<noteq> [] \<and>
        length pub = PublicKeySize \<and> ed25519_verify L pub c (sig_bytes g))"

locale signed_envelope =
  fixes canonical :: "'m \<Rightarrow> bytes option"
    and get_sig :: "'m \<Rightarrow> signature option"
    and set_sig :: "signature option \<Rightarrow> 'm \<Rightarrow> 'm"
  assumes canonical_set: "canonical (set_sig s m) = canonical m"
    and get_set: "get_sig (set_sig s m) = s"
begin

lemma stamped_accepted:
  assumes "canonical m = Some c" and "sig_bytes g \<noteq> []" and "length pub = PublicKeySize"
    and "ed25519_verify L pub c (sig_bytes g)"
  shows "envelope_accepts canonical get_sig L pub (set_sig (Some g) m)"
  using assms by (auto simp: envelope_accepts_def canonical_set get_set)

lemma signed_by_key_accepted:
  assumes "ed25519_laws L" and "length key = PrivateKeySize" and "canonical m = Some c"
    and "sig_bytes g = ed25519_sign L key c"
  shows "envelope_accepts canonical get_sig L (public_key L key) (set_sig (Some g) m)"
  using assms by (intro stamped_accepted [where c = c]) (auto dest: ed25519_lawsD)

end

interpretation artifact_envelope: signed_envelope "canonicalBytes P" art_signature
    "\<lambda>s a. a\<lparr>art_signature := s\<rparr>" for P :: "'z protolib_scheme"
  by unfold_locales simp_all

lemma VerifyArtifact_accepts:
  "VerifyArtifact P (Some a) pub = None \<longleftrightarrow>
     ArtifactID P (Some a) = Inr (art_id a) \<and> envelope_accepts (canonicalBytes P) art_signature P pub a"
  by (auto simp: VerifyArtifact_ok_iff envelope_accepts_def ArtifactID_Inr)

text \<open>
  A small concrete library: a key is a seed followed by its public half, a signature is the public
  half with the first 32 bytes of the message, the codec knows two envelopes. It shows that the
  hypotheses above can hold together.
\<close>

definition pad32 :: "bytes \<Rightarrow> bytes" where
  "pad32 m = take 32 (m @ replicate 32 (CHR 0x00))"

definition demo_artifact :: artifact where
  "demo_artifact = \<lparr>art_id = [], art_kind = KIND_POLICY, art_payload = ''p'', art_payload_schema = ''s'',
     art_scope = None, art_ttl = None, art_supersedes = [], art_evidence_refs = [],
     art_replay_report = None, art_signature = None, art_created_at = None, art_created_by = [],
     art_review_at = None, art_hard_expires_at = None, art_expiry_behavior = 0, art_scope_risk = 0,
     art_evidence_class = 0\<rparr>"

definition demo_id :: string where
  "demo_id = ''sha256:'' @ hex_encode (pad32 ''A'')"

definition demo_marshal :: "artifact \<Rightarrow> bytes option" where
  "demo_marshal a = (if a = demo_artifact then Some ''A''
                     else if a = demo_artifact\<lparr>art_id := demo_id\<rparr> then Some ''B'' else None)"

definition demo_unmarshal :: "bytes \<Rightarrow> artifact option" where
  "demo_unmarshal b = (if b = ''A'' then Some demo_artifact
                       else if b = ''B'' then Some (demo_artifact\<lparr>art_id := demo_id\<rparr>) else None)"

definition demo_protolib :: protolib where
  "demo_protolib = \<lparr>sha256 = pad32,
     ed25519_sign = (\<lambda>key m. drop 32 key @ pad32 m),
     ed25519_verify = (\<lambda>pub m sg. sg = pub @ pad32 m),
     public_key = drop 32,
     regexp_compiles = (\<lambda>_. False), regexp_match = (\<lambda>_ _. False), json_unmarshal = (\<lambda>_. None),
     unicode_digit = (\<lambda>_. False), unicode_letter = (\<lambda>_. False),
     marshal_artifact = demo_marshal, marshal_generation = (\<lambda>_. None), marshal_plan = (\<lambda>_. None),
     unmarshal_artifact = demo_unmarshal, unmarshal_generation = (\<lambda>_. None),
     unmarshal_plan = (\<lambda>_. None)\<rparr>"

definition demo_key :: bytes where
  "demo_key = replicate 64 (CHR ''k'')"

lemma length_pad32 [simp]: "length (pad32 m) = 32"
  by (simp add: pad32_def)

lemma demo_protolib_simps [simp]:
  "sha256 demo_protolib = pad32"
  "ed25519_sign demo_protolib key m = drop 32 key @ pad32 m"
  "ed25519_verify demo_protolib pub m sg \<longleftrightarrow> sg = pub @ pad32 m"
  "public_key demo_protolib = drop 32"
  "marshal_artifact demo_protolib = demo_marshal"
  "unmarshal_artifact demo_protolib = demo_unmarshal"
  by (simp_all add: demo_protolib_def)

lemma demo_artifact_simps [simp]:
  "art_id demo_artifact = []"
  "art_signature demo_artifact = None"
  by (simp_all add: demo_artifact_def)

definition demo_signed_artifact :: "string \<Rightarrow> instant \<Rightarrow> artifact" where
  "demo_signed_artifact k t = demo_artifact\<lparr>art_id := demo_id,
     art_signature := Some \<lparr>sig_key_id = k, sig_bytes = replicate 32 (CHR ''k'') @ pad32 ''A'',
       sig_signed_at = t\<rparr>\<rparr>"

lemma demo_laws: "ed25519_laws demo_protolib"
  by (simp add: ed25519_laws_def go_simps)

lemma demo_canonical: "canonicalBytes demo_protolib demo_artifact = Some ''A''"
  by (simp add: canonicalBytes_def demo_protolib_def demo_marshal_def demo_artifact_def)

subsection \<open>Properties\<close>

text \<open>
  What can be signed: an encodable artifact that carries no signature and whose id is empty or
  already its content address.
\<close>

definition signable :: "'a protolib_scheme \<Rightarrow> artifact \<Rightarrow> bool" where
  "signable P a \<longleftrightarrow> \<not> carries_signature (art_signature a) \<and>
     (case ArtifactID P (Some a) of Inl e \<Rightarrow> False | Inr i \<Rightarrow> art_id a = [] \<or> art_id a = i)"

text \<open>
  Signing with a private key succeeds exactly on a signable artifact with a key of the right
  length, and the signed artifact then verifies under the matching public key, with only its id
  and signature changed; a refused artifact is left exactly as it was.
\<close>

theorem SignArtifact_then_Verify:
  assumes laws: "ed25519_laws P"
  shows "case SignArtifact P now (Some a) key of
           (None, res) \<Rightarrow> length key = PrivateKeySize \<and> signable P a \<and>
             (\<exists>b. res = Some b \<and> VerifyArtifact P (Some b) (public_key P key) = None \<and>
                b\<lparr>art_id := art_id a, art_signature := art_signature a\<rparr> = a)
         | (Some e, res) \<Rightarrow> \<not> (length key = PrivateKeySize \<and> signable P a) \<and> res = Some a"
proof (cases "length key = PrivateKeySize \<and> signable P a")
  case True
  then obtain c where "canonicalBytes P a = Some c"
    by (auto simp: signable_def ArtifactID_def split: option.splits)
  with True laws show ?thesis
    by (auto simp: SignArtifact_def signable_def ArtifactID_def Let_def VerifyArtifact_ok_iff
             dest: ed25519_lawsD)
next
  case False
  then show ?thesis
    by (auto simp: SignArtifact_def signable_def ArtifactID_def Let_def split: option.splits)
qed

lemma demo_signed:
  "SignArtifact demo_protolib 7 (Some demo_artifact) demo_key =
     (None, Some (demo_signed_artifact (keyID demo_protolib demo_key) 7))"
  using demo_canonical
  by (simp add: SignArtifact_def ArtifactID_def go_simps demo_key_def demo_id_def Let_def
                demo_signed_artifact_def)

theorem SignArtifact_then_Verify_witness:
  "ed25519_laws demo_protolib \<and>
   (\<exists>b. SignArtifact demo_protolib 7 (Some demo_artifact) demo_key = (None, Some b) \<and>
        VerifyArtifact demo_protolib (Some b) (public_key demo_protolib demo_key) = None)"
  using SignArtifact_then_Verify [OF demo_laws, where now = 7 and a = demo_artifact and key = demo_key]
  by (simp add: demo_signed demo_laws)

text \<open>
  C27: an id names one envelope. Two artifacts that verify (under any keys) with the same id have
  the same content up to their signatures, provided the hash does not collide on their two
  encodings and the encoder is injective.
\<close>

theorem verified_id_binds_content:
  assumes "VerifyArtifact P (Some a) pub = None" and "VerifyArtifact P (Some b) pub' = None"
    and "art_id a = art_id b"
    and no_collision: "\<And>c d. canonicalBytes P a = Some c \<Longrightarrow> canonicalBytes P b = Some d \<Longrightarrow>
           hex_encode (sha256 P c) = hex_encode (sha256 P d) \<Longrightarrow> c = d"
    and injective: "\<And>x y c. marshal_artifact P x = Some c \<Longrightarrow> marshal_artifact P y = Some c \<Longrightarrow> x = y"
  shows "a\<lparr>art_signature := None\<rparr> = b\<lparr>art_signature := None\<rparr>"
proof -
  from assms(1-3) obtain c d where c: "canonicalBytes P a = Some c" and d: "canonicalBytes P b = Some d"
    and "hex_encode (sha256 P c) = hex_encode (sha256 P d)"
    by (auto simp: VerifyArtifact_ok_iff)
  with no_collision have "c = d" by blast
  with c d have "a\<lparr>art_id := [], art_signature := None\<rparr> = b\<lparr>art_id := [], art_signature := None\<rparr>"
    by (auto simp: canonicalBytes_def intro: injective)
  with assms(3) show ?thesis by (cases a, cases b) simp
qed

lemma demo_verifies:
  "VerifyArtifact demo_protolib (Some (demo_signed_artifact k t)) (replicate 32 (CHR ''k'')) = None"
  using demo_canonical
  by (simp add: VerifyArtifact_ok_iff demo_id_def go_simps demo_signed_artifact_def)

theorem verified_id_binds_content_witness:
  "VerifyArtifact demo_protolib (Some (demo_signed_artifact ''a'' 1)) (replicate 32 (CHR ''k'')) = None \<and>
   VerifyArtifact demo_protolib (Some (demo_signed_artifact ''b'' 2)) (replicate 32 (CHR ''k'')) = None \<and>
   (demo_signed_artifact ''a'' 1)\<lparr>art_signature := None\<rparr> = (demo_signed_artifact ''b'' 2)\<lparr>art_signature := None\<rparr>"
proof (intro conjI demo_verifies, rule verified_id_binds_content [OF demo_verifies demo_verifies])
  show "art_id (demo_signed_artifact ''a'' 1) = art_id (demo_signed_artifact ''b'' 2)"
    by (simp add: demo_signed_artifact_def)
  show "c = d" if "canonicalBytes demo_protolib (demo_signed_artifact ''a'' 1) = Some c"
    and "canonicalBytes demo_protolib (demo_signed_artifact ''b'' 2) = Some d" for c d
    using that by (simp add: demo_canonical demo_signed_artifact_def)
  show "x = y" if "marshal_artifact demo_protolib x = Some c" and "marshal_artifact demo_protolib y = Some c"
    for x y c
    using that by (auto simp: demo_marshal_def split: if_splits)
qed

text \<open>
  After key rotation a ring accepts an artifact exactly when one of the keys it was built from
  (of valid length) verifies it; a ring is refused only when no offered key has a valid length.
\<close>

theorem VerifyRing_accepts_iff:
  "case NewVerifyRing pubs of
     Inl e \<Rightarrow> e = VerifyRingEmpty \<and> (\<nexists>p. p \<in> set pubs \<and> length p = PublicKeySize)
   | Inr ring \<Rightarrow>
       (VerifyRing_Verify P (Some ring) a = None) = (\<exists>p. p \<in> set pubs \<and> VerifyArtifact P a p = None)"
proof (cases "filter (\<lambda>p. length p = PublicKeySize) pubs = []")
  case True
  then show ?thesis by (auto simp: NewVerifyRing_def filter_empty_conv)
next
  case False
  have "length p = PublicKeySize" if "VerifyArtifact P a p = None" for p
    using that by (cases a) (auto simp: VerifyArtifact_ok_iff)
  with False show ?thesis
    by (auto simp: NewVerifyRing_def VerifyRing_Verify_def verify_with_any_ok_iff Let_def)
qed

end
