(* ===== verification/Signer.thy ===== *)
theory Signer
  imports Artifact
begin

text \<open>
  The signing service (\<^verbatim>\<open>src/lib/kernel/signer.go\<close>) and the envelopes it signs besides artifacts:
  asset generations (\<^verbatim>\<open>generation.go\<close>), unit listen plans (\<^verbatim>\<open>listen_plan.go\<close>) and audit
  checkpoints (\<^verbatim>\<open>checkpoint.go\<close>). A signer is an in-process key or a client of the socket
  protocol; the network is a function from the address and the bytes written to the bytes the
  peer sends back, so an arbitrary peer can stand behind the socket.
\<close>

subsection \<open>Canonical bytes of the other signed envelopes\<close>

definition generationCanonical :: "'a protolib_scheme \<Rightarrow> asset_generation \<Rightarrow> bytes option" where
  "generationCanonical P g = marshal_generation P (g\<lparr>gen_signature := None\<rparr>)"

definition unitListenPlanBytes :: "'a protolib_scheme \<Rightarrow> unit_listen_plan \<Rightarrow> bytes option" where
  "unitListenPlanBytes P p = marshal_plan P (p\<lparr>plan_signature := None\<rparr>)"

subsection \<open>Audit checkpoints\<close>

record audit_checkpoint =
  cp_sequence :: int
  cp_head :: string
  cp_created_at :: "instant option" \<comment> \<open>\<open>None\<close> is the zero time\<close>
  cp_key_id :: string
  cp_signature :: bytes

record signing_request =
  req_version :: string
  req_operation :: string
  req_envelope :: bytes

record signing_response =
  resp_signature :: bytes
  resp_error :: string

text \<open>
  The JSON codec of the two protocol messages and of the checkpoint is a parameter; the decoders
  are the strict ones of the sources: unknown fields and trailing values are errors.
\<close>

record signlib = protolib +
  encode_checkpoint :: "audit_checkpoint \<Rightarrow> bytes option"
  decode_checkpoint :: "bytes \<Rightarrow> audit_checkpoint option"
  encode_request :: "signing_request \<Rightarrow> bytes option"
  decode_request :: "bytes \<Rightarrow> signing_request option"
  encode_response :: "signing_response \<Rightarrow> bytes option"
  decode_response :: "bytes \<Rightarrow> signing_response option"
  error_text :: "kernel_error \<Rightarrow> string"

definition auditCheckpointEnvelope :: "'a signlib_scheme \<Rightarrow> audit_checkpoint \<Rightarrow> bytes option" where
  "auditCheckpointEnvelope P c = encode_checkpoint P (c\<lparr>cp_key_id := [], cp_signature := []\<rparr>)"

definition canonicalAuditCheckpoint :: "'a signlib_scheme \<Rightarrow> bytes \<Rightarrow> kernel_error + bytes" where
  "canonicalAuditCheckpoint P raw =
     (case decode_checkpoint P raw of
        None \<Rightarrow> Inl CheckpointInvalid
      | Some c \<Rightarrow>
          if cp_sequence c \<le> 0 \<or> trim_space (cp_head c) = [] \<or> cp_created_at c = None
             \<or> cp_key_id c \<noteq> [] \<or> length (cp_signature c) \<noteq> 0
          then Inl CheckpointInvalid
          else (case encode_checkpoint P c of None \<Rightarrow> Inl MarshalFailed | Some b \<Rightarrow> Inr b))"

subsection \<open>The typed request\<close>

definition signingProtocolVersion :: string where "signingProtocolVersion = ''signer/v1''"
definition signingMessageLimit :: nat where "signingMessageLimit = 2 ^ 20"
definition SignOperationArtifact :: string where "SignOperationArtifact = ''artifact''"
definition SignOperationAssetGeneration :: string where "SignOperationAssetGeneration = ''asset_generation''"
definition SignOperationListenPlan :: string where "SignOperationListenPlan = ''unit_listen_plan''"
definition SignOperationAuditCheckpoint :: string where "SignOperationAuditCheckpoint = ''audit_checkpoint''"

lemmas sign_operations =
  SignOperationArtifact_def SignOperationAssetGeneration_def SignOperationListenPlan_def
  SignOperationAuditCheckpoint_def

text \<open>A nil member has no artifact, so it counts as unsigned.\<close>

definition member_verifies :: "'a protolib_scheme \<Rightarrow> bytes \<Rightarrow> release_item option \<Rightarrow> bool" where
  "member_verifies P pub m =
     (case m of
        None \<Rightarrow> False
      | Some item \<Rightarrow>
          item_artifact item \<noteq> None \<and> VerifyArtifact P (item_artifact item) pub = None)"

definition canonicalTypedSigningRequest ::
  "'a signlib_scheme \<Rightarrow> signing_request \<Rightarrow> bytes \<Rightarrow> kernel_error + bytes" where
  "canonicalTypedSigningRequest P request public =
     (let envelope = req_envelope request; op = req_operation request in
      if req_version request \<noteq> signingProtocolVersion \<or> length envelope = 0
         \<or> length envelope > signingMessageLimit
      then Inl SigningRequestInvalid
      else if op = SignOperationArtifact then
        (case unmarshal_artifact P envelope of
           None \<Rightarrow> Inl SigningEnvelopeInvalid
         | Some a \<Rightarrow>
             if art_id a = [] \<or> art_kind a = KIND_UNSPECIFIED \<or> length (art_payload a) = 0
                \<or> art_payload_schema a = [] \<or> art_signature a \<noteq> None
             then Inl SigningEnvelopeInvalid
             else (case ArtifactID P (Some a) of
                     Inl e \<Rightarrow> Inl SigningIdentityInvalid
                   | Inr want \<Rightarrow>
                       if art_id a \<noteq> want then Inl SigningIdentityInvalid
                       else (case canonicalBytes P a of None \<Rightarrow> Inl MarshalFailed | Some c \<Rightarrow> Inr c)))
      else if op = SignOperationAssetGeneration then
        (case unmarshal_generation P envelope of
           None \<Rightarrow> Inl SigningEnvelopeInvalid
         | Some g \<Rightarrow>
             if gen_id g = [] \<or> gen_asset_id g = [] \<or> gen_seq g \<le> 0 \<or> gen_signature g \<noteq> None
             then Inl SigningEnvelopeInvalid
             else if \<not> list_all (member_verifies P public) (gen_members g) then Inl UnsignedMember
             else (case generationCanonical P g of None \<Rightarrow> Inl MarshalFailed | Some c \<Rightarrow> Inr c))
      else if op = SignOperationListenPlan then
        (case unmarshal_plan P envelope of
           None \<Rightarrow> Inl SigningEnvelopeInvalid
         | Some p \<Rightarrow>
             if plan_unit_id p = [] \<or> plan_version p = 0 \<or> plan_signature p \<noteq> None
             then Inl SigningEnvelopeInvalid
             else (case unitListenPlanBytes P p of None \<Rightarrow> Inl MarshalFailed | Some c \<Rightarrow> Inr c))
      else if op = SignOperationAuditCheckpoint then canonicalAuditCheckpoint P envelope
      else Inl OperationNotAllowed)"

subsection \<open>Length-prefixed frames\<close>

definition put_uint32 :: "nat \<Rightarrow> bytes" where
  "put_uint32 n = map (\<lambda>k. char_of (n div 256 ^ k)) [3, 2, 1, 0]"

definition get_uint_be :: "bytes \<Rightarrow> nat" where
  "get_uint_be bs = foldl (\<lambda>acc b. acc * 256 + of_char b) 0 bs"

definition writeSigningFrame :: "bytes \<Rightarrow> kernel_error + bytes" where
  "writeSigningFrame raw =
     (if length raw = 0 \<or> length raw > signingMessageLimit then Inl FrameExceedsLimit
      else Inr (put_uint32 (length raw) @ raw))"

text \<open>A short stream is the read error of \<open>io.ReadFull\<close>.\<close>

definition readSigningFrame :: "bytes \<Rightarrow> kernel_error + bytes" where
  "readSigningFrame stream =
     (if length stream < 4 then Inl SignerTransport
      else let size = get_uint_be (take 4 stream); rest = drop 4 stream in
        if size = 0 \<or> size > signingMessageLimit then Inl FrameExceedsLimit
        else if length rest < size then Inl SignerTransport
        else Inr (take size rest))"

subsection \<open>Signers\<close>

datatype signer =
    MemorySigner (mem_key: bytes) (RollbackOnly: bool)
  | SocketSigner (sock_addr: string) (sock_pub: bytes)

definition NewMemorySigner :: "bytes \<Rightarrow> kernel_error + signer" where
  "NewMemorySigner key =
     (if length key \<noteq> PrivateKeySize then Inl (InvalidPrivateKeyLength (length key))
      else Inr (MemorySigner key False))"

definition NewSocketSigner :: "string \<Rightarrow> bytes \<Rightarrow> kernel_error + signer" where
  "NewSocketSigner addr pub =
     (if addr = [] then Inl SocketAddressEmpty
      else if length pub \<noteq> PublicKeySize then Inl (InvalidPublicKeyLength (length pub))
      else Inr (SocketSigner addr pub))"

fun signer_Public :: "'a golib_scheme \<Rightarrow> signer \<Rightarrow> bytes" where
  "signer_Public L (MemorySigner key ro) = public_key L key"
| "signer_Public L (SocketSigner addr pub) = pub"

definition signer_KeyID :: "'a golib_scheme \<Rightarrow> signer \<Rightarrow> string" where
  "signer_KeyID L s = KeyID L (signer_Public L s)"

fun signer_Sign :: "'a golib_scheme \<Rightarrow> signer \<Rightarrow> bytes \<Rightarrow> kernel_error + bytes" where
  "signer_Sign L (MemorySigner key ro) digest =
     (if ro then Inl RollbackKeyCannotSign
      else if length digest = 0 then Inl EmptyDigest
      else Inr (ed25519_sign L key digest))"
| "signer_Sign L (SocketSigner addr pub) digest = Inl TypedOperationRequired"

type_synonym network = "string \<Rightarrow> bytes \<Rightarrow> bytes option"

definition SocketSigner_SignTyped ::
  "'a signlib_scheme \<Rightarrow> network \<Rightarrow> string \<Rightarrow> bytes \<Rightarrow> string \<Rightarrow> bytes \<Rightarrow> kernel_error + bytes" where
  "SocketSigner_SignTyped P net addr pub operation envelope =
     (if length envelope = 0 \<or> length envelope > signingMessageLimit then Inl EnvelopeEmptyOrTooLarge
      else let request = \<lparr>req_version = signingProtocolVersion, req_operation = operation,
                          req_envelope = envelope\<rparr> in
        case canonicalTypedSigningRequest P request pub of
          Inl e \<Rightarrow> Inl e
        | Inr canonical \<Rightarrow>
            (case encode_request P request of
               None \<Rightarrow> Inl MarshalFailed
             | Some raw \<Rightarrow>
                 (case writeSigningFrame raw of
                    Inl e \<Rightarrow> Inl e
                  | Inr frame \<Rightarrow>
                      (case net addr frame of
                         None \<Rightarrow> Inl SignerTransport
                       | Some stream \<Rightarrow>
                           (case readSigningFrame stream of
                              Inl e \<Rightarrow> Inl e
                            | Inr responseRaw \<Rightarrow>
                                (case decode_response P responseRaw of
                                   None \<Rightarrow> Inl SignerTransport
                                 | Some response \<Rightarrow>
                                     if resp_error response \<noteq> [] then Inl (SignerResponse (resp_error response))
                                     else if length (resp_signature response) \<noteq> SignatureSize
                                       then Inl SignerReturnedInvalidSignature
                                     else if \<not> ed25519_verify P pub canonical (resp_signature response)
                                       then Inl SignerSignatureDoesNotVerify
                                     else Inr (resp_signature response)))))))"

text \<open>
  The server side of one accepted connection: the bytes it writes back (\<open>None\<close> when it closes
  the connection without an answer).
\<close>

definition writeSigningResponse :: "'a signlib_scheme \<Rightarrow> signing_response \<Rightarrow> bytes option" where
  "writeSigningResponse P response =
     (case encode_response P response of
        None \<Rightarrow> None
      | Some raw \<Rightarrow> (case writeSigningFrame raw of Inl e \<Rightarrow> None | Inr frame \<Rightarrow> Some frame))"

definition serve_signing_connection ::
  "'a signlib_scheme \<Rightarrow> bool \<Rightarrow> signer \<Rightarrow> bytes \<Rightarrow> bytes option" where
  "serve_signing_connection P peer_uid_ok inner stream =
     (if \<not> peer_uid_ok then None
      else case readSigningFrame stream of
        Inl e \<Rightarrow> None
      | Inr raw \<Rightarrow>
          (case decode_request P raw of
             None \<Rightarrow> writeSigningResponse P
                       \<lparr>resp_signature = [], resp_error = ''invalid typed signing request''\<rparr>
           | Some request \<Rightarrow>
               (case canonicalTypedSigningRequest P request (signer_Public P inner) of
                  Inl e \<Rightarrow> writeSigningResponse P \<lparr>resp_signature = [], resp_error = error_text P e\<rparr>
                | Inr canonical \<Rightarrow>
                    (case signer_Sign P inner canonical of
                       Inl e \<Rightarrow> writeSigningResponse P \<lparr>resp_signature = [], resp_error = error_text P e\<rparr>
                     | Inr sig \<Rightarrow> writeSigningResponse P \<lparr>resp_signature = sig, resp_error = []\<rparr>))))"

subsection \<open>Signing through a signer\<close>

text \<open>
  Only the socket signer implements the typed interface; it sends the whole envelope, the memory
  signer signs the canonical bytes.
\<close>

definition sign_with ::
  "'a signlib_scheme \<Rightarrow> network \<Rightarrow> signer \<Rightarrow> string \<Rightarrow> bytes option \<Rightarrow> bytes \<Rightarrow> kernel_error + bytes" where
  "sign_with P net s operation envelope canonical =
     (case s of
        SocketSigner addr pub \<Rightarrow>
          (case envelope of
             None \<Rightarrow> Inl MarshalFailed
           | Some e \<Rightarrow> SocketSigner_SignTyped P net addr pub operation e)
      | MemorySigner key ro \<Rightarrow> signer_Sign P s canonical)"

definition SignArtifactWithSigner ::
  "'a signlib_scheme \<Rightarrow> network \<Rightarrow> instant \<Rightarrow> artifact option \<Rightarrow> signer option \<Rightarrow>
   kernel_error option \<times> artifact option" where
  "SignArtifactWithSigner P net now arg signer =
     (case signer of
        None \<Rightarrow> (Some SignerNil, arg)
      | Some s \<Rightarrow>
          (case arg of
             None \<Rightarrow> (Some ArtifactNil, None)
           | Some a \<Rightarrow>
               if carries_signature (art_signature a) then (Some AlreadySigned, Some a)
               else case ArtifactID P (Some a) of
                 Inl e \<Rightarrow> (Some e, Some a)
               | Inr want \<Rightarrow>
                   if art_id a \<noteq> [] \<and> art_id a \<noteq> want then (Some (IdMismatch (art_id a) want), Some a)
                   else let a = (if art_id a = [] then a\<lparr>art_id := want\<rparr> else a) in
                     case canonicalBytes P a of
                       None \<Rightarrow> (Some MarshalFailed, Some a)
                     | Some canonical \<Rightarrow>
                         (case sign_with P net s SignOperationArtifact (marshal_artifact P a) canonical of
                            Inl e \<Rightarrow> (Some e, Some a)
                          | Inr sig \<Rightarrow>
                              (None, Some (a\<lparr>art_signature := Some \<lparr>sig_key_id = signer_KeyID P s,
                                 sig_bytes = sig, sig_signed_at = now\<rparr>\<rparr>)))))"

subsection \<open>Asset generations\<close>

definition SignGeneration ::
  "'a protolib_scheme \<Rightarrow> instant \<Rightarrow> asset_generation option \<Rightarrow> bytes \<Rightarrow>
   kernel_error option \<times> asset_generation option" where
  "SignGeneration P now arg key =
     (case arg of
        None \<Rightarrow> (Some GenerationNil, None)
      | Some g \<Rightarrow>
          if length key \<noteq> PrivateKeySize then (Some (InvalidPrivateKeyLength (length key)), Some g)
          else if carries_signature (gen_signature g) then (Some AlreadySigned, Some g)
          else case generationCanonical P g of
            None \<Rightarrow> (Some MarshalFailed, Some g)
          | Some canon \<Rightarrow>
              (None, Some (g\<lparr>gen_signature := Some \<lparr>sig_key_id = keyID P key,
                 sig_bytes = ed25519_sign P key canon, sig_signed_at = now\<rparr>\<rparr>)))"

definition SignGenerationWithSigner ::
  "'a signlib_scheme \<Rightarrow> network \<Rightarrow> instant \<Rightarrow> asset_generation option \<Rightarrow> signer option \<Rightarrow>
   kernel_error option \<times> asset_generation option" where
  "SignGenerationWithSigner P net now arg signer =
     (case signer of
        None \<Rightarrow> (Some SignerNil, arg)
      | Some s \<Rightarrow>
          (case arg of
             None \<Rightarrow> (Some GenerationNil, None)
           | Some g \<Rightarrow>
               if carries_signature (gen_signature g) then (Some AlreadySigned, Some g)
               else case generationCanonical P g of
                 None \<Rightarrow> (Some MarshalFailed, Some g)
               | Some canon \<Rightarrow>
                   (case sign_with P net s SignOperationAssetGeneration (marshal_generation P g) canon of
                      Inl e \<Rightarrow> (Some e, Some g)
                    | Inr sig \<Rightarrow>
                        (None, Some (g\<lparr>gen_signature := Some \<lparr>sig_key_id = signer_KeyID P s,
                           sig_bytes = sig, sig_signed_at = now\<rparr>\<rparr>)))))"

definition VerifyGeneration ::
  "'a protolib_scheme \<Rightarrow> asset_generation option \<Rightarrow> bytes \<Rightarrow> kernel_error option" where
  "VerifyGeneration P arg pub =
     (case arg of
        None \<Rightarrow> Some GenerationNil
      | Some g \<Rightarrow>
          (case gen_signature g of
             None \<Rightarrow> Some MissingSignature
           | Some sg \<Rightarrow>
               if sig_bytes sg = [] then Some MissingSignature
               else if length pub \<noteq> PublicKeySize then Some (InvalidPublicKeyLength (length pub))
               else case generationCanonical P g of
                 None \<Rightarrow> Some MarshalFailed
               | Some canon \<Rightarrow>
                   if \<not> ed25519_verify P pub canon (sig_bytes sg) then Some SignatureVerificationFailed
                   else None))"

subsection \<open>Unit listen plans\<close>

definition SignUnitListenPlan ::
  "'a protolib_scheme \<Rightarrow> instant \<Rightarrow> unit_listen_plan option \<Rightarrow> bytes \<Rightarrow>
   kernel_error option \<times> unit_listen_plan option" where
  "SignUnitListenPlan P now arg key =
     (if length key \<noteq> PrivateKeySize then (Some (InvalidPrivateKeyLength (length key)), arg)
      else case arg of
        None \<Rightarrow> (Some PlanNil, None)
      | Some p \<Rightarrow>
          if carries_signature (plan_signature p) then (Some AlreadySigned, Some p)
          else case unitListenPlanBytes P p of
            None \<Rightarrow> (Some MarshalFailed, Some p)
          | Some raw \<Rightarrow>
              (None, Some (p\<lparr>plan_signature := Some \<lparr>sig_key_id = keyID P key,
                 sig_bytes = ed25519_sign P key raw, sig_signed_at = now\<rparr>\<rparr>)))"

definition SignUnitListenPlanWithSigner ::
  "'a signlib_scheme \<Rightarrow> network \<Rightarrow> instant \<Rightarrow> unit_listen_plan option \<Rightarrow> signer option \<Rightarrow>
   kernel_error option \<times> unit_listen_plan option" where
  "SignUnitListenPlanWithSigner P net now arg signer =
     (case signer of
        None \<Rightarrow> (Some SignerNil, arg)
      | Some s \<Rightarrow>
          (case arg of
             None \<Rightarrow> (Some PlanNil, None)
           | Some p \<Rightarrow>
               if carries_signature (plan_signature p) then (Some AlreadySigned, Some p)
               else case unitListenPlanBytes P p of
                 None \<Rightarrow> (Some MarshalFailed, Some p)
               | Some raw \<Rightarrow>
                   (case sign_with P net s SignOperationListenPlan (marshal_plan P p) raw of
                      Inl e \<Rightarrow> (Some e, Some p)
                    | Inr sig \<Rightarrow>
                        (None, Some (p\<lparr>plan_signature := Some \<lparr>sig_key_id = signer_KeyID P s,
                           sig_bytes = sig, sig_signed_at = now\<rparr>\<rparr>)))))"

definition VerifyUnitListenPlan ::
  "'a protolib_scheme \<Rightarrow> unit_listen_plan option \<Rightarrow> bytes \<Rightarrow> kernel_error option" where
  "VerifyUnitListenPlan P arg pub =
     (case arg of
        None \<Rightarrow> Some PlanNil
      | Some p \<Rightarrow>
          if length pub \<noteq> PublicKeySize then Some (InvalidPublicKeyLength (length pub))
          else case plan_signature p of
            None \<Rightarrow> Some MissingSignature
          | Some sg \<Rightarrow>
              if sig_bytes sg = [] then Some MissingSignature
              else if sig_key_id sg \<noteq> KeyID P pub then Some KeyIdMismatch
              else case unitListenPlanBytes P p of
                None \<Rightarrow> Some MarshalFailed
              | Some raw \<Rightarrow>
                  if \<not> ed25519_verify P pub raw (sig_bytes sg) then Some SignatureVerificationFailed
                  else None)"

subsection \<open>Signed audit checkpoints\<close>

definition SignAuditCheckpointWithSigner ::
  "'a signlib_scheme \<Rightarrow> network \<Rightarrow> instant \<Rightarrow> audit_checkpoint option \<Rightarrow> signer option \<Rightarrow>
   kernel_error option \<times> audit_checkpoint option" where
  "SignAuditCheckpointWithSigner P net now arg signer =
     (case (arg, signer) of
        (Some c, Some s) \<Rightarrow>
          (let c = (if cp_created_at c = None then c\<lparr>cp_created_at := Some now\<rparr> else c) in
           case auditCheckpointEnvelope P c of
             None \<Rightarrow> (Some MarshalFailed, Some c)
           | Some raw \<Rightarrow>
               (case canonicalAuditCheckpoint P raw of
                  Inl e \<Rightarrow> (Some e, Some c)
                | Inr canonical \<Rightarrow>
                    (case sign_with P net s SignOperationAuditCheckpoint (Some raw) canonical of
                       Inl e \<Rightarrow> (Some e, Some c)
                     | Inr sig \<Rightarrow>
                         (None, Some (c\<lparr>cp_key_id := signer_KeyID P s, cp_signature := sig\<rparr>)))))
      | _ \<Rightarrow> (Some CheckpointInvalid, arg))"

definition VerifySignedAuditCheckpoint ::
  "'a signlib_scheme \<Rightarrow> audit_checkpoint option \<Rightarrow> bytes \<Rightarrow> int \<Rightarrow> string \<Rightarrow> kernel_error option" where
  "VerifySignedAuditCheckpoint P arg public sequence head =
     (if length public \<noteq> PublicKeySize then Some (InvalidPublicKeyLength (length public))
      else case arg of
        None \<Rightarrow> Some CheckpointInvalid
      | Some c \<Rightarrow>
          if cp_sequence c \<noteq> sequence \<or> cp_head c \<noteq> head \<or> cp_key_id c \<noteq> KeyID P public
          then Some CheckpointInvalid
          else case auditCheckpointEnvelope P c of
            None \<Rightarrow> Some MarshalFailed
          | Some raw \<Rightarrow>
              (case canonicalAuditCheckpoint P raw of
                 Inl e \<Rightarrow> Some e
               | Inr canonical \<Rightarrow>
                   if \<not> ed25519_verify P public canonical (cp_signature c)
                   then Some SignatureVerificationFailed else None))"

subsection \<open>Frames\<close>

lemma length_put_uint32 [simp]: "length (put_uint32 n) = 4"
  by (simp add: put_uint32_def)

lemma get_put_uint32:
  assumes "n < 2 ^ 32"
  shows "get_uint_be (put_uint32 n) = n"
proof -
  define q1 q2 q3 where "q1 = n div 256" and "q2 = q1 div 256" and "q3 = q2 div 256"
  have top: "q3 mod 256 = q3" using assms by (simp add: q1_def q2_def q3_def flip: div_mult2_eq)
  have "get_uint_be (put_uint32 n) = ((q3 mod 256 * 256 + q2 mod 256) * 256 + q1 mod 256) * 256 + n mod 256"
    by (simp add: get_uint_be_def put_uint32_def q1_def q2_def q3_def of_char_of flip: div_mult2_eq)
  also have "\<dots> = n" unfolding top by (simp add: q1_def q2_def q3_def div_mult_mod_eq)
  finally show ?thesis .
qed

lemma read_write_frame:
  assumes "writeSigningFrame raw = Inr frame"
  shows "readSigningFrame (frame @ rest) = Inr raw"
proof -
  from assms have frame: "frame = put_uint32 (length raw) @ raw"
    and len: "0 < length raw" "length raw \<le> signingMessageLimit"
    by (auto simp: writeSigningFrame_def split: if_splits)
  from len have "length raw < 2 ^ 32" by (simp add: signingMessageLimit_def)
  with len show ?thesis
    by (simp add: readSigningFrame_def frame get_put_uint32)
qed

lemmas read_write_frame_only = read_write_frame [where rest = "[]", simplified]

subsection \<open>The envelopes under the common contract\<close>

interpretation generation_envelope: signed_envelope "generationCanonical P" gen_signature
    "\<lambda>s g. g\<lparr>gen_signature := s\<rparr>" for P :: "'z protolib_scheme"
  by unfold_locales (simp_all add: generationCanonical_def)

interpretation plan_envelope: signed_envelope "unitListenPlanBytes P" plan_signature
    "\<lambda>s p. p\<lparr>plan_signature := s\<rparr>" for P :: "'z protolib_scheme"
  by unfold_locales (simp_all add: unitListenPlanBytes_def)

lemma VerifyGeneration_accepts:
  "VerifyGeneration P (Some g) pub = None \<longleftrightarrow>
     envelope_accepts (generationCanonical P) gen_signature P pub g"
  by (auto simp: VerifyGeneration_def envelope_accepts_def split: option.splits)

lemma VerifyUnitListenPlan_accepts:
  "VerifyUnitListenPlan P (Some p) pub = None \<longleftrightarrow>
     envelope_accepts (unitListenPlanBytes P) plan_signature P pub p \<and>
     (\<exists>sg. plan_signature p = Some sg \<and> sig_key_id sg = KeyID P pub)"
  by (auto simp: VerifyUnitListenPlan_def envelope_accepts_def split: option.splits)

subsection \<open>What a socket signer hands back\<close>

lemma SignTyped_sound:
  assumes "SocketSigner_SignTyped P net addr pub op envelope = Inr sig"
  obtains canonical where
    "canonicalTypedSigningRequest P \<lparr>req_version = signingProtocolVersion, req_operation = op,
       req_envelope = envelope\<rparr> pub = Inr canonical"
    and "length sig = SignatureSize" and "ed25519_verify P pub canonical sig"
  using assms
  by (auto simp: SocketSigner_SignTyped_def Let_def split: if_splits option.splits sum.splits)

lemma typed_artifact_request:
  assumes "canonicalTypedSigningRequest P \<lparr>req_version = v, req_operation = SignOperationArtifact,
       req_envelope = envelope\<rparr> pub = Inr canonical"
  obtains a where "unmarshal_artifact P envelope = Some a" and "canonicalBytes P a = Some canonical"
    and "art_signature a = None" and "ArtifactID P (Some a) = Inr (art_id a)"
  using assms
  by (auto simp: canonicalTypedSigningRequest_def Let_def split: if_splits option.splits sum.splits)

lemma typed_generation_request:
  assumes "canonicalTypedSigningRequest P \<lparr>req_version = v, req_operation = SignOperationAssetGeneration,
       req_envelope = envelope\<rparr> pub = Inr canonical"
  obtains g where "unmarshal_generation P envelope = Some g" and "generationCanonical P g = Some canonical"
    and "list_all (member_verifies P pub) (gen_members g)" and "gen_signature g = None" and "0 < gen_seq g"
  using assms
  by (auto simp: canonicalTypedSigningRequest_def Let_def sign_operations
           split: if_splits option.splits sum.splits)

subsection \<open>A concrete library for the protocol\<close>

definition demo_generation :: asset_generation where
  "demo_generation = \<lparr>gen_id = ''g1'', gen_asset_id = ''shop'', gen_seq = 1, gen_parent_id = [],
     gen_members = [Some \<lparr>item_release_id = ''r1'', item_artifact = Some (demo_signed_artifact [] 3),
       item_asset_id = ''shop'', item_mode = RELEASE_MODE_SHADOW, item_canary_percent = 0,
       item_retired = False, item_retire_reason = RETIRE_REASON_UNSPECIFIED, item_changed_at = None,
       item_generation_seq = 1\<rparr>],
     gen_min_edge_version = [], gen_not_before = None, gen_signature = None, gen_rollback_of = 0\<rparr>"

definition typed_request :: "string \<Rightarrow> bytes \<Rightarrow> signing_request" where
  "typed_request op e = \<lparr>req_version = signingProtocolVersion, req_operation = op, req_envelope = e\<rparr>"

definition demo_encode_request :: "signing_request \<Rightarrow> bytes option" where
  "demo_encode_request r =
     (if r = typed_request SignOperationArtifact (req_envelope r) then Some (CHR ''a'' # req_envelope r)
      else if r = typed_request SignOperationAssetGeneration (req_envelope r)
        then Some (CHR ''g'' # req_envelope r)
      else None)"

fun demo_decode_request :: "bytes \<Rightarrow> signing_request option" where
  "demo_decode_request [] = None"
| "demo_decode_request (t # e) =
     (if t = CHR ''a'' then Some (typed_request SignOperationArtifact e)
      else if t = CHR ''g'' then Some (typed_request SignOperationAssetGeneration e) else None)"

definition demo_encode_response :: "signing_response \<Rightarrow> bytes option" where
  "demo_encode_response r =
     (if resp_error r = [] then Some (CHR ''s'' # resp_signature r)
      else if resp_signature r = [] then Some (CHR ''e'' # resp_error r) else None)"

fun demo_decode_response :: "bytes \<Rightarrow> signing_response option" where
  "demo_decode_response [] = None"
| "demo_decode_response (t # b) =
     (if t = CHR ''s'' then Some \<lparr>resp_signature = b, resp_error = []\<rparr>
      else if t = CHR ''e'' then Some \<lparr>resp_signature = [], resp_error = b\<rparr> else None)"

definition demo_signlib :: signlib where
  "demo_signlib = protolib.extend
     (demo_protolib\<lparr>marshal_generation := \<lambda>g. if g = demo_generation then Some ''G'' else None,
        unmarshal_generation := \<lambda>b. if b = ''G'' then Some demo_generation else None\<rparr>)
     \<lparr>encode_checkpoint = \<lambda>_. None, decode_checkpoint = \<lambda>_. None,
      encode_request = demo_encode_request, decode_request = demo_decode_request,
      encode_response = demo_encode_response, decode_response = demo_decode_response,
      error_text = \<lambda>_. ''refused''\<rparr>"

lemma demo_signlib_simps [simp]:
  "sha256 demo_signlib = pad32"
  "ed25519_sign demo_signlib key m = drop 32 key @ pad32 m"
  "ed25519_verify demo_signlib pub m sg \<longleftrightarrow> sg = pub @ pad32 m"
  "public_key demo_signlib = drop 32"
  "marshal_artifact demo_signlib = demo_marshal"
  "unmarshal_artifact demo_signlib = demo_unmarshal"
  "marshal_generation demo_signlib g = (if g = demo_generation then Some ''G'' else None)"
  "unmarshal_generation demo_signlib b = (if b = ''G'' then Some demo_generation else None)"
  "encode_request demo_signlib = demo_encode_request"
  "decode_request demo_signlib = demo_decode_request"
  "encode_response demo_signlib = demo_encode_response"
  "decode_response demo_signlib = demo_decode_response"
  "error_text demo_signlib e = ''refused''"
  by (simp_all add: demo_signlib_def demo_protolib_def protolib.extend_def)

lemma demo_signlib_laws: "ed25519_laws demo_signlib"
  by (simp add: ed25519_laws_def go_simps)

lemma demo_sign_canonical: "canonicalBytes demo_signlib demo_artifact = Some ''A''"
  by (simp add: canonicalBytes_def demo_marshal_def demo_artifact_def)

lemma demo_id_not_Nil [simp]: "demo_id \<noteq> []"
  by (simp add: demo_id_def)

lemma demo_with_id_distinct [simp]: "demo_artifact\<lparr>art_id := demo_id\<rparr> \<noteq> demo_artifact"
  by (metis demo_artifact_simps(1) demo_id_not_Nil artifact.select_convs(1) artifact.surjective
        artifact.update_convs(1))

lemma demo_codec:
  "marshal_artifact demo_signlib x = Some e \<Longrightarrow> unmarshal_artifact demo_signlib e = Some x"
  by (auto simp: demo_marshal_def demo_unmarshal_def split: if_splits)

definition demo_net :: network where
  "demo_net = (\<lambda>addr. serve_signing_connection demo_signlib True (MemorySigner demo_key False))"

subsection \<open>Properties\<close>

text \<open>
  C16: whatever process answers on the signing socket, an artifact that the production signing path
  reports as signed verifies under the configured public key, and only its id and signature
  changed. The codec hypothesis is the round trip of the one envelope that is sent.
\<close>

theorem SignArtifactWithSigner_socket_sound:
  assumes pub: "length pub = PublicKeySize"
    and codec: "\<And>x e. marshal_artifact P x = Some e \<Longrightarrow> unmarshal_artifact P e = Some x"
    and ok: "SignArtifactWithSigner P net now (Some a) (Some (SocketSigner addr pub)) = (None, res)"
  shows "\<exists>b. res = Some b \<and> VerifyArtifact P (Some b) pub = None \<and>
           b\<lparr>art_id := art_id a, art_signature := art_signature a\<rparr> = a"
proof -
  from ok obtain i c where i: "ArtifactID P (Some a) = Inr i" and c: "canonicalBytes P a = Some c"
    and "art_id a = [] \<or> art_id a = i"
    by (auto simp: SignArtifactWithSigner_def ArtifactID_def split: option.splits if_splits)
  with ok obtain e sig where e: "marshal_artifact P (a\<lparr>art_id := i\<rparr>) = Some e"
    and sig: "SocketSigner_SignTyped P net addr pub SignOperationArtifact e = Inr sig"
    and res: "res = Some (a\<lparr>art_id := i, art_signature := Some \<lparr>sig_key_id = KeyID P pub,
                 sig_bytes = sig, sig_signed_at = now\<rparr>\<rparr>)"
    by (auto simp: SignArtifactWithSigner_def sign_with_def signer_KeyID_def Let_def
             split: option.splits if_splits sum.splits)
  have *: "length sig = SignatureSize \<and> ed25519_verify P pub c sig"
    using sig
    by (rule SignTyped_sound) (auto elim!: typed_artifact_request simp: codec [OF e] c)
  then have "sig \<noteq> []" by (auto simp: go_simps)
  with * i c pub show ?thesis by (auto simp: res VerifyArtifact_ok_iff ArtifactID_Inr)
qed

text \<open>
  A generation signed through the socket verifies under the configured key, and every member
  of it carries an artifact that verifies under the same key.
\<close>

theorem SignGenerationWithSigner_socket_sound:
  assumes pub: "length pub = PublicKeySize"
    and codec: "\<And>x e. marshal_generation P x = Some e \<Longrightarrow> unmarshal_generation P e = Some x"
    and ok: "SignGenerationWithSigner P net now (Some g) (Some (SocketSigner addr pub)) = (None, res)"
  shows "\<exists>h. res = Some h \<and> VerifyGeneration P (Some h) pub = None \<and> gen_members h = gen_members g \<and>
           list_all (member_verifies P pub) (gen_members h) \<and> 0 < gen_seq h"
proof -
  from ok obtain c e sig where c: "generationCanonical P g = Some c"
    and e: "marshal_generation P g = Some e"
    and sig: "SocketSigner_SignTyped P net addr pub SignOperationAssetGeneration e = Inr sig"
    and res: "res = Some (g\<lparr>gen_signature := Some \<lparr>sig_key_id = KeyID P pub,
                 sig_bytes = sig, sig_signed_at = now\<rparr>\<rparr>)"
    by (auto simp: SignGenerationWithSigner_def sign_with_def signer_KeyID_def
             split: option.splits if_splits sum.splits)
  have *: "length sig = SignatureSize \<and> ed25519_verify P pub c sig \<and> list_all (member_verifies P pub) (gen_members g)
           \<and> 0 < gen_seq g"
    using sig
    by (rule SignTyped_sound) (auto elim!: typed_generation_request simp: codec [OF e] c)
  then have "sig \<noteq> []" by (auto simp: go_simps)
  with * c pub show ?thesis
    using generation_envelope.stamped_accepted [where P = P and m = g and c = c and L = P and pub = pub]
    by (auto simp: res VerifyGeneration_accepts)
qed

subsection \<open>The two ends of the socket together\<close>

definition fits_frame :: "bytes \<Rightarrow> bool" where
  "fits_frame raw \<longleftrightarrow> 0 < length raw \<and> length raw \<le> signingMessageLimit"

lemma fits_frame_write: "fits_frame raw \<Longrightarrow> \<exists>f. writeSigningFrame raw = Inr f \<and> readSigningFrame f = Inr raw"
  using read_write_frame_only [of raw] by (simp add: fits_frame_def writeSigningFrame_def)

lemma write_response_fits:
  assumes "encode_response P r = Some raw" and "fits_frame raw"
  shows "\<exists>f. writeSigningResponse P r = Some f \<and> readSigningFrame f = Inr raw"
  using assms fits_frame_write [OF assms(2)] by (auto simp: writeSigningResponse_def)

text \<open>One exchange of the client with the memory signer's server.\<close>

lemma SignTyped_served:
  assumes laws: "ed25519_laws P" and key: "length key = PrivateKeySize"
    and request: "canonicalTypedSigningRequest P (typed_request op e) (public_key P key) = Inr c"
    and c: "c \<noteq> []" and e: "fits_frame e"
    and req: "encode_request P (typed_request op e) = Some raw" "fits_frame raw"
             "decode_request P raw = Some (typed_request op e)"
    and resp: "encode_response P \<lparr>resp_signature = ed25519_sign P key c, resp_error = []\<rparr> = Some rraw"
              "fits_frame rraw"
              "decode_response P rraw = Some \<lparr>resp_signature = ed25519_sign P key c, resp_error = []\<rparr>"
  shows "SocketSigner_SignTyped P (\<lambda>addr. serve_signing_connection P True (MemorySigner key False)) addr
           (public_key P key) op e = Inr (ed25519_sign P key c)"
proof -
  obtain f where f: "writeSigningFrame raw = Inr f" "readSigningFrame f = Inr raw"
    using fits_frame_write [OF req(2)] by blast
  obtain g where g: "writeSigningResponse P \<lparr>resp_signature = ed25519_sign P key c, resp_error = []\<rparr> = Some g"
      "readSigningFrame g = Inr rraw"
    using write_response_fits [OF resp(1,2)] by blast
  have served: "serve_signing_connection P True (MemorySigner key False) f = Some g"
    using f req request c g by (simp add: serve_signing_connection_def)
  show ?thesis
    using e request req f served g resp ed25519_lawsD [OF laws key]
    by (simp add: SocketSigner_SignTyped_def fits_frame_def typed_request_def)
qed

text \<open>What the signing service accepts as an artifact: complete and carrying its own address.\<close>

definition complete_envelope :: "artifact \<Rightarrow> bool" where
  "complete_envelope a \<longleftrightarrow> art_kind a \<noteq> KIND_UNSPECIFIED \<and> art_payload a \<noteq> [] \<and>
     art_payload_schema a \<noteq> [] \<and> art_signature a = None"

definition served_signature :: "'a golib_scheme \<Rightarrow> bytes \<Rightarrow> bytes \<Rightarrow> signing_response" where
  "served_signature P key c = \<lparr>resp_signature = ed25519_sign P key c, resp_error = []\<rparr>"

lemma typed_artifact_accepted:
  assumes "complete_envelope a" and "ArtifactID P (Some a) = Inr i" and "canonicalBytes P a = Some c"
    and "unmarshal_artifact P e = Some (a\<lparr>art_id := i\<rparr>)" and "fits_frame e"
  shows "canonicalTypedSigningRequest P (typed_request SignOperationArtifact e) pub = Inr c"
proof -
  from assms(2) have "i \<noteq> []" by (auto simp: ArtifactID_Inr)
  with assms show ?thesis
    by (simp add: canonicalTypedSigningRequest_def typed_request_def fits_frame_def complete_envelope_def)
qed

text \<open>
  C31: with the memory signer behind the socket and codecs that round-trip within the frame limit,
  the production path signs every complete, unsigned artifact whose id is empty or correct: the
  call returns no error and the artifact verifies under the service's public key.
\<close>

theorem socket_signing_succeeds:
  assumes laws: "ed25519_laws P" and key: "length key = PrivateKeySize"
    and a: "complete_envelope a" "canonicalBytes P a = Some c" "c \<noteq> []"
    and ident: "ArtifactID P (Some a) = Inr i" "art_id a = [] \<or> art_id a = i"
    and env: "marshal_artifact P (a\<lparr>art_id := i\<rparr>) = Some e" "fits_frame e"
             "unmarshal_artifact P e = Some (a\<lparr>art_id := i\<rparr>)"
    and req: "encode_request P (typed_request SignOperationArtifact e) = Some raw" "fits_frame raw"
             "decode_request P raw = Some (typed_request SignOperationArtifact e)"
    and resp: "encode_response P (served_signature P key c) = Some rraw" "fits_frame rraw"
              "decode_response P rraw = Some (served_signature P key c)"
  shows "\<exists>b. SignArtifactWithSigner P (\<lambda>addr. serve_signing_connection P True (MemorySigner key False)) now
               (Some a) (Some (SocketSigner addr (public_key P key))) = (None, Some b) \<and>
             VerifyArtifact P (Some b) (public_key P key) = None"
proof -
  let ?net = "\<lambda>addr. serve_signing_connection P True (MemorySigner key False)"
  have signed: "SocketSigner_SignTyped P ?net addr (public_key P key) SignOperationArtifact e =
                  Inr (ed25519_sign P key c)"
    using typed_artifact_accepted [OF a(1) ident(1) a(2) env(3,2)] resp
    by (intro SignTyped_served [OF laws key _ a(3) env(2) req]) (auto simp: served_signature_def)
  have id: "(if art_id a = [] then a\<lparr>art_id := i\<rparr> else a) = a\<lparr>art_id := i\<rparr>"
    using ident(2) by (cases a) auto
  from a(1) have "art_signature a = None" by (simp add: complete_envelope_def)
  then have "SignArtifactWithSigner P ?net now (Some a) (Some (SocketSigner addr (public_key P key))) =
     (None, Some (a\<lparr>art_id := i, art_signature := Some \<lparr>sig_key_id = KeyID P (public_key P key),
        sig_bytes = ed25519_sign P key c, sig_signed_at = now\<rparr>\<rparr>))"
    using ident a(2) env(1) signed
    by (simp add: SignArtifactWithSigner_def id sign_with_def signer_KeyID_def)
  moreover have "i = ''sha256:'' @ hex_encode (sha256 P c)"
    using ident(1) a(2) by (simp add: ArtifactID_Inr)
  ultimately show ?thesis
    using ed25519_lawsD [OF laws key] a(2) by (simp add: VerifyArtifact_ok_iff)
qed

lemma demo_complete: "complete_envelope demo_artifact"
  by (simp add: complete_envelope_def demo_artifact_def)

lemma demo_key_length: "length demo_key = PrivateKeySize"
  by (simp add: demo_key_def go_simps)

lemma demo_ident: "ArtifactID demo_signlib (Some demo_artifact) = Inr demo_id"
  by (simp add: ArtifactID_Inr demo_sign_canonical demo_id_def)

theorem socket_signing_succeeds_witness:
  "\<exists>b. SignArtifactWithSigner demo_signlib demo_net 7 (Some demo_artifact)
         (Some (SocketSigner ''/run/signer'' (replicate 32 (CHR ''k'')))) = (None, Some b) \<and>
       VerifyArtifact demo_signlib (Some b) (replicate 32 (CHR ''k'')) = None"
proof -
  have "\<exists>b. SignArtifactWithSigner demo_signlib
          (\<lambda>addr. serve_signing_connection demo_signlib True (MemorySigner demo_key False)) 7
          (Some demo_artifact) (Some (SocketSigner ''/run/signer'' (public_key demo_signlib demo_key))) =
          (None, Some b) \<and> VerifyArtifact demo_signlib (Some b) (public_key demo_signlib demo_key) = None"
    by (rule socket_signing_succeeds [OF demo_signlib_laws demo_key_length demo_complete
          demo_sign_canonical _ demo_ident, where e = "''B''" and raw = "''aB''"
          and rraw = "CHR ''s'' # replicate 32 (CHR ''k'') @ pad32 ''A''"])
       (simp_all add: demo_marshal_def demo_unmarshal_def fits_frame_def signingMessageLimit_def
          demo_encode_request_def typed_request_def served_signature_def demo_encode_response_def
          demo_key_def)
  then show ?thesis by (simp add: demo_net_def demo_key_def)
qed

text \<open>
  A key restricted to rollbacks signs nothing: a client of its server gets an error for every
  operation and envelope, provided responses survive the codec.
\<close>

theorem rollback_key_signs_nothing:
  assumes codec: "\<And>r raw. encode_response P r = Some raw \<Longrightarrow> decode_response P raw = Some r"
  shows "\<exists>err. SocketSigner_SignTyped P
           (\<lambda>addr. serve_signing_connection P uid (MemorySigner key True)) addr pub op e = Inl err"
proof (cases "SocketSigner_SignTyped P
           (\<lambda>addr. serve_signing_connection P uid (MemorySigner key True)) addr pub op e")
  case (Inr sig)
  let ?serve = "serve_signing_connection P uid (MemorySigner key True)"
  have refused: "\<exists>r f'. writeSigningResponse P r = Some f' \<and> f = f' \<and> resp_signature r = []"
    if "?serve req = Some f" for req f
    using that by (auto simp: serve_signing_connection_def split: if_splits sum.splits option.splits)
  from Inr obtain req f raw r where "?serve req = Some f" and raw: "readSigningFrame f = Inr raw"
    and r: "decode_response P raw = Some r" and len: "length (resp_signature r) = SignatureSize"
    by (auto simp: SocketSigner_SignTyped_def Let_def split: if_splits option.splits sum.splits)
  with refused obtain r' where "writeSigningResponse P r' = Some f" and empty: "resp_signature r' = []"
    by blast
  then obtain raw' where "encode_response P r' = Some raw'" and "writeSigningFrame raw' = Inr f"
    by (auto simp: writeSigningResponse_def split: option.splits sum.splits)
  with raw r codec have "r = r'" by (auto dest: read_write_frame_only)
  with len empty show ?thesis by (simp add: go_simps)
qed blast

theorem rollback_key_signs_nothing_witness:
  "\<exists>err. SocketSigner_SignTyped demo_signlib
     (\<lambda>addr. serve_signing_connection demo_signlib True (MemorySigner demo_key True)) ''/run/signer''
     (replicate 32 (CHR ''k'')) SignOperationArtifact ''B'' = Inl err"
  by (rule rollback_key_signs_nothing) (auto simp: demo_encode_response_def split: if_splits)


subsection \<open>Witnesses over the concrete library\<close>

lemma demo_key_public: "public_key demo_signlib demo_key = replicate 32 (CHR ''k'')"
  by (simp add: demo_key_def)

lemma demo_exchange:
  assumes "op = SignOperationArtifact \<or> op = SignOperationAssetGeneration"
    and "canonicalTypedSigningRequest demo_signlib (typed_request op e) (replicate 32 (CHR ''k'')) = Inr c"
    and "c \<noteq> []" and "0 < length e" and "length e < 100"
  shows "SocketSigner_SignTyped demo_signlib demo_net addr (replicate 32 (CHR ''k'')) op e =
           Inr (replicate 32 (CHR ''k'') @ pad32 c)"
proof -
  let ?t = "if op = SignOperationArtifact then CHR ''a'' else CHR ''g''"
  have "SocketSigner_SignTyped demo_signlib
      (\<lambda>addr. serve_signing_connection demo_signlib True (MemorySigner demo_key False)) addr
      (public_key demo_signlib demo_key) op e = Inr (ed25519_sign demo_signlib demo_key c)"
    by (rule SignTyped_served [OF demo_signlib_laws demo_key_length, where raw = "?t # e"
          and rraw = "CHR ''s'' # replicate 32 (CHR ''k'') @ pad32 c"])
       (use assms in \<open>auto simp: fits_frame_def signingMessageLimit_def demo_encode_request_def
          typed_request_def demo_encode_response_def demo_key_def sign_operations\<close>)
  then show ?thesis by (simp add: demo_net_def demo_key_def)
qed

lemma demo_socket_signed:
  "SignArtifactWithSigner demo_signlib demo_net 7 (Some demo_artifact)
     (Some (SocketSigner ''/run/signer'' (replicate 32 (CHR ''k'')))) =
   (None, Some (demo_signed_artifact (KeyID demo_signlib (replicate 32 (CHR ''k''))) 7))"
proof -
  have "canonicalTypedSigningRequest demo_signlib (typed_request SignOperationArtifact ''B'')
          (replicate 32 (CHR ''k'')) = Inr ''A''"
    by (rule typed_artifact_accepted [OF demo_complete demo_ident demo_sign_canonical])
       (simp_all add: demo_unmarshal_def fits_frame_def signingMessageLimit_def)
  then have "SocketSigner_SignTyped demo_signlib demo_net ''/run/signer'' (replicate 32 (CHR ''k''))
      SignOperationArtifact ''B'' = Inr (replicate 32 (CHR ''k'') @ pad32 ''A'')"
    by (intro demo_exchange) simp_all
  then show ?thesis
    by (simp add: SignArtifactWithSigner_def demo_ident demo_sign_canonical sign_with_def
          demo_marshal_def signer_KeyID_def demo_signed_artifact_def)
qed

theorem SignArtifactWithSigner_socket_sound_witness:
  "VerifyArtifact demo_signlib
     (Some (demo_signed_artifact (KeyID demo_signlib (replicate 32 (CHR ''k''))) 7))
     (replicate 32 (CHR ''k'')) = None"
  using SignArtifactWithSigner_socket_sound [OF _ demo_codec demo_socket_signed]
  by (simp add: go_simps)

lemma demo_generation_signed:
  "\<exists>h. SignGenerationWithSigner demo_signlib demo_net 7 (Some demo_generation)
     (Some (SocketSigner ''/run/signer'' (replicate 32 (CHR ''k'')))) = (None, Some h)"
proof -
  have fields: "gen_signature demo_generation = None" "gen_id demo_generation \<noteq> []"
      "gen_asset_id demo_generation \<noteq> []" "0 < gen_seq demo_generation"
      "demo_generation\<lparr>gen_signature := None\<rparr> = demo_generation"
    by (simp_all add: demo_generation_def)
  have "VerifyArtifact demo_signlib (Some (demo_signed_artifact [] 3)) (replicate 32 (CHR ''k'')) = None"
    using demo_sign_canonical
    by (simp add: VerifyArtifact_ok_iff demo_id_def go_simps demo_signed_artifact_def)
  then have members: "list_all (member_verifies demo_signlib (replicate 32 (CHR ''k''))) (gen_members demo_generation)"
    by (simp add: demo_generation_def member_verifies_def)
  have canonical: "generationCanonical demo_signlib demo_generation = Some ''G''"
    by (simp add: generationCanonical_def fields)
  have "canonicalTypedSigningRequest demo_signlib (typed_request SignOperationAssetGeneration ''G'')
          (replicate 32 (CHR ''k'')) = Inr ''G''"
    using fields members canonical
    by (simp add: canonicalTypedSigningRequest_def typed_request_def sign_operations signingMessageLimit_def)
  then have "SocketSigner_SignTyped demo_signlib demo_net ''/run/signer'' (replicate 32 (CHR ''k''))
      SignOperationAssetGeneration ''G'' = Inr (replicate 32 (CHR ''k'') @ pad32 ''G'')"
    by (intro demo_exchange) simp_all
  then show ?thesis
    using fields canonical by (simp add: SignGenerationWithSigner_def sign_with_def)
qed

theorem SignGenerationWithSigner_socket_sound_witness:
  "\<exists>h. SignGenerationWithSigner demo_signlib demo_net 7 (Some demo_generation)
     (Some (SocketSigner ''/run/signer'' (replicate 32 (CHR ''k'')))) = (None, Some h) \<and>
     VerifyGeneration demo_signlib (Some h) (replicate 32 (CHR ''k'')) = None"
proof -
  obtain h where h: "SignGenerationWithSigner demo_signlib demo_net 7 (Some demo_generation)
     (Some (SocketSigner ''/run/signer'' (replicate 32 (CHR ''k'')))) = (None, Some h)"
    using demo_generation_signed by blast
  have codec: "unmarshal_generation demo_signlib e = Some x"
    if "marshal_generation demo_signlib x = Some e" for x e
    using that by (simp split: if_splits)
  have "length (replicate 32 (CHR ''k'')) = PublicKeySize" by (simp add: go_simps)
  from SignGenerationWithSigner_socket_sound [OF this codec h] h show ?thesis by auto
qed

end
