(* ===== verification/Budgets.thy ===== *)
theory Budgets
  imports Prelude
begin

text \<open>
  The production budgets of \<^verbatim>\<open>src/lib/kernel/limits.go\<close> that the modelled components read, and
  the two functions of that file. Durations are nanoseconds, as in Go's \<open>time.Duration\<close>.
\<close>

definition Millisecond :: duration where "Millisecond = 1000000"
definition Second :: duration where "Second = 1000 * Millisecond"
definition Minute :: duration where "Minute = 60 * Second"
definition Hour :: duration where "Hour = 60 * Minute"

lemmas time_units [go_simps] = Millisecond_def Second_def Minute_def Hour_def

definition ShadowMinDuration :: duration where "ShadowMinDuration = 300 * Second"
definition ShadowMinRequests :: int where "ShadowMinRequests = 100"
definition CanaryPercentDefault :: int where "CanaryPercentDefault = 5"
definition CanaryPercentMin :: int where "CanaryPercentMin = 1"
definition CanaryPercentMax :: int where "CanaryPercentMax = 25"
definition ExtAuthzTimeout :: duration where "ExtAuthzTimeout = 50 * Millisecond"
definition ExtAuthzTimeoutRateWindow :: duration where "ExtAuthzTimeoutRateWindow = 10 * Second"
definition ExtAuthzTimeoutRateTrip :: real where "ExtAuthzTimeoutRateTrip = 5 / 100"
definition ExtAuthzTimeoutRateRecover :: real where "ExtAuthzTimeoutRateRecover = 1 / 100"
definition ExtAuthzTimeoutRateRecoverHold :: duration where "ExtAuthzTimeoutRateRecoverHold = 30 * Second"
definition ExtAuthzHalfOpenPerSec :: int where "ExtAuthzHalfOpenPerSec = 1"
definition EngineBodyLimitBytes :: nat where "EngineBodyLimitBytes = 64 * 1024"
definition ClockSkew :: duration where "ClockSkew = 60 * Second"
definition EvidenceRingTTL :: duration where "EvidenceRingTTL = 15 * Minute"
definition EvidenceRingMaxEntries :: nat where "EvidenceRingMaxEntries = 1024"
definition EvidenceRingMaxBytes :: nat where "EvidenceRingMaxBytes = 32 * 2 ^ 20"
definition TrafficReviewWindow :: duration where "TrafficReviewWindow = 5 * Minute"
definition TrafficReviewTopRoutes :: nat where "TrafficReviewTopRoutes = 32"
definition TrafficReviewCandidatesPerWindow :: nat where "TrafficReviewCandidatesPerWindow = 4"
definition TrafficReviewEvidenceBytes :: nat where "TrafficReviewEvidenceBytes = 8 * 2 ^ 10"
definition TrafficReviewVaultBytes :: nat where "TrafficReviewVaultBytes = 256 * 2 ^ 20"
definition TrafficReviewEvidenceTTL :: duration where "TrafficReviewEvidenceTTL = 24 * Hour"
definition EdgeTelemetrySpoolBytes :: nat where "EdgeTelemetrySpoolBytes = 64 * 1024 * 1024"
definition UploadBatchMax :: nat where "UploadBatchMax = 100"
definition ModelIngressAbsoluteMaxItems :: nat where "ModelIngressAbsoluteMaxItems = 65536"
definition ModelIngressAbsoluteMinBytes :: nat where "ModelIngressAbsoluteMinBytes = 2 ^ 20"
definition ModelIngressAbsoluteMaxBytes :: nat where "ModelIngressAbsoluteMaxBytes = 256 * 2 ^ 20"
definition ModelIngressAbsoluteMinAge :: duration where "ModelIngressAbsoluteMinAge = 10 * Millisecond"
definition ModelIngressAbsoluteMaxAge :: duration where "ModelIngressAbsoluteMaxAge = 5 * Minute"
definition ModelIngressDefaultItems :: nat where "ModelIngressDefaultItems = 4096"
definition ModelIngressDefaultBytes :: nat where "ModelIngressDefaultBytes = 128 * 2 ^ 20"
definition ModelIngressDefaultAge :: duration where "ModelIngressDefaultAge = 2 * Second"
definition ModelIngressLocalMaxItems :: nat where "ModelIngressLocalMaxItems = 16384"
definition ModelIngressLocalMaxBytes :: nat where "ModelIngressLocalMaxBytes = 256 * 2 ^ 20"
definition ModelIngressLocalMaxAge :: duration where "ModelIngressLocalMaxAge = 5 * Minute"
definition ModelIngressBatchMaxItems :: nat where "ModelIngressBatchMaxItems = 32"
definition ModelIngressBatchMaxBytes :: nat where "ModelIngressBatchMaxBytes = 4 * 2 ^ 20"
definition ModelIngressBatchWait :: duration where "ModelIngressBatchWait = 10 * Millisecond"
definition ChatCompleteTimeout :: duration where "ChatCompleteTimeout = 60 * Second"
definition IdempotencyPendingTTL :: duration where "IdempotencyPendingTTL = 120 * Second"

subsection \<open>Functions\<close>

datatype limits_error = LongPollInvalid | LongPollExceedsMax

text \<open>The product cannot overflow 64 bits: \<open>seconds\<close> is an \<open>int32\<close>.\<close>

definition ResolveLongPoll :: "int \<Rightarrow> duration \<Rightarrow> duration \<Rightarrow> limits_error + duration" where
  "ResolveLongPoll seconds dflt maxd =
     (if seconds < 0 then Inl LongPollInvalid
      else if seconds = 0 then Inr dflt
      else let wait = seconds * Second in
        if wait > maxd then Inl LongPollExceedsMax else Inr wait)"

text \<open>The sum and the division are \<open>int32\<close> operations.\<close>

definition CanaryMinUnits :: "int \<Rightarrow> int" where
  "CanaryMinUnits percent =
     (let percent = (if percent \<le> 0 then CanaryPercentDefault else percent) in
      to_int32 (go_div (to_int32 (to_int32 (100 + percent) - 1)) percent))"

lemma CanaryMinUnits_ceiling:
  assumes "1 \<le> p" and "p \<le> 2147483547"
  shows "CanaryMinUnits p = (100 + p - 1) div p"
proof -
  have "0 \<le> (99 + p) div p" and "(99 + p) div p \<le> 99 + p"
    using assms zdiv_mono2 [of "99 + p" 1 p] by (simp_all add: pos_imp_zdiv_nonneg_iff)
  then show ?thesis using assms
    by (simp add: CanaryMinUnits_def to_int32_id go_div_nonneg)
qed

text \<open>The rounded-up quotient is the least number of units whose share reaches one hundred.\<close>

lemma ceil_hundred_le_iff:
  fixes p u :: int
  assumes p: "1 \<le> p"
  shows "(99 + p) div p \<le> u \<longleftrightarrow> 100 \<le> u * p"
proof -
  define q r where "q = (99 + p) div p" and "r = (99 + p) mod p"
  have eq: "q * p + r = 99 + p" unfolding q_def r_def by (rule div_mult_mod_eq)
  have r: "0 \<le> r" "r < p" using p by (simp_all add: r_def)
  have "q \<le> u \<longleftrightarrow> 100 \<le> u * p"
  proof
    assume "q \<le> u"
    then have "q * p \<le> u * p" using p by (simp add: mult_right_mono)
    with eq r show "100 \<le> u * p" by linarith
  next
    assume le: "100 \<le> u * p"
    show "q \<le> u"
    proof (rule ccontr)
      assume "\<not> q \<le> u"
      then have "(u + 1) * p \<le> q * p" using p by (intro mult_right_mono) simp_all
      then have "u * p + p \<le> q * p" by (simp add: distrib_right)
      with eq r le show False by linarith
    qed
  qed
  then show ?thesis by (simp add: q_def)
qed

end
