(* ===== verification/Release.thy ===== *)
theory Release
  imports Signer Budgets
begin

text \<open>
  The release life cycle of \<^verbatim>\<open>src/lib/kernel/release.go\<close>: draft, signed, shadow, canary, enforce,
  retired. Each state is a type of its own; \<open>release\<close> is the common interface. Go clones the
  artifact at every transition, so records are passed by value here. A draft's envelope is never
  nil because \<open>NewDraft\<close> refuses a nil artifact.
\<close>

subsection \<open>States\<close>

record Draft =
  draft_ID :: string
  draft_Envelope :: artifact
  draft_CreatedBy :: string

record Signed =
  signed_ID :: string
  signed_Envelope :: artifact

record Shadow =
  shadow_ID :: string
  shadow_Envelope :: artifact

record Canary =
  canary_ID :: string
  canary_Envelope :: artifact
  canary_CanaryPercent :: int

record Enforce =
  enforce_ID :: string
  enforce_Envelope :: artifact

record Retired =
  retired_ID :: string
  retired_Envelope :: artifact
  retired_Reason :: retire_reason

datatype release =
    IsDraft Draft | IsSigned Signed | IsShadow Shadow | IsCanary Canary | IsEnforce Enforce
  | IsRetired Retired

fun ReleaseID :: "release \<Rightarrow> string" where
  "ReleaseID (IsDraft d) = draft_ID d"
| "ReleaseID (IsSigned s) = signed_ID s"
| "ReleaseID (IsShadow s) = shadow_ID s"
| "ReleaseID (IsCanary c) = canary_ID c"
| "ReleaseID (IsEnforce e) = enforce_ID e"
| "ReleaseID (IsRetired r) = retired_ID r"

fun State :: "release \<Rightarrow> release_state" where
  "State (IsDraft d) = RELEASE_STATE_DRAFT"
| "State (IsSigned s) = RELEASE_STATE_SIGNED"
| "State (IsShadow s) = RELEASE_STATE_SHADOW"
| "State (IsCanary c) = RELEASE_STATE_CANARY"
| "State (IsEnforce e) = RELEASE_STATE_ENFORCE"
| "State (IsRetired r) = RELEASE_STATE_RETIRED"

fun Artifact_of :: "release \<Rightarrow> artifact" where
  "Artifact_of (IsDraft d) = draft_Envelope d"
| "Artifact_of (IsSigned s) = signed_Envelope s"
| "Artifact_of (IsShadow s) = shadow_Envelope s"
| "Artifact_of (IsCanary c) = canary_Envelope c"
| "Artifact_of (IsEnforce e) = enforce_Envelope e"
| "Artifact_of (IsRetired r) = retired_Envelope r"

subsection \<open>Operations\<close>

datatype release_error =
    ReleaseIdEmpty
  | DraftArtifactNil
  | DraftSigned
  | DraftHasId
  | DraftHasReport
  | ReplayReportNil
  | SignGatedArtifact kernel_error
  | CanaryPercentOutOfRange int
  | UnknownRetireReason
  | NotActive string release_state

definition NewDraft :: "string \<Rightarrow> artifact option \<Rightarrow> string \<Rightarrow> release_error + Draft" where
  "NewDraft releaseID arg createdBy =
     (if releaseID = [] then Inl ReleaseIdEmpty
      else case arg of
        None \<Rightarrow> Inl DraftArtifactNil
      | Some a \<Rightarrow>
          if carries_signature (art_signature a) then Inl DraftSigned
          else if art_id a \<noteq> [] then Inl DraftHasId
          else if art_replay_report a \<noteq> None then Inl DraftHasReport
          else Inr \<lparr>draft_ID = releaseID, draft_Envelope = a, draft_CreatedBy = createdBy\<rparr>)"

definition GatePassed :: "replay_report \<Rightarrow> bool" where
  "GatePassed r \<longleftrightarrow> malicious_total r > 0 \<and> malicious_blocked r = malicious_total r \<and>
     benign_blocked r = 0 \<and> management_blocked r = 0"

record GateResult =
  gate_Passed :: bool
  gate_Draft :: "Draft option"
  gate_Signed :: "Signed option"
  gate_Report :: "replay_report option"

definition gate_envelope :: "instant \<Rightarrow> Draft \<Rightarrow> replay_report \<Rightarrow> artifact" where
  "gate_envelope now d report =
     (let e = (draft_Envelope d)\<lparr>art_replay_report := Some report, art_created_by := draft_CreatedBy d\<rparr>
      in if art_created_at e = None then e\<lparr>art_created_at := Some now\<rparr> else e)"

text \<open>
  \<open>Gate\<close> and \<open>GateWithSigner\<close> differ only in the call that signs; \<open>sign\<close> is that call on the gated
  envelope, with its error and the envelope it leaves.
\<close>

definition gate_with ::
  "(artifact \<Rightarrow> kernel_error option \<times> artifact option) \<Rightarrow> instant \<Rightarrow> Draft \<Rightarrow> replay_report option \<Rightarrow>
   GateResult \<times> release_error option" where
  "gate_with sign now d arg =
     (case arg of
        None \<Rightarrow> (\<lparr>gate_Passed = False, gate_Draft = None, gate_Signed = None, gate_Report = None\<rparr>,
                 Some ReplayReportNil)
      | Some report \<Rightarrow>
          (let res = \<lparr>gate_Passed = False, gate_Draft = None, gate_Signed = None, gate_Report = Some report\<rparr> in
           if \<not> (report_passed report \<and> GatePassed report) then
             (case NewDraft (draft_ID d) (Some (draft_Envelope d)) (draft_CreatedBy d) of
                Inl e \<Rightarrow> (res, Some e)
              | Inr draft \<Rightarrow>
                  (res\<lparr>gate_Draft := Some (draft\<lparr>draft_Envelope :=
                     (draft_Envelope draft)\<lparr>art_replay_report := Some report\<rparr>\<rparr>)\<rparr>, None))
           else
             (case sign (gate_envelope now d report) of
                (None, Some envelope) \<Rightarrow>
                  (res\<lparr>gate_Passed := True,
                       gate_Signed := Some \<lparr>signed_ID = draft_ID d, signed_Envelope = envelope\<rparr>\<rparr>, None)
              | (None, None) \<Rightarrow> (res, None)
              | (Some e, _) \<Rightarrow> (res, Some (SignGatedArtifact e)))))"

definition Gate ::
  "'a protolib_scheme \<Rightarrow> instant \<Rightarrow> Draft \<Rightarrow> replay_report option \<Rightarrow> bytes \<Rightarrow>
   GateResult \<times> release_error option" where
  "Gate P now d report key = gate_with (\<lambda>e. SignArtifact P now (Some e) key) now d report"

definition GateWithSigner ::
  "'a signlib_scheme \<Rightarrow> network \<Rightarrow> instant \<Rightarrow> Draft \<Rightarrow> replay_report option \<Rightarrow> signer option \<Rightarrow>
   GateResult \<times> release_error option" where
  "GateWithSigner P net now d report s =
     gate_with (\<lambda>e. SignArtifactWithSigner P net now (Some e) s) now d report"

definition StartShadow :: "Signed \<Rightarrow> Shadow" where
  "StartShadow s = \<lparr>shadow_ID = signed_ID s, shadow_Envelope = signed_Envelope s\<rparr>"

definition PromoteCanary :: "Shadow \<Rightarrow> int \<Rightarrow> release_error + Canary" where
  "PromoteCanary s percent =
     (if percent < CanaryPercentMin \<or> percent > CanaryPercentMax then Inl (CanaryPercentOutOfRange percent)
      else Inr \<lparr>canary_ID = shadow_ID s, canary_Envelope = shadow_Envelope s, canary_CanaryPercent = percent\<rparr>)"

definition Shadow_PromoteEnforce :: "Shadow \<Rightarrow> Enforce" where
  "Shadow_PromoteEnforce s = \<lparr>enforce_ID = shadow_ID s, enforce_Envelope = shadow_Envelope s\<rparr>"

definition Canary_PromoteEnforce :: "Canary \<Rightarrow> Enforce" where
  "Canary_PromoteEnforce c = \<lparr>enforce_ID = canary_ID c, enforce_Envelope = canary_Envelope c\<rparr>"

definition RetireActive :: "release \<Rightarrow> retire_reason \<Rightarrow> release_error + Retired" where
  "RetireActive active reason =
     (if reason \<in> {RETIRE_REASON_ROLLBACK, RETIRE_REASON_MANUAL, RETIRE_REASON_TTL, RETIRE_REASON_SUPERSEDED}
      then Inr \<lparr>retired_ID = ReleaseID active, retired_Envelope = Artifact_of active, retired_Reason = reason\<rparr>
      else Inl UnknownRetireReason)"

definition ActiveOf :: "release \<Rightarrow> release_error + release" where
  "ActiveOf r =
     (if State r \<in> {RELEASE_STATE_SHADOW, RELEASE_STATE_CANARY, RELEASE_STATE_ENFORCE} then Inr r
      else Inl (NotActive (ReleaseID r) (State r)))"

subsection \<open>The life cycle as a step relation\<close>

text \<open>
  One successful call of the interface. Retirement goes through \<open>ActiveOf\<close>, as the governance
  code calls it. The gate uses any signing call \<open>sign\<close>.
\<close>

inductive lifecycle ::
  "(artifact \<Rightarrow> kernel_error option \<times> artifact option) \<Rightarrow> release \<Rightarrow> release \<Rightarrow> bool"
  for sign where
  gate_pass: "gate_with sign now d report = (res, None) \<Longrightarrow> gate_Signed res = Some s \<Longrightarrow>
     lifecycle sign (IsDraft d) (IsSigned s)"
| gate_fail: "gate_with sign now d report = (res, None) \<Longrightarrow> gate_Draft res = Some d' \<Longrightarrow>
     lifecycle sign (IsDraft d) (IsDraft d')"
| start_shadow: "lifecycle sign (IsSigned s) (IsShadow (StartShadow s))"
| promote_canary: "PromoteCanary sh percent = Inr c \<Longrightarrow> lifecycle sign (IsShadow sh) (IsCanary c)"
| shadow_enforce: "lifecycle sign (IsShadow sh) (IsEnforce (Shadow_PromoteEnforce sh))"
| canary_enforce: "lifecycle sign (IsCanary c) (IsEnforce (Canary_PromoteEnforce c))"
| retire: "ActiveOf r = Inr active \<Longrightarrow> RetireActive active reason = Inr ret \<Longrightarrow>
     lifecycle sign r (IsRetired ret)"

inductive_simps lifecycle_from_retired: "lifecycle sign (IsRetired r) r'"
inductive_simps lifecycle_from_signed: "lifecycle sign (IsSigned s) r'"
inductive_cases lifecycle_from_draft: "lifecycle sign (IsDraft d) r'"
inductive_cases lifecycle_to_enforce: "lifecycle sign r (IsEnforce e)"

subsection \<open>Invariants of the life cycle\<close>

text \<open>Calls left before the end: a failed gate marks the draft with a report, so it fails once.\<close>

fun calls_left :: "release \<Rightarrow> nat" where
  "calls_left (IsDraft d) = (if art_replay_report (draft_Envelope d) = None then 6 else 5)"
| "calls_left (IsSigned s) = 4"
| "calls_left (IsShadow s) = 3"
| "calls_left (IsCanary c) = 2"
| "calls_left (IsEnforce e) = 1"
| "calls_left (IsRetired r) = 0"

lemma gate_with_failed:
  assumes "gate_with sign now d report = (res, None)" and "gate_Draft res = Some d'"
  shows "\<exists>rep. report = Some rep \<and> \<not> (report_passed rep \<and> GatePassed rep) \<and>
           art_replay_report (draft_Envelope d) = None \<and>
           d' = d\<lparr>draft_Envelope := (draft_Envelope d)\<lparr>art_replay_report := Some rep\<rparr>\<rparr>"
  using assms
  by (auto simp: gate_with_def NewDraft_def Let_def split: option.splits if_splits prod.splits)

lemma gate_with_passed:
  assumes "gate_with sign now d report = (res, None)" and "gate_Signed res = Some s"
  shows "\<exists>rep. report = Some rep \<and> report_passed rep \<and> GatePassed rep \<and> gate_Passed res \<and>
           sign (gate_envelope now d rep) = (None, Some (signed_Envelope s)) \<and> signed_ID s = draft_ID d"
  using assms
  by (auto simp: gate_with_def Let_def split: option.splits if_splits prod.splits sum.splits)

lemma gate_envelope_report [simp]: "art_replay_report (gate_envelope now d rep) = Some rep"
  by (simp add: gate_envelope_def Let_def)

lemma lifecycle_decreases: "lifecycle sign r r' \<Longrightarrow> calls_left r' < calls_left r"
proof (induction rule: lifecycle.induct)
  case (gate_fail now d report res d')
  then show ?case using gate_with_failed by fastforce
next
  case (retire r active reason ret)
  then show ?case by (cases r) (auto simp: ActiveOf_def)
qed simp_all

lemma lifecycle_keeps_id: "lifecycle sign r r' \<Longrightarrow> ReleaseID r' = ReleaseID r"
proof (induction rule: lifecycle.induct)
  case (gate_pass now d report res s)
  then show ?case using gate_with_passed by fastforce
next
  case (gate_fail now d report res d')
  then show ?case using gate_with_failed by fastforce
qed (auto simp: StartShadow_def PromoteCanary_def Shadow_PromoteEnforce_def Canary_PromoteEnforce_def
       RetireActive_def ActiveOf_def split: if_splits)

lemma lifecycle_keeps_artifact:
  "lifecycle sign r r' \<Longrightarrow> State r \<noteq> RELEASE_STATE_DRAFT \<Longrightarrow> Artifact_of r' = Artifact_of r"
  by (induction rule: lifecycle.induct)
    (auto simp: StartShadow_def PromoteCanary_def Shadow_PromoteEnforce_def Canary_PromoteEnforce_def
       RetireActive_def ActiveOf_def split: if_splits)

text \<open>What a signing call owes the gate: the result verifies and keeps the replay report.\<close>

definition gate_signer_sound ::
  "'a protolib_scheme \<Rightarrow> bytes \<Rightarrow> (artifact \<Rightarrow> kernel_error option \<times> artifact option) \<Rightarrow> bool" where
  "gate_signer_sound P pub sign \<longleftrightarrow>
     (\<forall>e b. sign e = (None, Some b) \<longrightarrow>
        VerifyArtifact P (Some b) pub = None \<and> art_replay_report b = art_replay_report e)"

definition gated :: "'a protolib_scheme \<Rightarrow> bytes \<Rightarrow> release \<Rightarrow> bool" where
  "gated P pub r \<longleftrightarrow> State r \<noteq> RELEASE_STATE_DRAFT \<longrightarrow>
     VerifyArtifact P (Some (Artifact_of r)) pub = None \<and>
     (\<exists>rep. art_replay_report (Artifact_of r) = Some rep \<and> report_passed rep \<and> GatePassed rep)"

lemma lifecycle_gated:
  assumes sound: "gate_signer_sound P pub sign"
  shows "lifecycle sign r r' \<Longrightarrow> gated P pub r \<Longrightarrow> gated P pub r'"
proof (induction rule: lifecycle.induct)
  case (gate_pass now d report res s)
  then show ?case
    using gate_with_passed [OF gate_pass(1,2)] sound by (auto simp: gate_signer_sound_def gated_def)
qed (auto simp: gated_def StartShadow_def PromoteCanary_def Shadow_PromoteEnforce_def
       Canary_PromoteEnforce_def RetireActive_def ActiveOf_def split: if_splits)

lemma lifecycle_run_gated:
  assumes "gate_signer_sound P pub sign" and "(lifecycle sign)\<^sup>*\<^sup>* (IsDraft d) r"
  shows "gated P pub r \<and> ReleaseID r = draft_ID d"
  using assms(2)
proof (induction rule: rtranclp_induct)
  case base
  then show ?case by (simp add: gated_def)
next
  case (step r r')
  then show ?case using lifecycle_gated [OF assms(1)] lifecycle_keeps_id by metis
qed

lemma SignArtifact_gate_sound:
  assumes "ed25519_laws P"
  shows "gate_signer_sound P (public_key P key) (\<lambda>e. SignArtifact P now (Some e) key)"
  unfolding gate_signer_sound_def
proof (intro allI impI)
  fix e b
  assume "SignArtifact P now (Some e) key = (None, Some b)"
  then show "VerifyArtifact P (Some b) (public_key P key) = None \<and> art_replay_report b = art_replay_report e"
    using assms by (elim SignArtifact_ok) (auto simp: VerifyArtifact_ok_iff dest: ed25519_lawsD)
qed

subsection \<open>A concrete run\<close>

definition demo_report :: replay_report where
  "demo_report = \<lparr>malicious_total = 3, malicious_blocked = 3, benign_total = 5, benign_blocked = 0,
     report_passed = True, corpus_ref = [], management_total = 1, management_blocked = 0\<rparr>"

definition demo_draft :: Draft where
  "demo_draft = \<lparr>draft_ID = ''r1'', draft_Envelope = demo_artifact, draft_CreatedBy = ''op''\<rparr>"

definition gate_lib :: protolib where
  "gate_lib = demo_protolib\<lparr>marshal_artifact :=
     \<lambda>a. if a = gate_envelope 0 demo_draft demo_report then Some ''E'' else None\<rparr>"

definition demo_gated :: Signed where
  "demo_gated = \<lparr>signed_ID = ''r1'', signed_Envelope = (gate_envelope 0 demo_draft demo_report)
     \<lparr>art_id := ''sha256:'' @ hex_encode (pad32 ''E''),
      art_signature := Some \<lparr>sig_key_id = keyID gate_lib demo_key,
        sig_bytes = ed25519_sign gate_lib demo_key ''E'', sig_signed_at = 0\<rparr>\<rparr>\<rparr>"

lemma gate_lib_laws: "ed25519_laws gate_lib"
  by (simp add: ed25519_laws_def go_simps gate_lib_def)

lemma demo_gate_envelope [simp]:
  "art_id (gate_envelope 0 demo_draft demo_report) = []"
  "art_signature (gate_envelope 0 demo_draft demo_report) = None"
  "(gate_envelope 0 demo_draft demo_report)\<lparr>art_id := [], art_signature := None\<rparr> =
     gate_envelope 0 demo_draft demo_report"
  by (simp_all add: gate_envelope_def demo_draft_def demo_artifact_def)

lemma demo_gate_canonical:
  "canonicalBytes gate_lib (gate_envelope 0 demo_draft demo_report) = Some ''E''"
  unfolding canonicalBytes_def demo_gate_envelope(3) by (simp add: gate_lib_def)

lemma demo_gate_step:
  "lifecycle (\<lambda>e. SignArtifact gate_lib 0 (Some e) demo_key) (IsDraft demo_draft) (IsSigned demo_gated)"
proof (rule lifecycle.gate_pass)
  have "SignArtifact gate_lib 0 (Some (gate_envelope 0 demo_draft demo_report)) demo_key =
          (None, Some (signed_Envelope demo_gated))"
    using demo_gate_canonical
    by (simp add: SignArtifact_def ArtifactID_def demo_gated_def go_simps demo_key_def)
       (simp add: gate_lib_def)
  then show "gate_with (\<lambda>e. SignArtifact gate_lib 0 (Some e) demo_key) 0 demo_draft (Some demo_report) =
     (\<lparr>gate_Passed = True, gate_Draft = None, gate_Signed = Some demo_gated, gate_Report = Some demo_report\<rparr>, None)"
    by (simp add: gate_with_def GatePassed_def demo_report_def demo_draft_def demo_gated_def)
qed simp

subsection \<open>Properties\<close>

text \<open>
  C7: no release leaves the draft state without passing the gate. Whatever calls succeed on a new
  draft, a release that is no longer a draft carries an artifact that verifies under the signing
  key and a replay report with at least one malicious sample, all of them blocked, and no benign
  or management sample blocked; it keeps the draft's release id.
\<close>

theorem released_only_after_gate:
  assumes laws: "ed25519_laws P"
    and draft: "NewDraft rid (Some a) author = Inr d"
    and run: "(lifecycle (\<lambda>e. SignArtifact P now (Some e) key))\<^sup>*\<^sup>* (IsDraft d) r"
    and left: "State r \<noteq> RELEASE_STATE_DRAFT"
  shows "VerifyArtifact P (Some (Artifact_of r)) (public_key P key) = None \<and> ReleaseID r = rid \<and>
         (\<exists>rep. art_replay_report (Artifact_of r) = Some rep \<and> 0 < malicious_total rep \<and>
            malicious_blocked rep = malicious_total rep \<and> benign_blocked rep = 0 \<and>
            management_blocked rep = 0)"
proof -
  from draft have "draft_ID d = rid"
    by (auto simp: NewDraft_def split: if_splits)
  with lifecycle_run_gated [OF SignArtifact_gate_sound [OF laws] run] left show ?thesis
    by (auto simp: gated_def GatePassed_def)
qed

theorem released_only_after_gate_witness:
  "VerifyArtifact gate_lib (Some (Artifact_of (IsShadow (StartShadow demo_gated))))
     (public_key gate_lib demo_key) = None"
proof -
  have "NewDraft ''r1'' (Some demo_artifact) ''op'' = Inr demo_draft"
    by (simp add: NewDraft_def demo_draft_def) (simp add: demo_artifact_def)
  moreover have "(lifecycle (\<lambda>e. SignArtifact gate_lib 0 (Some e) demo_key))\<^sup>*\<^sup>* (IsDraft demo_draft)
     (IsShadow (StartShadow demo_gated))"
    using demo_gate_step lifecycle.start_shadow by (meson rtranclp.simps)
  ultimately show ?thesis
    using released_only_after_gate [OF gate_lib_laws] by force
qed

text \<open>
  The life cycle ends. At most six calls can succeed on one release, every release that is not
  a draft keeps its artifact through each of them, and a retired release admits none.
\<close>

theorem lifecycle_terminates:
  assumes "(lifecycle sign ^^ n) r r'"
  shows "n \<le> 6 \<and> n + calls_left r' \<le> calls_left r \<and>
         (State r \<noteq> RELEASE_STATE_DRAFT \<longrightarrow> Artifact_of r' = Artifact_of r) \<and>
         (State r = RELEASE_STATE_RETIRED \<longrightarrow> n = 0)"
proof -
  have "n + calls_left r' \<le> calls_left r \<and>
        (State r \<noteq> RELEASE_STATE_DRAFT \<longrightarrow> Artifact_of r' = Artifact_of r \<and> State r' \<noteq> RELEASE_STATE_DRAFT)"
    using assms
  proof (induction n arbitrary: r')
    case 0
    then show ?case by simp
  next
    case (Suc n)
    then obtain q where "(lifecycle sign ^^ n) r q" and step: "lifecycle sign q r'" by auto
    with Suc.IH [of q] lifecycle_decreases [OF step] lifecycle_keeps_artifact [OF step]
    show ?case by (cases q; cases r') (auto elim: lifecycle.cases)
  qed
  moreover have "calls_left r \<le> 6" by (cases r) auto
  ultimately show ?thesis by (cases r) auto
qed

theorem lifecycle_terminates_witness:
  "Artifact_of (IsEnforce (Shadow_PromoteEnforce (StartShadow demo_gated))) = signed_Envelope demo_gated"
proof -
  let ?sign = "\<lambda>e. SignArtifact gate_lib 0 (Some e) demo_key"
  have "(lifecycle ?sign ^^ Suc (Suc 0)) (IsSigned demo_gated)
          (IsEnforce (Shadow_PromoteEnforce (StartShadow demo_gated)))"
    using lifecycle.start_shadow [of ?sign] lifecycle.shadow_enforce [of ?sign] by auto
  from lifecycle_terminates [OF this] show ?thesis by simp
qed

text \<open>
  Retirement through \<open>ActiveOf\<close> succeeds exactly for a shadow, canary or enforced release and one
  of the four reasons rollback, manual, TTL and superseded (a hard expiry is refused), and keeps
  id and artifact. The state check is \<open>ActiveOf\<close>'s alone: \<open>RetireActive\<close> itself accepts every
  state, a draft included.
\<close>

theorem retirement_guard:
  "((\<exists>active. ActiveOf r = Inr active \<and> RetireActive active reason = Inr ret) \<longleftrightarrow>
      State r \<in> {RELEASE_STATE_SHADOW, RELEASE_STATE_CANARY, RELEASE_STATE_ENFORCE} \<and>
      reason \<in> {RETIRE_REASON_ROLLBACK, RETIRE_REASON_MANUAL, RETIRE_REASON_TTL, RETIRE_REASON_SUPERSEDED} \<and>
      ret = \<lparr>retired_ID = ReleaseID r, retired_Envelope = Artifact_of r, retired_Reason = reason\<rparr>) \<and>
   RetireActive (IsDraft d) RETIRE_REASON_MANUAL =
      Inr \<lparr>retired_ID = draft_ID d, retired_Envelope = draft_Envelope d, retired_Reason = RETIRE_REASON_MANUAL\<rparr>"
  by (auto simp: ActiveOf_def RetireActive_def)

end
