(* ===== verification/Canonical.thy ===== *)
theory Canonical
  imports Artifact Budgets "HOL-Library.AList"
begin

text \<open>
  The canonical request view (\<^verbatim>\<open>src/lib/edgecore/canonical.go\<close>): percent decoding, path
  normalisation, duplicate folding, body limits and coverage. A Go map is an association list with
  distinct keys, in the order a range over it visits them.
\<close>

subsection \<open>Percent decoding (package net/url)\<close>

definition isHex :: "char \<Rightarrow> bool" where
  "isHex b \<longleftrightarrow> (48 \<le> (of_char b :: nat) \<and> (of_char b :: nat) \<le> 57)
            \<or> (97 \<le> (of_char b :: nat) \<and> (of_char b :: nat) \<le> 102)
            \<or> (65 \<le> (of_char b :: nat) \<and> (of_char b :: nat) \<le> 70)"

definition unhex :: "char \<Rightarrow> nat" where
  "unhex b = (let n = of_char b in if n \<le> 57 then n - 48 else if n \<le> 70 then n - 55 else n - 87)"

text \<open>\<open>unescape query s\<close>: with \<open>query\<close> a plus sign decodes to a blank (query components).\<close>

fun unescape :: "bool \<Rightarrow> string \<Rightarrow> string option" where
  "unescape query [] = Some []"
| "unescape query (c # s) =
     (if c = CHR ''%'' then
        (case s of
           h # l # rest \<Rightarrow>
             if isHex h \<and> isHex l then
               map_option (\<lambda>t. char_of (unhex h * 16 + unhex l) # t) (unescape query rest)
             else None
         | _ \<Rightarrow> None)
      else map_option (\<lambda>t. (if query \<and> c = CHR ''+'' then CHR '' '' else c) # t) (unescape query s))"

definition PathUnescape :: "string \<Rightarrow> string option" where
  "PathUnescape = unescape False"

definition QueryUnescape :: "string \<Rightarrow> string option" where
  "QueryUnescape = unescape True"

type_synonym url_values = "(string \<times> string list) list"

definition values_add :: "string \<Rightarrow> string \<Rightarrow> url_values \<Rightarrow> url_values" where
  "values_add k v m = AList.update k ((case map_of m k of None \<Rightarrow> [] | Some vs \<Rightarrow> vs) @ [v]) m"

text \<open>\<open>url.ParseQuery\<close>: the values collected and whether an error was recorded.\<close>

definition parse_pair :: "url_values \<times> bool \<Rightarrow> string \<Rightarrow> url_values \<times> bool" where
  "parse_pair acc pair =
     (let (m, err) = acc in
      if contains pair '';'' then (m, True)
      else if pair = [] then (m, err)
      else let (k, v, _) = cut (CHR ''='') pair in
        (case QueryUnescape k of
           None \<Rightarrow> (m, True)
         | Some k' \<Rightarrow>
             (case QueryUnescape v of
                None \<Rightarrow> (m, True)
              | Some v' \<Rightarrow> (values_add k' v' m, err))))"

definition ParseQuery :: "string \<Rightarrow> url_values \<times> bool" where
  "ParseQuery raw = foldl parse_pair ([], False) (split_on (CHR ''&'') raw)"

subsection \<open>Inspection profile and view\<close>

record inspection_profile =
  NormalizePath :: bool
  PercentDecodeRounds :: int
  EncodedSlash :: string
  DuplicateQuery :: string
  DuplicateHeader :: string
  ClTeConflict :: string
  JsonDuplicateKey :: string
  MultipartMaxParts :: int
  MultipartMaxPartBytes :: int
  DecompressMaxBytes :: int
  MaxHeaders :: int
  MaxParams :: int
  JsonMaxDepth :: int
  ProfileBodyLimitBytes :: int
  DecompressAlgorithms :: "string list"

definition DefaultInspectionProfile :: inspection_profile where
  "DefaultInspectionProfile = \<lparr>NormalizePath = True, PercentDecodeRounds = 2,
     EncodedSlash = ''reject'', DuplicateQuery = ''first'', DuplicateHeader = ''first'',
     ClTeConflict = ''reject'', JsonDuplicateKey = ''reject'', MultipartMaxParts = 16,
     MultipartMaxPartBytes = int EngineBodyLimitBytes, DecompressMaxBytes = int EngineBodyLimitBytes,
     MaxHeaders = 64, MaxParams = 128, JsonMaxDepth = 8,
     ProfileBodyLimitBytes = int EngineBodyLimitBytes, DecompressAlgorithms = []\<rparr>"

record Coverage =
  cov_Target :: inspection_surface
  cov_Status :: coverage_status
  cov_Inspected :: int
  cov_Total :: int

record CanonicalView =
  view_Method :: string
  view_Path :: string
  view_Query :: url_values
  view_Headers :: "(string \<times> string list) list"
  view_Body :: bytes
  view_Host :: string
  view_Rejected :: bool
  view_Coverage :: "Coverage list"
  view_ProfileDigest :: string

text \<open>
  The decompressors, the MIME parser and the JSON token stream of the standard library, as their
  results on a whole input: the bytes a decompressor yields until it stops and whether it stopped
  with an error whose message does not mention EOF or failed to close; the parts of a multipart body up to EOF or a
  parse error; the keys of a top-level JSON object in the order the token stream delivers them
  before it ends or fails.
\<close>

record decompressed =
  dec_bytes :: bytes
  dec_read_error :: bool
  dec_close_error :: bool

datatype multipart_event = Part (part_bytes: bytes) (part_error: bool) | PartFailure

record inspectlib = protolib +
  marshal_profile :: "inspection_profile \<Rightarrow> bytes option"
  gzip_reader :: "bytes \<Rightarrow> decompressed option"
  zlib_reader :: "bytes \<Rightarrow> decompressed option"
  mime_boundary :: "string \<Rightarrow> string option"
  multipart_events :: "string \<Rightarrow> bytes \<Rightarrow> multipart_event list"
  json_object_keys :: "bytes \<Rightarrow> string list"

definition inspectionProfileDigest :: "'a inspectlib_scheme \<Rightarrow> inspection_profile \<Rightarrow> string" where
  "inspectionProfileDigest P profile =
     (case marshal_profile P profile of None \<Rightarrow> [] | Some raw \<Rightarrow> hex_encode (sha256 P raw))"

subsection \<open>Path\<close>

definition push_segment :: "string list \<Rightarrow> string \<Rightarrow> string list" where
  "push_segment out part =
     (if part = [] \<or> part = ''.'' then out
      else if part = ''..'' then (if out \<noteq> [] then butlast out else out)
      else out @ [part])"

definition normalizePath :: "string \<Rightarrow> string" where
  "normalizePath p =
     (if p = [] then ''/''
      else ''/'' @ join_with ''/'' (foldl push_segment [] (split_on (CHR ''/'') p)))"

definition hasEncodedSlash :: "string \<Rightarrow> bool" where
  "hasEncodedSlash path \<longleftrightarrow> contains (to_lower path) ''%2f''"

fun decode_path :: "inspection_profile \<Rightarrow> nat \<Rightarrow> string \<Rightarrow> bool \<Rightarrow> string \<times> bool" where
  "decode_path profile 0 path rejected = (path, rejected)"
| "decode_path profile (Suc n) path rejected =
     (let rejected = (rejected \<or> (hasEncodedSlash path \<and> EncodedSlash profile = ''reject'')) in
      case PathUnescape path of
        None \<Rightarrow> (path, True)
      | Some decoded \<Rightarrow>
          if decoded = path then (path, rejected) else decode_path profile n decoded rejected)"

subsection \<open>Query\<close>

fun malformedQuery :: "string \<Rightarrow> bool" where
  "malformedQuery [] \<longleftrightarrow> False"
| "malformedQuery (c # s) \<longleftrightarrow>
     (if c \<noteq> CHR ''%'' then malformedQuery s
      else (case s of h # l # _ \<Rightarrow> \<not> isHex h \<or> \<not> isHex l | _ \<Rightarrow> True) \<or> malformedQuery s)"

definition fold_duplicates :: "string \<Rightarrow> url_values \<Rightarrow> url_values" where
  "fold_duplicates mode q =
     (if mode = ''first'' then
        map (\<lambda>(k, vs). (k, [hd vs])) (filter (\<lambda>(k, vs). vs \<noteq> []) q)
      else if mode = ''last'' then
        map (\<lambda>(k, vs). (k, [last vs])) (filter (\<lambda>(k, vs). vs \<noteq> []) q)
      else q)"

fun decode_value :: "nat \<Rightarrow> string \<Rightarrow> string" where
  "decode_value 0 cur = cur"
| "decode_value (Suc n) cur =
     (case QueryUnescape cur of
        None \<Rightarrow> cur
      | Some dec \<Rightarrow> if dec = cur then cur else decode_value n dec)"

definition canonical_query :: "inspection_profile \<Rightarrow> string \<Rightarrow> url_values \<times> bool" where
  "canonical_query profile rawQuery =
     (let (q, err) = ParseQuery rawQuery;
          q = (if err then [] else q);
          q = fold_duplicates (DuplicateQuery profile) q;
          q = (if PercentDecodeRounds profile > 1
               then map (\<lambda>(k, vs). (k, map (decode_value (nat (PercentDecodeRounds profile) - 1)) vs)) q
               else q);
          paramCount = sum_list (map (\<lambda>(k, vs). length vs) q)
      in (q, malformedQuery rawQuery \<or> err
             \<or> (MaxParams profile > 0 \<and> int paramCount > MaxParams profile)))"

subsection \<open>Headers\<close>

type_synonym headers = "(string \<times> string list) list"

definition httpCanonical :: "string \<Rightarrow> string" where
  "httpCanonical k = to_lower k"

definition headerVals :: "headers \<Rightarrow> string \<Rightarrow> string list" where
  "headerVals h name =
     (case map_of h name of
        Some vs \<Rightarrow> vs
      | None \<Rightarrow>
          (case find (\<lambda>(k, vs). httpCanonical k = httpCanonical name) h of
             None \<Rightarrow> []
           | Some (k, vs) \<Rightarrow> vs))"

definition headerVal :: "headers \<Rightarrow> string \<Rightarrow> string" where
  "headerVal h name = (case headerVals h name of [] \<Rightarrow> [] | v # _ \<Rightarrow> v)"

definition pickDuplicate :: "string list \<Rightarrow> string \<Rightarrow> string list" where
  "pickDuplicate vs mode =
     (if vs = [] then []
      else if mode = ''last'' then [last vs]
      else if mode = ''combine'' then vs
      else [hd vs])"

definition canonical_headers :: "inspection_profile \<Rightarrow> headers \<Rightarrow> headers" where
  "canonical_headers profile headers =
     foldl (\<lambda>acc (k, vs). AList.update (httpCanonical k) (pickDuplicate vs (DuplicateHeader profile)) acc)
       [] headers"

definition headers_rejected :: "inspection_profile \<Rightarrow> headers \<Rightarrow> bool" where
  "headers_rejected profile headers \<longleftrightarrow>
     (headerVal headers ''Content-Length'' \<noteq> [] \<and> headerVal headers ''Transfer-Encoding'' \<noteq> []
        \<and> ClTeConflict profile = ''reject'')
     \<or> headerVal headers ''X-Duplicate-Content-Length'' \<noteq> []
     \<or> length (headerVals headers ''Content-Length'') > 1
     \<or> (MaxHeaders profile > 0 \<and> int (length headers) > MaxHeaders profile)"

subsection \<open>Body\<close>

definition allowsDecompress :: "inspection_profile \<Rightarrow> string \<Rightarrow> bool" where
  "allowsDecompress profile alg \<longleftrightarrow>
     DecompressAlgorithms profile \<noteq> [] \<and>
     list_ex (\<lambda>a. equal_fold (trim_space a) alg) (DecompressAlgorithms profile)"

definition decompressionReader :: "'a inspectlib_scheme \<Rightarrow> string \<Rightarrow> bytes \<Rightarrow> decompressed option" where
  "decompressionReader P algorithm body =
     (if to_lower algorithm = ''gzip'' then gzip_reader P body
      else if to_lower algorithm = ''deflate'' then zlib_reader P body
      else None)"

text \<open>The body after content decoding, whether it stays opaque, and whether the request is rejected.\<close>

definition decode_body :: "'a inspectlib_scheme \<Rightarrow> inspection_profile \<Rightarrow> headers \<Rightarrow> bytes \<Rightarrow> bytes \<times> bool \<times> bool" where
  "decode_body P profile headers body =
     (let maxInflate = (if DecompressMaxBytes profile \<le> 0 then EngineBodyLimitBytes
                        else nat (DecompressMaxBytes profile));
          enc = to_lower (headerVal headers ''Content-Encoding'') in
      if enc \<noteq> [] \<and> enc \<noteq> ''identity'' \<and> length body > 0 then
        (let algorithm = trim_space (hd (split_on (CHR '','') enc)) in
         if \<not> allowsDecompress profile algorithm then ([], True, False)
         else (case decompressionReader P algorithm body of
                 None \<Rightarrow> ([], False, True)
               | Some d \<Rightarrow>
                   (let raw = take (maxInflate + 1) (dec_bytes d) in
                    (raw, False,
                     (dec_read_error d \<and> length (dec_bytes d) \<le> maxInflate) \<or> dec_close_error d
                     \<or> length raw > maxInflate))))
      else (body, False, False))"

fun jsonDepth :: "json \<Rightarrow> nat" where
  "jsonDepth (JObj kvs) = foldl max 1 (map (\<lambda>kv. 1 + jsonDepth (snd kv)) kvs)"
| "jsonDepth (JArr vs) = foldl max 1 (map (\<lambda>v. 1 + jsonDepth v) vs)"
| "jsonDepth JNull = 0"
| "jsonDepth (JBool b) = 0"
| "jsonDepth (JNum n) = 0"
| "jsonDepth (JStr s) = 0"

definition jsonExceedsDepth :: "'a golib_scheme \<Rightarrow> bytes \<Rightarrow> nat \<Rightarrow> bool" where
  "jsonExceedsDepth L b maxd \<longleftrightarrow>
     \<not> (b = [] \<or> maxd = 0) \<and>
     (case json_unmarshal L b of None \<Rightarrow> False | Some v \<Rightarrow> jsonDepth v > maxd)"

definition hasDuplicateJSONKey :: "'a inspectlib_scheme \<Rightarrow> bytes \<Rightarrow> bool" where
  "hasDuplicateJSONKey P b \<longleftrightarrow> \<not> distinct (json_object_keys P b)"

fun multipart_loop :: "int \<Rightarrow> int \<Rightarrow> nat \<Rightarrow> multipart_event list \<Rightarrow> bool" where
  "multipart_loop maxParts maxPart n [] = False"
| "multipart_loop maxParts maxPart n (PartFailure # es) = True"
| "multipart_loop maxParts maxPart n (Part raw err # es) =
     (if err \<or> (maxPart > 0 \<and> int (length raw) > maxPart) then True
      else if maxParts > 0 \<and> int (Suc n) > maxParts then True
      else multipart_loop maxParts maxPart (Suc n) es)"

definition rejectMultipartLimits :: "'a inspectlib_scheme \<Rightarrow> bytes \<Rightarrow> string \<Rightarrow> inspection_profile \<Rightarrow> bool" where
  "rejectMultipartLimits P body contentType profile =
     (let maxParts = MultipartMaxParts profile; maxPart = MultipartMaxPartBytes profile in
      if maxParts \<le> 0 \<and> maxPart \<le> 0 then False
      else case mime_boundary P contentType of
        None \<Rightarrow> True
      | Some boundary \<Rightarrow>
          if boundary = [] then True
          else multipart_loop maxParts maxPart 0 (multipart_events P boundary body))"

definition inspect_body ::
  "'a inspectlib_scheme \<Rightarrow> inspection_profile \<Rightarrow> headers \<Rightarrow> bytes \<Rightarrow> bytes \<times> bool" where
  "inspect_body P profile headers body =
     (let ct = to_lower (headerVal headers ''Content-Type'');
          json_bad = contains ct ''application/json'' \<and>
            ((JsonDuplicateKey profile = ''reject'' \<and> hasDuplicateJSONKey P body) \<or>
             (JsonMaxDepth profile > 0 \<and> jsonExceedsDepth P body (nat (JsonMaxDepth profile)))) in
      if contains ct ''multipart/'' then
        (if \<not> contains body ''Content-Disposition'' then ([], True)
         else (body, json_bad \<or> rejectMultipartLimits P body ct profile))
      else (body, json_bad))"

definition body_coverage :: "inspection_profile \<Rightarrow> bool \<Rightarrow> bytes \<Rightarrow> bytes \<times> Coverage" where
  "body_coverage profile opaque body =
     (let limit = (if ProfileBodyLimitBytes profile \<le> 0 then EngineBodyLimitBytes
                   else nat (ProfileBodyLimitBytes profile));
          cov = (\<lambda>st n. \<lparr>cov_Target = INSPECTION_SURFACE_BODY, cov_Status = st,
                         cov_Inspected = int n, cov_Total = int (length body)\<rparr>) in
      if opaque then ([], cov COVERAGE_STATUS_ERROR 0)
      else if length body = 0 then ([], cov COVERAGE_STATUS_ABSENT 0)
      else if length body > limit then (take limit body, cov COVERAGE_STATUS_PARTIAL limit)
      else (body, cov COVERAGE_STATUS_FULL (length body)))"

subsection \<open>The view\<close>

definition canonicalize ::
  "'a inspectlib_scheme \<Rightarrow> string \<Rightarrow> string \<Rightarrow> string \<Rightarrow> headers \<Rightarrow> bytes \<Rightarrow> inspection_profile option \<Rightarrow>
   CanonicalView" where
  "canonicalize P method rawPath rawQuery headers body profile_arg =
     (let profile = (case profile_arg of None \<Rightarrow> DefaultInspectionProfile | Some p \<Rightarrow> p);
          (path, path_rejected) =
            decode_path profile (nat (PercentDecodeRounds profile)) (if rawPath = [] then ''/'' else rawPath) False;
          path = (if NormalizePath profile then normalizePath path else path);
          (q, query_rejected) = canonical_query profile rawQuery;
          (decoded, opaque, decode_rejected) = decode_body P profile headers body;
          (inspected, body_rejected) = inspect_body P profile headers decoded;
          (view_body, cov) = body_coverage profile opaque inspected
      in \<lparr>view_Method = to_upper method, view_Path = path, view_Query = q,
          view_Headers = canonical_headers profile headers, view_Body = view_body,
          view_Host = headerVal headers ''Host'',
          view_Rejected = (path_rejected \<or> query_rejected \<or> headers_rejected profile headers
                           \<or> decode_rejected \<or> body_rejected),
          view_Coverage =
            [\<lparr>cov_Target = INSPECTION_SURFACE_PATH, cov_Status = COVERAGE_STATUS_FULL,
              cov_Inspected = int (length path), cov_Total = int (length path)\<rparr>,
             \<lparr>cov_Target = INSPECTION_SURFACE_QUERY, cov_Status = COVERAGE_STATUS_FULL,
              cov_Inspected = int (length rawQuery), cov_Total = int (length rawQuery)\<rparr>,
             \<lparr>cov_Target = INSPECTION_SURFACE_HEADER, cov_Status = COVERAGE_STATUS_FULL,
              cov_Inspected = 0, cov_Total = 0\<rparr>,
             cov],
          view_ProfileDigest = inspectionProfileDigest P profile\<rparr>)"

definition Canonicalize ::
  "'a inspectlib_scheme \<Rightarrow> string \<Rightarrow> string \<Rightarrow> string \<Rightarrow> (string \<times> string) list \<Rightarrow> bytes \<Rightarrow>
   inspection_profile option \<Rightarrow> CanonicalView" where
  "Canonicalize P method rawPath rawQuery headers body profile =
     canonicalize P method rawPath rawQuery (map (\<lambda>(k, v). (k, [v])) headers) body profile"

definition CanonicalizeHTTP ::
  "'a inspectlib_scheme \<Rightarrow> string \<Rightarrow> string \<Rightarrow> string \<Rightarrow> headers \<Rightarrow> bytes \<Rightarrow> inspection_profile option \<Rightarrow>
   CanonicalView" where
  "CanonicalizeHTTP P method rawPath rawQuery headers body profile =
     canonicalize P method rawPath rawQuery headers body profile"

definition CoverageOf :: "Coverage list \<Rightarrow> inspection_surface \<Rightarrow> coverage_status" where
  "CoverageOf cov surface =
     (case find (\<lambda>c. cov_Target c = surface) cov of
        None \<Rightarrow> COVERAGE_STATUS_ABSENT
      | Some c \<Rightarrow> cov_Status c)"

subsection \<open>Lemmas on paths\<close>

definition clean_segment :: "string \<Rightarrow> bool" where
  "clean_segment seg \<longleftrightarrow> seg \<noteq> [] \<and> seg \<noteq> ''.'' \<and> seg \<noteq> ''..'' \<and> CHR ''/'' \<notin> set seg"

lemma push_segment_clean:
  "list_all clean_segment out \<Longrightarrow> CHR ''/'' \<notin> set part \<Longrightarrow> list_all clean_segment (push_segment out part)"
  by (cases out rule: rev_cases) (auto simp: push_segment_def clean_segment_def)

lemma foldl_push_clean:
  assumes "list_all clean_segment out" and "\<And>p. p \<in> set parts \<Longrightarrow> CHR ''/'' \<notin> set p"
  shows "list_all clean_segment (foldl push_segment out parts)"
  using assms by (induction parts arbitrary: out) (auto intro: push_segment_clean)

lemma foldl_push_ident:
  "list_all clean_segment segs \<Longrightarrow> foldl push_segment out segs = out @ segs"
  by (induction segs arbitrary: out) (auto simp: push_segment_def clean_segment_def)

text \<open>A normalised path is a slash followed by clean segments joined by slashes.\<close>

lemma normalizePath_form:
  "\<exists>segs. list_all clean_segment segs \<and> normalizePath p = ''/'' @ join_with ''/'' segs"
proof (cases "p = []")
  case True
  then show ?thesis by (intro exI [of _ "[]"]) (simp add: normalizePath_def)
next
  case False
  have "list_all clean_segment (foldl push_segment [] (split_on (CHR ''/'') p))"
    by (intro foldl_push_clean) (auto dest: split_on_no_sep)
  with False show ?thesis by (auto simp: normalizePath_def)
qed

lemma split_clean_path:
  assumes "list_all clean_segment segs"
  shows "split_on (CHR ''/'') (''/'' @ join_with ''/'' segs) = [] # (if segs = [] then [[]] else segs)"
  using assms by (auto simp: split_join clean_segment_def list_all_iff)

lemma normalizePath_clean:
  assumes "list_all clean_segment segs"
  shows "normalizePath (''/'' @ join_with ''/'' segs) = ''/'' @ join_with ''/'' segs"
proof -
  have "foldl push_segment [] ([] # (if segs = [] then [[]] else segs)) = segs"
    using assms by (auto simp: foldl_push_ident push_segment_def)
  with split_clean_path [OF assms] show ?thesis by (simp add: normalizePath_def)
qed

subsection \<open>Properties\<close>

text \<open>
  C33: path normalisation is idempotent, and its result is absolute with no dot segment and no empty
  segment (the root path aside): a later consumer cannot be led outside the path that was checked.
\<close>

theorem normalizePath_canonical:
  "normalizePath (normalizePath p) = normalizePath p \<and>
   (\<exists>segs. split_on (CHR ''/'') (normalizePath p) = [] # segs \<and>
      set segs \<inter> {''.'', ''..''} = {} \<and>
      (if normalizePath p = ''/'' then segs = [[]] else [] \<notin> set segs))"
proof -
  obtain segs where clean: "list_all clean_segment segs" and form: "normalizePath p = ''/'' @ join_with ''/'' segs"
    using normalizePath_form by blast
  have root: "normalizePath p = ''/'' \<longleftrightarrow> segs = []"
    using clean by (cases segs; cases "tl segs") (auto simp: form clean_segment_def)
  show ?thesis
    unfolding root unfolding form split_clean_path [OF clean] normalizePath_clean [OF clean]
    using clean by (auto simp: clean_segment_def list_all_iff)
qed

text \<open>
  The body coverage tells the truth: the number of inspected bytes is the length of the body the
  detectors see, never above the engine limit; a full coverage means that body is the whole
  decoded body; an opaque (compressed, not allowed) body is reported as an error with nothing seen.
\<close>

theorem body_coverage_truthful:
  fixes profile body opaque
  defines "limit \<equiv> (if ProfileBodyLimitBytes profile \<le> 0 then EngineBodyLimitBytes
                    else nat (ProfileBodyLimitBytes profile))"
  shows "case body_coverage profile opaque body of
           (seen, cov) \<Rightarrow>
             cov_Inspected cov = int (length seen) \<and> length seen \<le> limit \<and>
             seen = take (length seen) body \<and> cov_Inspected cov \<le> cov_Total cov \<and>
             (case cov_Status cov of
                COVERAGE_STATUS_FULL \<Rightarrow> seen = body \<and> body \<noteq> []
              | COVERAGE_STATUS_PARTIAL \<Rightarrow> length seen = limit \<and> limit < length body
              | COVERAGE_STATUS_ABSENT \<Rightarrow> body = []
              | COVERAGE_STATUS_ERROR \<Rightarrow> opaque \<and> seen = []
              | _ \<Rightarrow> False)"
  by (auto simp: body_coverage_def limit_def Let_def min_def)

text \<open>
  Under the default profile a request that is not rejected has no encoded slash in its path,
  neither as sent nor after the first decoding round, at most 64 headers, no Content-Length next
  to Transfer-Encoding and at most one Content-Length, at most 128 parameters and well-formed
  escapes in its query.
\<close>

theorem unrejected_view_bounds:
  assumes "\<not> view_Rejected (canonicalize P method rawPath rawQuery headers body None)"
  shows "\<not> hasEncodedSlash rawPath \<and>
         (case PathUnescape rawPath of
            None \<Rightarrow> False
          | Some once \<Rightarrow> \<not> hasEncodedSlash once) \<and>
         length headers \<le> 64 \<and> length (headerVals headers ''Content-Length'') \<le> 1 \<and>
         (headerVal headers ''Content-Length'' = [] \<or> headerVal headers ''Transfer-Encoding'' = []) \<and>
         sum_list (map (\<lambda>(k, vs). length vs) (view_Query (canonicalize P method rawPath rawQuery headers body None))) \<le> 128 \<and>
         \<not> malformedQuery rawQuery"
proof -
  let ?p = "if rawPath = [] then ''/'' else rawPath"
  from assms have path: "\<not> snd (decode_path DefaultInspectionProfile 2 ?p False)"
    and query: "\<not> snd (canonical_query DefaultInspectionProfile rawQuery)"
    and hdrs: "\<not> headers_rejected DefaultInspectionProfile headers"
    by (auto simp: canonicalize_def Let_def DefaultInspectionProfile_def split: prod.splits)
  from path have "\<not> hasEncodedSlash ?p \<and> (case PathUnescape ?p of None \<Rightarrow> False | Some d \<Rightarrow> \<not> hasEncodedSlash d)"
    by (auto simp: numeral_2_eq_2 DefaultInspectionProfile_def Let_def split: option.splits if_splits)
  moreover have "\<not> hasEncodedSlash []" and "PathUnescape [] = Some []"
    by (simp_all add: hasEncodedSlash_def to_lower_def PathUnescape_def)
  moreover have "\<not> malformedQuery rawQuery \<and>
      sum_list (map (\<lambda>(k, vs). length vs) (fst (canonical_query DefaultInspectionProfile rawQuery))) \<le> 128"
    using query by (auto simp: canonical_query_def Let_def DefaultInspectionProfile_def split: prod.splits)
  moreover have "view_Query (canonicalize P method rawPath rawQuery headers body None) =
      fst (canonical_query DefaultInspectionProfile rawQuery)"
    by (simp add: canonicalize_def Let_def split: prod.splits)
  ultimately show ?thesis
    using hdrs by (cases "rawPath = []") (auto simp: headers_rejected_def DefaultInspectionProfile_def)
qed

definition demo_inspectlib :: inspectlib where
  "demo_inspectlib = protolib.extend demo_protolib
     \<lparr>marshal_profile = \<lambda>_. None, gzip_reader = \<lambda>_. None, zlib_reader = \<lambda>_. None,
      mime_boundary = \<lambda>_. None, multipart_events = \<lambda>_ _. [], json_object_keys = \<lambda>_. []\<rparr>"

lemma decode_numeral:
  "decode_path pr (numeral k) p r = decode_path pr (Suc (pred_numeral k)) p r"
  "decode_value (numeral k) v = decode_value (Suc (pred_numeral k)) v"
  by (simp_all only: numeral_eq_Suc)

lemmas url_eval = PathUnescape_def QueryUnescape_def isHex_def unhex_def char_of_def bit_0
  hasEncodedSlash_def to_lower_def lower_char_def has_prefix_def ParseQuery_def parse_pair_def
  values_add_def cut_def contains.simps

theorem unrejected_view_bounds_witness:
  "\<not> hasEncodedSlash ''/%41/../b'' \<and>
   sum_list (map (\<lambda>(k, vs). length vs)
     (view_Query (canonicalize demo_inspectlib ''get'' ''/%41/../b'' ''x=1&x=2'' [] [] None))) \<le> 128"
proof -
  have "\<not> view_Rejected (canonicalize demo_inspectlib ''get'' ''/%41/../b'' ''x=1&x=2'' [] [] None)"
    by (simp add: decode_numeral DefaultInspectionProfile_def url_eval canonicalize_def
          canonical_query_def headers_rejected_def headerVal_def headerVals_def decode_body_def
          inspect_body_def body_coverage_def fold_duplicates_def Let_def)
  from unrejected_view_bounds [OF this] show ?thesis by blast
qed

lemma canonicalize_path_rejected:
  "view_Path (canonicalize P m rawPath rawQuery h b (Some pr)) =
     (let path = fst (decode_path pr (nat (PercentDecodeRounds pr)) (if rawPath = [] then ''/'' else rawPath) False)
      in if NormalizePath pr then normalizePath path else path)"
  "view_Rejected (canonicalize P m rawPath rawQuery h b (Some pr)) \<longleftrightarrow>
     snd (decode_path pr (nat (PercentDecodeRounds pr)) (if rawPath = [] then ''/'' else rawPath) False) \<or>
     snd (canonical_query pr rawQuery) \<or> headers_rejected pr h \<or> snd (snd (decode_body P pr h b)) \<or>
     snd (inspect_body P pr h (fst (decode_body P pr h b)))"
  by (simp_all add: canonicalize_def Let_def case_prod_beta)

text \<open>The slash policy is read by the path decoder only.\<close>

lemma EncodedSlash_irrelevant [simp]:
  "canonical_query (pr\<lparr>EncodedSlash := x\<rparr>) rawQuery = canonical_query pr rawQuery"
  "headers_rejected (pr\<lparr>EncodedSlash := x\<rparr>) h = headers_rejected pr h"
  "decode_body P (pr\<lparr>EncodedSlash := x\<rparr>) h b = decode_body P pr h b"
  "inspect_body P (pr\<lparr>EncodedSlash := x\<rparr>) h b = inspect_body P pr h b"
  by (simp_all add: canonical_query_def headers_rejected_def decode_body_def allowsDecompress_def
        inspect_body_def rejectMultipartLimits_def Let_def case_prod_beta cong: option.case_cong)

text \<open>
  The encoded-slash policy has two effects only, rejection or none: a profile that says keep
  gives the same path and the same verdict as one that says decode, with encoded slashes decoded.
\<close>

theorem encoded_slash_keep_decodes:
  "view_Path (canonicalize P m rawPath rawQuery h b (Some (pr\<lparr>EncodedSlash := ''keep''\<rparr>))) =
   view_Path (canonicalize P m rawPath rawQuery h b (Some (pr\<lparr>EncodedSlash := ''decode''\<rparr>))) \<and>
   view_Rejected (canonicalize P m rawPath rawQuery h b (Some (pr\<lparr>EncodedSlash := ''keep''\<rparr>))) =
   view_Rejected (canonicalize P m rawPath rawQuery h b (Some (pr\<lparr>EncodedSlash := ''decode''\<rparr>))) \<and>
   decode_path (DefaultInspectionProfile\<lparr>EncodedSlash := ''keep''\<rparr>) 2 ''/a%2fb'' False = (''/a/b'', False)"
proof -
  have same: "decode_path (pr\<lparr>EncodedSlash := ''keep''\<rparr>) n p r = decode_path (pr\<lparr>EncodedSlash := ''decode''\<rparr>) n p r"
    for n p r
    by (induction n arbitrary: p r) (auto simp: Let_def split: option.splits)
  have "decode_path (DefaultInspectionProfile\<lparr>EncodedSlash := ''keep''\<rparr>) 2 ''/a%2fb'' False = (''/a/b'', False)"
    by (simp add: decode_numeral DefaultInspectionProfile_def url_eval)
  then show ?thesis by (simp add: canonicalize_path_rejected same)
qed

end
