(* ===== verification/Inspection.thy ===== *)
theory Inspection
  imports Canonical "HOL-Library.List_Lexorder" "HOL-Library.Char_ord"
begin

text \<open>
  What the detectors read and report (\<^verbatim>\<open>src/lib/edgecore/detector.go\<close>, \<^verbatim>\<open>inspector.go\<close>, the types
  and small predicates of \<^verbatim>\<open>evaluate.go\<close>), the attack taxonomy (\<^verbatim>\<open>taxonomy.go\<close>), the evidence
  projection of \<^verbatim>\<open>digest.go\<close> and the query redaction of \<^verbatim>\<open>redact.go\<close>. Scores are real numbers.
\<close>

subsection \<open>Requests, actions, detections\<close>

text \<open>
  A valid \<open>netip.Addr\<close>: four or sixteen bytes and the zone of an IPv6 address. The zero address,
  which is not valid, is \<open>None\<close>.
\<close>

record ip_addr =
  ip_bytes :: bytes
  ip_zone :: string

record Request =
  req_AssetID :: string
  req_UnitID :: string
  req_Method :: string
  req_Path :: string
  req_Query :: string
  req_Headers :: "(string \<times> string) list"
  req_Body :: bytes
  req_ClientAddress :: "ip_addr option"

datatype Action = ActionAllow | ActionObserve | ActionBlock

text \<open>The actions are consecutive integers; the worse of two is the larger one.\<close>

fun action_number :: "Action \<Rightarrow> nat" where
  "action_number ActionAllow = 0"
| "action_number ActionObserve = 1"
| "action_number ActionBlock = 2"

lemma action_number_inject: "action_number a = action_number b \<longleftrightarrow> a = b"
  by (cases a; cases b) simp_all

instantiation Action :: linorder
begin

definition less_eq_Action :: "Action \<Rightarrow> Action \<Rightarrow> bool" where
  "less_eq_Action a b \<longleftrightarrow> action_number a \<le> action_number b"

definition less_Action :: "Action \<Rightarrow> Action \<Rightarrow> bool" where
  "less_Action a b \<longleftrightarrow> action_number a < action_number b"

instance
  by standard (auto simp: less_eq_Action_def less_Action_def action_number_inject)

end

lemma ActionBlock_top [simp]: "a \<le> ActionBlock" and ActionAllow_bot [simp]: "ActionAllow \<le> a"
  by (cases a; simp add: less_eq_Action_def)+

record Detection =
  det_InspectorID :: string
  det_RuleID :: string
  det_Class :: attack_class
  det_Score :: real
  det_Location :: inspection_surface
  det_Selector :: string
  det_Phase :: string
  det_Version :: string
  det_ManifestDigest :: string
  det_ProfileDigest :: string

record Inspection =
  insp_Detections :: "Detection list"
  insp_Coverage :: "Coverage list"
  insp_Rejected :: bool

definition EvaluateView :: "CanonicalView \<Rightarrow> Detection list \<Rightarrow> Inspection" where
  "EvaluateView view detections =
     \<lparr>insp_Detections = detections, insp_Coverage = view_Coverage view, insp_Rejected = view_Rejected view\<rparr>"

definition CoverageError :: "inspection_surface \<Rightarrow> Coverage" where
  "CoverageError surface = \<lparr>cov_Target = surface, cov_Status = COVERAGE_STATUS_ERROR,
     cov_Inspected = 0, cov_Total = 0\<rparr>"

definition coverageHasError :: "Coverage list \<Rightarrow> bool" where
  "coverageHasError cov \<longleftrightarrow> list_ex (\<lambda>c. cov_Status c = COVERAGE_STATUS_ERROR) cov"

definition IsNoDetection :: "Coverage list \<Rightarrow> Detection list \<Rightarrow> bool" where
  "IsNoDetection cov found \<longleftrightarrow>
     \<not> list_ex (\<lambda>c. cov_Status c = COVERAGE_STATUS_ERROR) cov \<and> length found = 0"

definition ShouldSkipBodyPolicy :: "CanonicalView \<Rightarrow> bool" where
  "ShouldSkipBodyPolicy view \<longleftrightarrow>
     CoverageOf (view_Coverage view) INSPECTION_SURFACE_BODY \<noteq> COVERAGE_STATUS_FULL"

definition GateOrder :: "bool \<Rightarrow> bool \<Rightarrow> bool \<Rightarrow> Action" where
  "GateOrder policyBlock ruleBlock shapeBlock =
     (if policyBlock then ActionBlock
      else if ruleBlock then ActionBlock
      else if shapeBlock then ActionBlock
      else ActionAllow)"

subsection \<open>Merging inspectors\<close>

definition merge_part :: "Inspection \<Rightarrow> Inspection \<Rightarrow> Inspection" where
  "merge_part out p =
     \<lparr>insp_Detections = insp_Detections out @ insp_Detections p,
      insp_Coverage = insp_Coverage out @
        filter (\<lambda>c. cov_Status c = COVERAGE_STATUS_ERROR) (insp_Coverage p),
      insp_Rejected = (if insp_Rejected p then True else insp_Rejected out)\<rparr>"

definition MergeInspections :: "CanonicalView \<Rightarrow> Inspection list \<Rightarrow> Inspection" where
  "MergeInspections view parts =
     foldl merge_part
       \<lparr>insp_Detections = [], insp_Coverage = view_Coverage view, insp_Rejected = view_Rejected view\<rparr> parts"

subsection \<open>Encoding a query (package net/url)\<close>

definition unreserved :: "char \<Rightarrow> bool" where
  "unreserved c \<longleftrightarrow>
     (let n = (of_char c :: nat) in
        (48 \<le> n \<and> n \<le> 57) \<or> (65 \<le> n \<and> n \<le> 90) \<or> (97 \<le> n \<and> n \<le> 122)) \<or>
     c \<in> {CHR ''-'', CHR ''_'', CHR ''.'', CHR ''~''}"

definition upper_hex :: "nat \<Rightarrow> char" where
  "upper_hex n = (if n < 10 then char_of (48 + n) else char_of (55 + n))"

definition escape_char :: "char \<Rightarrow> string" where
  "escape_char c =
     (if unreserved c then [c]
      else if c = CHR '' '' then ''+''
      else [CHR ''%'', upper_hex (of_char c div 16), upper_hex (of_char c mod 16)])"

definition QueryEscape :: "string \<Rightarrow> string" where
  "QueryEscape s = concat (map escape_char s)"

definition values_Encode :: "url_values \<Rightarrow> string" where
  "values_Encode q =
     join_with ''&'' (concat (map (\<lambda>(k, vs). map (\<lambda>v. QueryEscape k @ ''='' @ QueryEscape v) vs)
       (sort_key fst q)))"

definition RequestFromView :: "CanonicalView \<Rightarrow> Request" where
  "RequestFromView view =
     \<lparr>req_AssetID = [], req_UnitID = [], req_Method = view_Method view, req_Path = view_Path view,
      req_Query = values_Encode (view_Query view),
      req_Headers = map (\<lambda>(k, vs). (k, hd vs)) (filter (\<lambda>(k, vs). vs \<noteq> []) (view_Headers view)),
      req_Body = view_Body view, req_ClientAddress = None\<rparr>"

text \<open>Redaction keeps the parameter names in the order the map is visited.\<close>

definition RedactQuery :: "string \<Rightarrow> string" where
  "RedactQuery raw =
     (if trim_space raw = [] then []
      else let (vals, err) = ParseQuery raw in
        if err then [] else join_with ''&'' (map (\<lambda>(k, vs). k @ ''='') vals))"

subsection \<open>Taxonomy\<close>

record TaxonomyRule =
  tax_RuleId :: string
  tax_AttackClass :: attack_class
  tax_RulePrefix :: string

record TaxonomyMapper =
  tax_Version :: string
  tax_Rules :: "TaxonomyRule option list"

definition prefix_rule :: "string \<Rightarrow> attack_class \<Rightarrow> TaxonomyRule option" where
  "prefix_rule p c = Some \<lparr>tax_RuleId = [], tax_AttackClass = c, tax_RulePrefix = p\<rparr>"

definition DefaultTaxonomyMapper :: TaxonomyMapper where
  "DefaultTaxonomyMapper = \<lparr>tax_Version = ''tax/v1'', tax_Rules =
     [prefix_rule ''942'' ATTACK_CLASS_SQLI, prefix_rule ''941'' ATTACK_CLASS_XSS,
      prefix_rule ''930'' ATTACK_CLASS_PATH_TRAVERSAL, prefix_rule ''931'' ATTACK_CLASS_PATH_TRAVERSAL,
      prefix_rule ''932'' ATTACK_CLASS_CMDI, prefix_rule ''933'' ATTACK_CLASS_CMDI,
      prefix_rule ''943'' ATTACK_CLASS_SSRF, prefix_rule ''934'' ATTACK_CLASS_CMDI,
      prefix_rule ''944'' ATTACK_CLASS_CMDI]\<rparr>"

definition exact_rule :: "string \<Rightarrow> TaxonomyRule option \<Rightarrow> bool" where
  "exact_rule i r \<longleftrightarrow> (case r of None \<Rightarrow> False | Some t \<Rightarrow> tax_RuleId t \<noteq> [] \<and> tax_RuleId t = i)"

definition better_prefix :: "string \<Rightarrow> TaxonomyRule option \<Rightarrow> TaxonomyRule option \<Rightarrow> TaxonomyRule option" where
  "better_prefix i best r =
     (case r of
        None \<Rightarrow> best
      | Some t \<Rightarrow>
          if tax_RulePrefix t = [] then best
          else if has_prefix i (tax_RulePrefix t) then
            (case best of
               None \<Rightarrow> Some t
             | Some b \<Rightarrow> if length (tax_RulePrefix t) > length (tax_RulePrefix b) then Some t else best)
          else best)"

definition MapAttackClass :: "TaxonomyMapper option \<Rightarrow> string \<Rightarrow> attack_class" where
  "MapAttackClass mapper ruleID =
     (case mapper of
        None \<Rightarrow> ATTACK_CLASS_UNMAPPED
      | Some m \<Rightarrow>
          (let i = trim_space ruleID in
           if i = [] then ATTACK_CLASS_UNMAPPED
           else case find (exact_rule i) (tax_Rules m) of
             Some (Some t) \<Rightarrow> tax_AttackClass t
           | _ \<Rightarrow>
               (case foldl (better_prefix i) None (tax_Rules m) of
                  None \<Rightarrow> ATTACK_CLASS_UNMAPPED
                | Some t \<Rightarrow> tax_AttackClass t)))"

record DetectionKey =
  key_DetectorId :: string
  key_DetectorVersion :: string
  key_DetectorManifestDigest :: string
  key_RuleId :: string
  key_Phase :: string
  key_TargetLocation :: inspection_surface
  key_TargetSelector :: string
  key_NormalizationProfileDigest :: string

definition AutoGovernable :: "DetectionKey option \<Rightarrow> TaxonomyMapper option \<Rightarrow> bool" where
  "AutoGovernable key mapper \<longleftrightarrow>
     (case (key, mapper) of
        (Some k, Some m) \<Rightarrow>
          MapAttackClass mapper (key_RuleId k) \<in>
            {ATTACK_CLASS_SQLI, ATTACK_CLASS_XSS, ATTACK_CLASS_PATH_TRAVERSAL, ATTACK_CLASS_SSRF,
             ATTACK_CLASS_CMDI}
      | _ \<Rightarrow> False)"

definition ApplyTaxonomy :: "Detection list \<Rightarrow> TaxonomyMapper option \<Rightarrow> Detection list" where
  "ApplyTaxonomy found mapper =
     (case mapper of
        None \<Rightarrow> found
      | Some m \<Rightarrow> map (\<lambda>d. d\<lparr>det_Class := MapAttackClass mapper (det_RuleID d)\<rparr>) found)"

subsection \<open>Evidence projection\<close>

record EvidenceDigest =
  dig_Algorithm :: int
  dig_MaxSpanBytes :: int
  dig_Fields :: "string list"

definition DefaultEvidenceDigest :: EvidenceDigest where
  "DefaultEvidenceDigest = \<lparr>dig_Algorithm = 1, dig_MaxSpanBytes = 256,
     dig_Fields = [''method'', ''route_template'', ''selector'', ''span_hash'', ''charset_class'']\<rparr>"

record EvidenceProjection =
  proj_Algorithm :: int
  proj_MaxSpanBytes :: int
  proj_Fields :: "(string \<times> string) list"

definition charsetClass :: "'a golib_scheme \<Rightarrow> CanonicalView \<Rightarrow> string" where
  "charsetClass L view =
     (let rs = runes (view_Path view @ values_Encode (view_Query view));
          plain = (\<lambda>r. r \<in> (of_char ` set ''/?=&-_.'' :: nat set));
          hasDigit = list_ex (is_digit L) rs;
          hasAlpha = list_ex (\<lambda>r. \<not> is_digit L r \<and> is_letter L r) rs;
          hasOther = list_ex (\<lambda>r. \<not> is_digit L r \<and> \<not> is_letter L r \<and> \<not> plain r) rs in
      if hasOther then ''mixed''
      else if hasAlpha \<and> hasDigit then ''alnum''
      else if hasDigit then ''digit''
      else ''alpha'')"

text \<open>The name of a surface is what the generated \<open>String\<close> method prints.\<close>

fun surface_name :: "inspection_surface \<Rightarrow> string" where
  "surface_name INSPECTION_SURFACE_UNSPECIFIED = ''INSPECTION_SURFACE_UNSPECIFIED''"
| "surface_name INSPECTION_SURFACE_PATH = ''INSPECTION_SURFACE_PATH''"
| "surface_name INSPECTION_SURFACE_QUERY = ''INSPECTION_SURFACE_QUERY''"
| "surface_name INSPECTION_SURFACE_BODY = ''INSPECTION_SURFACE_BODY''"
| "surface_name INSPECTION_SURFACE_HEADER = ''INSPECTION_SURFACE_HEADER''"
| "surface_name (INSPECTION_SURFACE_other n) = itoa n"

definition ProjectEvidence ::
  "'a golib_scheme \<Rightarrow> CanonicalView \<Rightarrow> EvidenceDigest option \<Rightarrow> Detection list \<Rightarrow> EvidenceProjection" where
  "ProjectEvidence L view arg found =
     (let digest = (case arg of None \<Rightarrow> DefaultEvidenceDigest | Some d \<Rightarrow> d);
          want = (let ws = map to_lower (dig_Fields digest) in
                  if ws = [] then dig_Fields DefaultEvidenceDigest else ws);
          span = view_Method view @ '' '' @ view_Path view @ ''?'' @ values_Encode (view_Query view);
          maxb = (if dig_MaxSpanBytes digest \<le> 0 then 256 else nat (dig_MaxSpanBytes digest));
          fields =
            (if ''method'' \<in> set want then [(''method'', view_Method view)] else []) @
            (if ''route_template'' \<in> set want then [(''route_template'', view_Path view)] else []) @
            (if ''selector'' \<in> set want \<and> found \<noteq> []
             then [(''selector'', surface_name (det_Location (hd found)))] else []) @
            (if ''span_hash'' \<in> set want
             then [(''span_hash'', hex_encode (sha256 L (take maxb span)))] else []) @
            (if ''charset_class'' \<in> set want then [(''charset_class'', charsetClass L view)] else [])
      in \<lparr>proj_Algorithm = dig_Algorithm digest, proj_MaxSpanBytes = dig_MaxSpanBytes digest,
          proj_Fields = fields\<rparr>)"

subsection \<open>Lemmas\<close>

lemma merge_parts:
  "insp_Detections (foldl merge_part out parts) = insp_Detections out @ concat (map insp_Detections parts)"
  "insp_Coverage (foldl merge_part out parts) = insp_Coverage out @
     concat (map (\<lambda>p. filter (\<lambda>c. cov_Status c = COVERAGE_STATUS_ERROR) (insp_Coverage p)) parts)"
  "insp_Rejected (foldl merge_part out parts) \<longleftrightarrow> insp_Rejected out \<or> list_ex insp_Rejected parts"
  by (induction parts arbitrary: out) (auto simp: merge_part_def)

definition matching_prefix :: "string \<Rightarrow> TaxonomyRule \<Rightarrow> bool" where
  "matching_prefix i t \<longleftrightarrow> tax_RulePrefix t \<noteq> [] \<and> has_prefix i (tax_RulePrefix t)"

lemma better_prefix_cases:
  "better_prefix i best r =
     (case r of None \<Rightarrow> best | Some t \<Rightarrow>
        if matching_prefix i t \<and> (case best of None \<Rightarrow> True | Some b \<Rightarrow>
             length (tax_RulePrefix b) < length (tax_RulePrefix t)) then Some t else best)"
  by (auto simp: better_prefix_def matching_prefix_def split: option.splits)

lemma foldl_better_prefix:
  "case foldl (better_prefix i) best rules of
     None \<Rightarrow> best = None \<and> (\<forall>u. Some u \<in> set rules \<longrightarrow> \<not> matching_prefix i u)
   | Some t \<Rightarrow>
       (best = Some t \<or> (Some t \<in> set rules \<and> matching_prefix i t)) \<and>
       (\<forall>b. best = Some b \<longrightarrow> length (tax_RulePrefix b) \<le> length (tax_RulePrefix t)) \<and>
       (\<forall>u. Some u \<in> set rules \<longrightarrow> matching_prefix i u \<longrightarrow>
          length (tax_RulePrefix u) \<le> length (tax_RulePrefix t))"
proof (induction rules arbitrary: best)
  case Nil
  then show ?case by (simp split: option.splits)
next
  case (Cons r rules)
  define b where "b = better_prefix i best r"
  have b_src: "b = best \<or> (\<exists>t. r = Some t \<and> matching_prefix i t \<and> b = Some t)"
    and b_None: "b = None \<Longrightarrow> best = None \<and> (\<forall>u. r = Some u \<longrightarrow> \<not> matching_prefix i u)"
    and b_best: "best = Some c \<Longrightarrow> \<exists>d. b = Some d \<and> length (tax_RulePrefix c) \<le> length (tax_RulePrefix d)"
    and b_r: "r = Some u \<Longrightarrow> matching_prefix i u \<Longrightarrow>
                \<exists>d. b = Some d \<and> length (tax_RulePrefix u) \<le> length (tax_RulePrefix d)" for c u
    by (auto simp: b_def better_prefix_cases split: option.splits if_splits)
  have step: "foldl (better_prefix i) best (r # rules) = foldl (better_prefix i) b rules"
    by (simp add: b_def)
  show ?case
  proof (cases "foldl (better_prefix i) b rules")
    case None
    with Cons.IH [of b] b_None show ?thesis unfolding step by auto
  next
    case (Some t)
    with Cons.IH [of b] have t: "b = Some t \<or> (Some t \<in> set rules \<and> matching_prefix i t)"
      and ge_b: "\<And>d. b = Some d \<Longrightarrow> length (tax_RulePrefix d) \<le> length (tax_RulePrefix t)"
      and ge: "\<And>u. Some u \<in> set rules \<Longrightarrow> matching_prefix i u \<Longrightarrow> length (tax_RulePrefix u) \<le> length (tax_RulePrefix t)"
      by simp_all
    have "best = Some t \<or> (Some t \<in> set (r # rules) \<and> matching_prefix i t)"
      using t b_src by auto
    moreover have "length (tax_RulePrefix c) \<le> length (tax_RulePrefix t)" if "best = Some c" for c
      using b_best [OF that] ge_b order_trans by blast
    moreover have "length (tax_RulePrefix u) \<le> length (tax_RulePrefix t)"
      if "Some u \<in> set (r # rules)" and "matching_prefix i u" for u
      using that b_r [of u] ge_b ge order_trans by auto
    ultimately show ?thesis unfolding step using Some by simp
  qed
qed

subsection \<open>Properties\<close>

text \<open>
  Classification is exact match first, then longest prefix. For a rule id without an exact rule
  the class is that of a rule whose prefix matches and is at least as long as every other matching
  prefix, and unmapped exactly when no prefix matches.
\<close>

theorem MapAttackClass_longest_prefix:
  assumes "trim_space rid = i" and "i \<noteq> []" and "find (exact_rule i) (tax_Rules m) = None"
  shows "(\<exists>t. Some t \<in> set (tax_Rules m) \<and> matching_prefix i t \<and>
            MapAttackClass (Some m) rid = tax_AttackClass t \<and>
            (\<forall>u. Some u \<in> set (tax_Rules m) \<longrightarrow> matching_prefix i u \<longrightarrow>
               length (tax_RulePrefix u) \<le> length (tax_RulePrefix t)))
         \<or> (MapAttackClass (Some m) rid = ATTACK_CLASS_UNMAPPED \<and>
            (\<nexists>u. Some u \<in> set (tax_Rules m) \<and> matching_prefix i u))"
  using foldl_better_prefix [where i = i and best = None and rules = "tax_Rules m"] assms
  by (auto simp: MapAttackClass_def Let_def split: option.splits)

theorem MapAttackClass_longest_prefix_witness:
  "MapAttackClass (Some DefaultTaxonomyMapper) '' 942100 '' = ATTACK_CLASS_SQLI \<and>
   (\<exists>t. Some t \<in> set (tax_Rules DefaultTaxonomyMapper) \<and> matching_prefix ''942100'' t)"
proof -
  have eval: "MapAttackClass (Some DefaultTaxonomyMapper) '' 942100 '' = ATTACK_CLASS_SQLI"
    "trim_space '' 942100 '' = ''942100''"
    "find (exact_rule ''942100'') (tax_Rules DefaultTaxonomyMapper) = None"
    by (simp_all add: MapAttackClass_def trim_space_def is_space_def DefaultTaxonomyMapper_def
          exact_rule_def prefix_rule_def better_prefix_def has_prefix_def)
  with MapAttackClass_longest_prefix [OF eval(2) _ eval(3)] show ?thesis by auto
qed

text \<open>
  Merging inspectors loses nothing. The merged detections are all the inspectors' detections in
  order, the request counts as rejected when the view or any inspector rejects it, and it counts
  as free of findings exactly when neither the view nor any inspector reports an error and no
  inspector reports a detection.
\<close>

theorem MergeInspections_complete:
  "insp_Detections (MergeInspections view parts) = concat (map insp_Detections parts) \<and>
   insp_Rejected (MergeInspections view parts) = (view_Rejected view \<or> list_ex insp_Rejected parts) \<and>
   IsNoDetection (insp_Coverage (MergeInspections view parts)) (insp_Detections (MergeInspections view parts)) =
     (\<not> coverageHasError (view_Coverage view) \<and>
      list_all (\<lambda>p. \<not> coverageHasError (insp_Coverage p) \<and> insp_Detections p = []) parts)"
proof -
  have "list_ex (\<lambda>c. cov_Status c = COVERAGE_STATUS_ERROR)
          (concat (map (\<lambda>p. filter (\<lambda>c. cov_Status c = COVERAGE_STATUS_ERROR) (insp_Coverage p)) parts))
        \<longleftrightarrow> list_ex (\<lambda>p. coverageHasError (insp_Coverage p)) parts"
    by (auto simp: list_ex_iff coverageHasError_def)
  moreover have "list_all (\<lambda>p. \<not> coverageHasError (insp_Coverage p) \<and> insp_Detections p = []) parts \<longleftrightarrow>
      \<not> list_ex (\<lambda>p. coverageHasError (insp_Coverage p)) parts \<and> concat (map insp_Detections parts) = []"
    by (induction parts) auto
  ultimately show ?thesis
    by (simp add: MergeInspections_def merge_parts IsNoDetection_def coverageHasError_def)
qed

end
