(* ===== verification/Shape.thy ===== *)
theory Shape
  imports Inspection
begin

text \<open>
  Positive request shapes (\<^verbatim>\<open>src/lib/edgecore/shape.go\<close>): validation of a shape source, its
  compiled form, the selectors it reads and the violation test the gate uses. A view built by
  \<open>canonicalize\<close> always has a query map, so the selector's fallback for a nil map is not reached.
\<close>

subsection \<open>Sources and validation\<close>

record ShapeConstraint =
  con_Selector :: string
  con_MinLen :: int
  con_MaxLen :: int
  con_Charset :: string

record ShapeSource =
  shp_Methods :: "string list"
  shp_RouteTemplate :: string
  shp_PathPrefix :: string
  shp_Constraints :: "ShapeConstraint option list"

datatype shape_error =
    ShapeSourceRequired | ShapeMethodsRequired | ShapeScopeRequired | ShapePrefixTooWide
  | ShapeTooManySelectors | ShapeSelectorRequired | ShapeMissingMaxLen string
  | ShapeInvalidBounds string | ShapeCharsetAny | ShapeCharsetUnknown string
  | ShapeEmptyPayload | ShapePayloadTooLarge | ShapeParse

definition shapeMaxSourceBytes :: nat where "shapeMaxSourceBytes = 2048"
definition shapeMaxSelectors :: nat where "shapeMaxSelectors = 16"
definition shapeMinPrefixSegs :: nat where "shapeMinPrefixSegs = 2"

definition splitPath :: "string \<Rightarrow> string list" where
  "splitPath p = filter (\<lambda>part. part \<noteq> []) (split_on (CHR ''/'') p)"

definition pathSegmentCount :: "string \<Rightarrow> nat" where
  "pathSegmentCount p = length (filter (\<lambda>part. part \<noteq> []) (split_on (CHR ''/'') p))"

definition constraint_error :: "ShapeConstraint option \<Rightarrow> shape_error option" where
  "constraint_error arg =
     (case arg of
        None \<Rightarrow> Some ShapeSelectorRequired
      | Some c \<Rightarrow>
          if con_Selector c = [] then Some ShapeSelectorRequired
          else if con_MaxLen c \<le> 0 then Some (ShapeMissingMaxLen (con_Selector c))
          else if con_MinLen c < 0 \<or> con_MinLen c > con_MaxLen c then Some (ShapeInvalidBounds (con_Selector c))
          else if con_Charset c \<in> {[], ''ascii_print'', ''digit'', ''alpha'', ''hex'', ''uuid''} then None
          else if con_Charset c = ''any'' then Some ShapeCharsetAny
          else Some (ShapeCharsetUnknown (con_Charset c)))"

fun first_constraint_error :: "ShapeConstraint option list \<Rightarrow> shape_error option" where
  "first_constraint_error [] = None"
| "first_constraint_error (c # cs) =
     (case constraint_error c of Some e \<Rightarrow> Some e | None \<Rightarrow> first_constraint_error cs)"

definition ValidateShapeSource :: "ShapeSource option \<Rightarrow> shape_error option" where
  "ValidateShapeSource arg =
     (case arg of
        None \<Rightarrow> Some ShapeSourceRequired
      | Some src \<Rightarrow>
          if length (shp_Methods src) = 0 then Some ShapeMethodsRequired
          else if shp_RouteTemplate src = [] \<and> shp_PathPrefix src = [] then Some ShapeScopeRequired
          else if shp_PathPrefix src \<noteq> [] \<and>
               (shp_PathPrefix src = ''/'' \<or> pathSegmentCount (shp_PathPrefix src) < shapeMinPrefixSegs)
            then Some ShapePrefixTooWide
          else if length (shp_Constraints src) > shapeMaxSelectors then Some ShapeTooManySelectors
          else first_constraint_error (shp_Constraints src))"

definition shapeSourcePresent :: "ShapeSource \<Rightarrow> bool" where
  "shapeSourcePresent src \<longleftrightarrow> length (shp_Methods src) > 0 \<or> shp_RouteTemplate src \<noteq> [] \<or>
     shp_PathPrefix src \<noteq> [] \<or> length (shp_Constraints src) > 0"

text \<open>
  \<open>unwrap payload name\<close> stands for the JSON decoder on a wrapper with one raw member (error, or the
  member's bytes, empty when absent); \<open>decode\<close> for the protobuf JSON decoder.
\<close>

definition parseShapeSource ::
  "(bytes \<Rightarrow> ShapeSource option) \<Rightarrow> (bytes \<Rightarrow> string \<Rightarrow> bytes option) \<Rightarrow> bytes \<Rightarrow> shape_error + ShapeSource" where
  "parseShapeSource decode unwrap payload =
     (if length payload = 0 then Inl ShapeEmptyPayload
      else if length payload > shapeMaxSourceBytes then Inl ShapePayloadTooLarge
      else case (case decode payload of Some src \<Rightarrow> if shapeSourcePresent src then Some src else None
                                      | None \<Rightarrow> None) of
        Some src \<Rightarrow> Inr src
      | None \<Rightarrow>
          (case unwrap payload ''shapeSource'' of
             None \<Rightarrow> Inl ShapeParse
           | Some camel \<Rightarrow>
               (case (if camel = [] then unwrap payload ''shape_source'' else Some camel) of
                  None \<Rightarrow> Inl ShapeParse
                | Some inner \<Rightarrow>
                    if inner = [] then Inl ShapeParse
                    else (case decode inner of None \<Rightarrow> Inl ShapeParse | Some src \<Rightarrow> Inr src))))"

subsection \<open>Selectors and character sets\<close>

fun json_walk :: "json \<Rightarrow> string list \<Rightarrow> json option" where
  "json_walk cur [] = Some cur"
| "json_walk (JObj kvs) (part # parts) =
     (case map_of kvs part of None \<Rightarrow> None | Some next \<Rightarrow> json_walk next parts)"
| "json_walk cur (part # parts) = None"

definition trim_right :: "char \<Rightarrow> string \<Rightarrow> string" where
  "trim_right x s = rev (dropWhile (\<lambda>c. c = x) (rev s))"

definition jsonField :: "'a golib_scheme \<Rightarrow> bytes \<Rightarrow> string \<Rightarrow> string option" where
  "jsonField L body path =
     (if length body = 0 then None
      else case json_unmarshal L body of
        None \<Rightarrow> None
      | Some doc \<Rightarrow>
          (case json_walk doc (split_on (CHR ''.'') path) of
             Some (JStr v) \<Rightarrow> Some v
           | Some (JNum n) \<Rightarrow> Some (trim_right (CHR ''.'') (trim_right (CHR ''0'') n))
           | Some (JBool b) \<Rightarrow> Some (if b then ''true'' else ''false'')
           | _ \<Rightarrow> None))"

definition selectorValue :: "'a golib_scheme \<Rightarrow> string \<Rightarrow> Request \<Rightarrow> CanonicalView \<Rightarrow> string option" where
  "selectorValue L sel req view =
     (let (kind, name, ok) = cut (CHR ''.'') sel in
      if \<not> ok \<or> name = [] then None
      else if to_lower kind = ''query'' then
        (case map_of (view_Query view) name of
           None \<Rightarrow> None
         | Some vs \<Rightarrow> Some (case vs of [] \<Rightarrow> [] | v # _ \<Rightarrow> v))
      else if to_lower kind = ''header'' then
        (case map_of (view_Headers view) (httpCanonical name) of
           Some (v # vs) \<Rightarrow> Some v
         | _ \<Rightarrow>
             (case map_of (req_Headers req) name of
                Some v \<Rightarrow> Some v
              | None \<Rightarrow> map_of (req_Headers req) (httpCanonical name)))
      else if to_lower kind = ''json'' then jsonField L (view_Body view) name
      else None)"

definition hex_rune :: "nat \<Rightarrow> bool" where
  "hex_rune r \<longleftrightarrow> (48 \<le> r \<and> r \<le> 57) \<or> (97 \<le> r \<and> r \<le> 102) \<or> (65 \<le> r \<and> r \<le> 70)"

text \<open>The compiled UUID expression: 8-4-4-4-12 hexadecimal digits of either case.\<close>

definition uuidCharset :: "string \<Rightarrow> bool" where
  "uuidCharset val \<longleftrightarrow>
     length val = 36 \<and>
     list_all (\<lambda>i. if i \<in> {8, 13, 18, 23} then val ! i = CHR ''-'' else hex_rune (of_char (val ! i))) [0..<36]"

definition charsetOK :: "'a golib_scheme \<Rightarrow> string \<Rightarrow> string \<Rightarrow> bool" where
  "charsetOK L kind val \<longleftrightarrow>
     (if kind = [] \<or> kind = ''ascii_print'' then list_all (\<lambda>r. 32 \<le> r \<and> r \<le> 126) (runes val)
      else if kind = ''digit'' then list_all (is_digit L) (runes val)
      else if kind = ''alpha'' then list_all (is_letter L) (runes val)
      else if kind = ''hex'' then list_all hex_rune (runes val)
      else if kind = ''uuid'' then uuidCharset val
      else False)"

definition stringInFold :: "string list \<Rightarrow> string \<Rightarrow> bool" where
  "stringInFold xs want \<longleftrightarrow> list_ex (\<lambda>s. equal_fold s want) xs"

subsection \<open>Compiled shapes\<close>

record compiledShapeConstraint =
  cc_selector :: string
  cc_charset :: string
  cc_minLen :: int
  cc_maxLen :: int

record compiledShape =
  cs_methods :: "string list"
  cs_route :: "string list"
  cs_pathPrefix :: string
  cs_constraints :: "compiledShapeConstraint list"

definition compileShape :: "ShapeSource option \<Rightarrow> shape_error + compiledShape" where
  "compileShape arg =
     (case ValidateShapeSource arg of
        Some e \<Rightarrow> Inl e
      | None \<Rightarrow>
          (case arg of
             None \<Rightarrow> Inl ShapeSourceRequired
           | Some src \<Rightarrow>
               Inr \<lparr>cs_methods = map to_upper (shp_Methods src),
                    cs_route = (if shp_RouteTemplate src \<noteq> [] then splitPath (shp_RouteTemplate src) else []),
                    cs_pathPrefix = shp_PathPrefix src,
                    cs_constraints = map (\<lambda>c. \<lparr>cc_selector = con_Selector c, cc_charset = con_Charset c,
                       cc_minLen = con_MinLen c, cc_maxLen = con_MaxLen c\<rparr>)
                      (map the (filter (\<lambda>c. c \<noteq> None) (shp_Constraints src)))\<rparr>))"

fun segments_match :: "string list \<Rightarrow> string list \<Rightarrow> bool" where
  "segments_match [] [] = True"
| "segments_match (t # ts) (p # ps) =
     ((if has_prefix t ''{'' \<and> has_suffix t ''}'' then p \<noteq> [] else t = p) \<and> segments_match ts ps)"
| "segments_match _ _ = False"

definition compiledRouteMatch :: "string list \<Rightarrow> string \<Rightarrow> bool" where
  "compiledRouteMatch template path = segments_match template (splitPath path)"

definition routeTemplateMatch :: "string \<Rightarrow> string \<Rightarrow> bool" where
  "routeTemplateMatch tmpl path = segments_match (splitPath tmpl) (splitPath path)"

definition constraint_violated :: "'a golib_scheme \<Rightarrow> Request \<Rightarrow> CanonicalView \<Rightarrow> compiledShapeConstraint \<Rightarrow> bool" where
  "constraint_violated L req view c =
     (case selectorValue L (cc_selector c) req view of
        None \<Rightarrow> True
      | Some v \<Rightarrow> to_int32 (int (length v)) < cc_minLen c \<or> to_int32 (int (length v)) > cc_maxLen c
                  \<or> \<not> charsetOK L (cc_charset c) v)"

definition shape_in_scope :: "compiledShape \<Rightarrow> string \<Rightarrow> bool" where
  "shape_in_scope s path =
     (if length (cs_route s) > 0 then compiledRouteMatch (cs_route s) path
      else has_prefix path (cs_pathPrefix s))"

definition Violates :: "'a golib_scheme \<Rightarrow> compiledShape option \<Rightarrow> Request \<Rightarrow> CanonicalView \<Rightarrow> bool" where
  "Violates L shape req view =
     (case shape of
        None \<Rightarrow> False
      | Some s \<Rightarrow>
          (let path = (if view_Path view = [] then req_Path req else view_Path view);
               method = (if view_Method view = [] then to_upper (req_Method req) else view_Method view) in
           if \<not> shape_in_scope s path then False
           else if to_upper method \<notin> set (cs_methods s) then True
           else list_ex (constraint_violated L req view) (cs_constraints s)))"

definition ShapeViolates :: "'a golib_scheme \<Rightarrow> ShapeSource option \<Rightarrow> Request \<Rightarrow> CanonicalView \<Rightarrow> bool" where
  "ShapeViolates L src req view =
     (case compileShape src of Inl e \<Rightarrow> False | Inr compiled \<Rightarrow> Violates L (Some compiled) req view)"

definition EvaluateShapeViolation ::
  "'a inspectlib_scheme \<Rightarrow> ShapeSource option \<Rightarrow> Request \<Rightarrow> shape_error + bool" where
  "EvaluateShapeViolation P source req =
     (case compileShape source of
        Inl e \<Rightarrow> Inl e
      | Inr compiled \<Rightarrow>
          Inr (Violates P (Some compiled) req
            (Canonicalize P (req_Method req) (req_Path req) (req_Query req) (req_Headers req) (req_Body req)
               (Some DefaultInspectionProfile))))"

subsection \<open>Lemmas\<close>

lemma first_constraint_error_None:
  "first_constraint_error cs = None \<longleftrightarrow> list_all (\<lambda>c. constraint_error c = None) cs"
  by (induction cs) (auto split: option.splits)

lemma valid_constraint:
  assumes "constraint_error c = None"
  obtains k where "c = Some k" and "con_Selector k \<noteq> []" and "0 \<le> con_MinLen k"
    and "con_MinLen k \<le> con_MaxLen k" and "0 < con_MaxLen k"
  using assms by (auto simp: constraint_error_def split: option.splits if_splits)

lemma splitPath_not_Nil: "[] \<notin> set (splitPath p)"
  by (simp add: splitPath_def)

lemma splitPath_normalizePath: "splitPath (normalizePath p) = foldl push_segment [] (split_on (CHR ''/'') p)"
proof -
  let ?segs = "foldl push_segment [] (split_on (CHR ''/'') p)"
  have clean: "list_all clean_segment ?segs"
    by (intro foldl_push_clean) (auto dest: split_on_no_sep)
  have "normalizePath p = ''/'' @ join_with ''/'' ?segs"
    by (auto simp: normalizePath_def push_segment_def)
  moreover have "filter (\<lambda>part. part \<noteq> []) ?segs = ?segs"
    using clean by (auto simp: filter_id_conv clean_segment_def list_all_iff)
  ultimately show ?thesis
    by (simp only: splitPath_def split_clean_path [OF clean]) auto
qed

text \<open>A request meets one constraint: the selected value is present, in bounds and in its set.\<close>

definition meets :: "'a golib_scheme \<Rightarrow> Request \<Rightarrow> CanonicalView \<Rightarrow> ShapeConstraint \<Rightarrow> bool" where
  "meets L req view k \<longleftrightarrow>
     (\<exists>v. selectorValue L (con_Selector k) req view = Some v \<and> con_MinLen k \<le> int (length v) \<and>
        int (length v) \<le> con_MaxLen k \<and> charsetOK L (con_Charset k) v)"

definition effective_path :: "Request \<Rightarrow> CanonicalView \<Rightarrow> string" where
  "effective_path req view = (if view_Path view = [] then req_Path req else view_Path view)"

definition effective_method :: "Request \<Rightarrow> CanonicalView \<Rightarrow> string" where
  "effective_method req view =
     to_upper (if view_Method view = [] then to_upper (req_Method req) else view_Method view)"

definition source_in_scope :: "ShapeSource \<Rightarrow> string \<Rightarrow> bool" where
  "source_in_scope src path =
     (if splitPath (shp_RouteTemplate src) \<noteq> [] then routeTemplateMatch (shp_RouteTemplate src) path
      else has_prefix path (shp_PathPrefix src))"

lemma constraint_violated_iff:
  assumes small: "\<And>v. selectorValue L (con_Selector k) req view = Some v \<Longrightarrow> length v < 2 ^ 31"
  shows "constraint_violated L req view \<lparr>cc_selector = con_Selector k, cc_charset = con_Charset k,
           cc_minLen = con_MinLen k, cc_maxLen = con_MaxLen k\<rparr> \<longleftrightarrow> \<not> meets L req view k"
proof (cases "selectorValue L (con_Selector k) req view")
  case None
  then show ?thesis by (simp add: constraint_violated_def meets_def)
next
  case (Some v)
  with small have "to_int32 (int (length v)) = int (length v)" by (simp add: to_int32_id)
  with Some show ?thesis by (auto simp: constraint_violated_def meets_def)
qed

lemma splitPath_Nil [simp]: "splitPath [] = []"
  by (simp add: splitPath_def)

lemma valid_source_fields:
  assumes "ValidateShapeSource (Some src) = None"
  shows "shp_Methods src \<noteq> []" and "list_all (\<lambda>c. constraint_error c = None) (shp_Constraints src)"
    and "shp_PathPrefix src \<noteq> [] \<Longrightarrow> 2 \<le> pathSegmentCount (shp_PathPrefix src)"
    and "length (shp_Constraints src) \<le> 16"
  using assms
  by (auto simp: ValidateShapeSource_def first_constraint_error_None shapeMinPrefixSegs_def
        shapeMaxSelectors_def split: if_splits)

subsection \<open>Properties\<close>

text \<open>
  C34: a validated shape blocks exactly the requests in its scope (its route template, or its path
  prefix when the template has no segment) whose method is not listed or that miss one of its
  constraints; requests outside the scope are never blocked. Values shorter than two gigabytes.
\<close>

theorem ShapeViolates_iff:
  assumes valid: "ValidateShapeSource (Some src) = None"
    and small: "\<And>sel v. selectorValue L sel req view = Some v \<Longrightarrow> length v < 2 ^ 31"
  shows "ShapeViolates L (Some src) req view \<longleftrightarrow>
           source_in_scope src (effective_path req view) \<and>
           (effective_method req view \<notin> to_upper ` set (shp_Methods src) \<or>
            (\<exists>k. Some k \<in> set (shp_Constraints src) \<and> \<not> meets L req view k))"
proof -
  let ?cc = "\<lambda>k. \<lparr>cc_selector = con_Selector k, cc_charset = con_Charset k,
                 cc_minLen = con_MinLen k, cc_maxLen = con_MaxLen k\<rparr>"
  have "list_ex (constraint_violated L req view)
          (map ?cc (map the (filter (\<lambda>c. c \<noteq> None) (shp_Constraints src)))) \<longleftrightarrow>
        (\<exists>k. Some k \<in> set (shp_Constraints src) \<and> constraint_violated L req view (?cc k))"
    by (force simp: list_ex_iff)
  also have "\<dots> \<longleftrightarrow> (\<exists>k. Some k \<in> set (shp_Constraints src) \<and> \<not> meets L req view k)"
    using constraint_violated_iff small by metis
  finally show ?thesis
    by (auto simp: ShapeViolates_def compileShape_def valid Violates_def Let_def shape_in_scope_def
          source_in_scope_def compiledRouteMatch_def routeTemplateMatch_def effective_path_def
          effective_method_def)
qed

text \<open>
  The width check of the validator has a hole: a shape whose route template is a bare slash
  passes validation although it has neither a route segment nor a prefix, and it then covers every
  path of the asset: each request whose method is not listed is blocked.
\<close>

theorem root_template_shape_covers_everything:
  "ValidateShapeSource (Some \<lparr>shp_Methods = [''GET''], shp_RouteTemplate = ''/'', shp_PathPrefix = [],
     shp_Constraints = []\<rparr>) = None \<and>
   ShapeViolates L (Some \<lparr>shp_Methods = [''GET''], shp_RouteTemplate = ''/'', shp_PathPrefix = [],
     shp_Constraints = []\<rparr>) req view = (effective_method req view \<noteq> ''GET'')"
proof -
  have "splitPath ''/'' = []" and "to_upper ''GET'' = ''GET''"
    by (simp_all add: splitPath_def to_upper_def upper_char_def)
  then show ?thesis
    by (auto simp: ValidateShapeSource_def shapeMaxSelectors_def ShapeViolates_def compileShape_def
          Violates_def shape_in_scope_def effective_method_def Let_def)
qed

text \<open>
  Scope cannot be evaded by spelling. On a normalised path a route template sees exactly the
  segments that normalisation computed, so two spellings with the same normal form match the same
  templates, and a template without placeholders matches exactly its own segments.
\<close>

theorem route_match_on_normalised_path:
  "routeTemplateMatch tmpl (normalizePath p) =
     segments_match (splitPath tmpl) (foldl push_segment [] (split_on (CHR ''/'') p)) \<and>
   (list_all (\<lambda>t. \<not> has_prefix t ''{'') (splitPath tmpl) \<longrightarrow>
      routeTemplateMatch tmpl (normalizePath p) = (splitPath tmpl = splitPath (normalizePath p)))"
proof -
  have lit: "list_all (\<lambda>t. \<not> has_prefix t ''{'') ts \<Longrightarrow> segments_match ts ps \<longleftrightarrow> ts = ps" for ts ps
    by (induction ts ps rule: segments_match.induct) auto
  show ?thesis
    by (simp add: routeTemplateMatch_def splitPath_normalizePath lit)
qed

subsection \<open>Witnesses\<close>

definition demo_shape :: ShapeSource where
  "demo_shape = \<lparr>shp_Methods = [''get''], shp_RouteTemplate = ''/api/{id}'', shp_PathPrefix = [],
     shp_Constraints = [Some \<lparr>con_Selector = ''query.id'', con_MinLen = 1, con_MaxLen = 8,
       con_Charset = ''digit''\<rparr>]\<rparr>"

definition plain_view :: "string \<Rightarrow> string \<Rightarrow> CanonicalView" where
  "plain_view m p = \<lparr>view_Method = m, view_Path = p, view_Query = [], view_Headers = [], view_Body = [],
     view_Host = [], view_Rejected = False, view_Coverage = [], view_ProfileDigest = []\<rparr>"

definition plain_request :: Request where
  "plain_request = \<lparr>req_AssetID = [], req_UnitID = [], req_Method = [], req_Path = [], req_Query = [],
     req_Headers = [], req_Body = [], req_ClientAddress = None\<rparr>"

lemma plain_selector [simp]: "selectorValue L sel plain_request (plain_view m p) = None"
  by (simp add: selectorValue_def plain_request_def plain_view_def jsonField_def Let_def split: prod.splits)

theorem ShapeViolates_iff_witness:
  "ShapeViolates demo_protolib (Some demo_shape) plain_request (plain_view ''GET'' ''/api/7'') \<and>
   \<not> ShapeViolates demo_protolib (Some demo_shape) plain_request (plain_view ''GET'' ''/other'')"
proof -
  have valid: "ValidateShapeSource (Some demo_shape) = None"
    by (simp add: ValidateShapeSource_def demo_shape_def shapeMaxSelectors_def constraint_error_def)
  have iff: "ShapeViolates demo_protolib (Some demo_shape) plain_request (plain_view ''GET'' p) \<longleftrightarrow>
      source_in_scope demo_shape p" if "p \<noteq> []" for p
  proof -
    have "ShapeViolates demo_protolib (Some demo_shape) plain_request (plain_view ''GET'' p) \<longleftrightarrow>
        source_in_scope demo_shape (effective_path plain_request (plain_view ''GET'' p)) \<and>
        (effective_method plain_request (plain_view ''GET'' p) \<notin> to_upper ` set (shp_Methods demo_shape) \<or>
         (\<exists>k. Some k \<in> set (shp_Constraints demo_shape) \<and> \<not> meets demo_protolib plain_request (plain_view ''GET'' p) k))"
      by (rule ShapeViolates_iff [OF valid]) simp
    moreover have "effective_path plain_request (plain_view ''GET'' p) = p"
      using that by (simp add: effective_path_def plain_view_def)
    moreover have "\<exists>k. Some k \<in> set (shp_Constraints demo_shape) \<and>
        \<not> meets demo_protolib plain_request (plain_view ''GET'' p) k"
      by (simp add: meets_def demo_shape_def)
    ultimately show ?thesis by simp
  qed
  have "source_in_scope demo_shape ''/api/7''" and "\<not> source_in_scope demo_shape ''/other''"
    by (simp_all add: source_in_scope_def demo_shape_def routeTemplateMatch_def splitPath_def
          has_prefix_def has_suffix_def)
  then show ?thesis by (simp add: iff)
qed

theorem route_match_on_normalised_path_witness:
  "routeTemplateMatch ''/a/b'' (normalizePath ''/a//./b'')"
proof -
  have "list_all (\<lambda>t. \<not> has_prefix t ''{'') (splitPath ''/a/b'')"
    by (simp add: splitPath_def has_prefix_def)
  with route_match_on_normalised_path [of "''/a/b''" "''/a//./b''"] show ?thesis
    by (simp add: splitPath_normalizePath splitPath_def push_segment_def)
qed

end
