(* ===== verification/Policy.thy ===== *)
theory Policy
  imports Shape
begin

text \<open>
  Detection-key policies (\<^verbatim>\<open>src/lib/edgecore/evaluate.go\<close>) and the mapping of a verdict and the
  ingress posture to an HTTP status (\<^verbatim>\<open>status.go\<close>).
\<close>

subsection \<open>Policy candidates\<close>

record PolicyScope =
  psc_AssetId :: string
  psc_Hosts :: "string list"
  psc_RouteTemplate :: string
  psc_PathPrefix :: string
  psc_Methods :: "string list"
  psc_ContentTypes :: "string list"
  psc_TargetSelectors :: "string list"

record PolicyPredicate =
  prd_DetectionKeys :: "DetectionKey option list"
  prd_MinAnomalyScore :: real
  prd_RequireMatchPresent :: bool
  prd_CoverageRequirement :: coverage_status

record PolicyDependencies =
  dep_DetectorManifestDigest :: string
  dep_NormalizerProfileDigest :: string
  dep_MinEdgeVersion :: string

record PolicyCandidate =
  cand_PolicyId :: string
  cand_Scope :: "PolicyScope option"
  cand_Predicate :: "PolicyPredicate option"
  cand_Action :: string
  cand_Dependencies :: "PolicyDependencies option"

definition detectionMatchesKey :: "Detection \<Rightarrow> DetectionKey \<Rightarrow> bool" where
  "detectionMatchesKey d key \<longleftrightarrow>
     (if key_RuleId key \<noteq> [] \<and> det_RuleID d \<noteq> key_RuleId key then False
      else if key_DetectorId key \<noteq> [] \<and> det_InspectorID d \<noteq> key_DetectorId key then False
      else if key_DetectorVersion key \<noteq> [] \<and> det_Version d \<noteq> key_DetectorVersion key then False
      else if key_DetectorManifestDigest key \<noteq> [] \<and> det_ManifestDigest d \<noteq> key_DetectorManifestDigest key
        then False
      else if key_Phase key \<noteq> [] \<and> det_Phase d \<noteq> key_Phase key then False
      else if key_TargetLocation key \<noteq> INSPECTION_SURFACE_UNSPECIFIED \<and>
              det_Location d \<noteq> key_TargetLocation key then False
      else if key_TargetSelector key \<noteq> [] \<and> det_Selector d \<noteq> key_TargetSelector key then False
      else if key_NormalizationProfileDigest key \<noteq> [] \<and>
              det_ProfileDigest d \<noteq> key_NormalizationProfileDigest key then False
      else key_RuleId key \<noteq> [] \<or> key_DetectorId key \<noteq> [])"

definition PolicyMatchesDetectionKey ::
  "Detection list \<Rightarrow> DetectionKey option \<Rightarrow> bool \<Rightarrow> Coverage list \<Rightarrow> bool" where
  "PolicyMatchesDetectionKey found arg requireFull cov =
     (case arg of
        None \<Rightarrow> False
      | Some key \<Rightarrow>
          (let loc = key_TargetLocation key in
           if loc \<noteq> INSPECTION_SURFACE_UNSPECIFIED \<and> requireFull \<and>
              CoverageOf cov loc \<noteq> COVERAGE_STATUS_FULL then False
           else if loc \<noteq> INSPECTION_SURFACE_UNSPECIFIED \<and> loc = INSPECTION_SURFACE_BODY \<and>
              CoverageOf cov loc = COVERAGE_STATUS_ABSENT then False
           else list_ex (\<lambda>d. detectionMatchesKey d key) found))"

definition PolicyMatchesKey ::
  "Detection list \<Rightarrow> string \<Rightarrow> inspection_surface \<Rightarrow> bool \<Rightarrow> Coverage list \<Rightarrow> bool" where
  "PolicyMatchesKey found wantRule loc requireFull cov =
     PolicyMatchesDetectionKey found
       (Some \<lparr>key_DetectorId = [], key_DetectorVersion = [], key_DetectorManifestDigest = [],
              key_RuleId = wantRule, key_Phase = [], key_TargetLocation = loc, key_TargetSelector = [],
              key_NormalizationProfileDigest = []\<rparr>) requireFull cov"

definition headerFirst :: "CanonicalView \<Rightarrow> Request \<Rightarrow> string \<Rightarrow> string" where
  "headerFirst view req name =
     (case map_of (view_Headers view) (httpCanonical name) of
        Some (v # vs) \<Rightarrow> v
      | _ \<Rightarrow>
          (case map_of (req_Headers req) name of
             Some (c # cs) \<Rightarrow> c # cs
           | _ \<Rightarrow> (case map_of (req_Headers req) (httpCanonical name) of Some v \<Rightarrow> v | None \<Rightarrow> [])))"

definition scope_host :: "Request \<Rightarrow> CanonicalView \<Rightarrow> string" where
  "scope_host req view =
     (let get = (\<lambda>k. case map_of (req_Headers req) k of Some v \<Rightarrow> v | None \<Rightarrow> []);
          host = (if view_Host view = [] then (if get ''host'' = [] then get ''Host'' else get ''host'')
                  else view_Host view)
      in takeWhile (\<lambda>c. c \<noteq> CHR '':'') host)"

definition scope_content_type :: "Request \<Rightarrow> CanonicalView \<Rightarrow> string" where
  "scope_content_type req view =
     (let ct = headerFirst view req ''content-type'' in
      if CHR '';'' \<in> set ct then trim_space (takeWhile (\<lambda>c. c \<noteq> CHR '';'') ct) else ct)"

definition PolicyScopeMatches ::
  "'a golib_scheme \<Rightarrow> PolicyScope option \<Rightarrow> Request \<Rightarrow> CanonicalView \<Rightarrow> bool" where
  "PolicyScopeMatches L arg req view =
     (case arg of
        None \<Rightarrow> True
      | Some scope \<Rightarrow>
          (let path = (if view_Path view = [] then req_Path req else view_Path view);
               method = (if view_Method view = [] then to_upper (req_Method req) else view_Method view) in
           if psc_AssetId scope \<noteq> [] \<and> req_AssetID req \<noteq> [] \<and> psc_AssetId scope \<noteq> req_AssetID req then False
           else if length (psc_Hosts scope) > 0 \<and> \<not> stringInFold (psc_Hosts scope) (scope_host req view) then False
           else if psc_RouteTemplate scope \<noteq> [] \<and> \<not> routeTemplateMatch (psc_RouteTemplate scope) path then False
           else if psc_PathPrefix scope \<noteq> [] \<and> \<not> has_prefix path (psc_PathPrefix scope) then False
           else if length (psc_Methods scope) > 0 \<and> \<not> stringInFold (psc_Methods scope) method then False
           else if length (psc_ContentTypes scope) > 0 \<and>
                \<not> stringInFold (psc_ContentTypes scope) (scope_content_type req view) then False
           else list_all (\<lambda>sel. selectorValue L sel req view \<noteq> None) (psc_TargetSelectors scope)))"

definition maxDetectionScore :: "Detection list \<Rightarrow> real" where
  "maxDetectionScore found = foldl (\<lambda>m d. if det_Score d > m then det_Score d else m) 0 found"

definition PolicyCandidateBlocksOn ::
  "'a golib_scheme \<Rightarrow> PolicyCandidate option \<Rightarrow> Detection list \<Rightarrow> CanonicalView \<Rightarrow> Request \<Rightarrow> bool" where
  "PolicyCandidateBlocksOn L arg found view req =
     (case arg of
        None \<Rightarrow> False
      | Some cand \<Rightarrow>
          (case cand_Predicate cand of
             None \<Rightarrow> False
           | Some pr \<Rightarrow>
               if cand_Action cand = ''log'' then False
               else if \<not> PolicyScopeMatches L (cand_Scope cand) req view then False
               else if prd_MinAnomalyScore pr > 0 \<and> maxDetectionScore found < prd_MinAnomalyScore pr then False
               else
                 (let requireFull = (prd_CoverageRequirement pr = COVERAGE_STATUS_FULL);
                      hit = list_ex (\<lambda>key. PolicyMatchesDetectionKey found key requireFull (view_Coverage view))
                              (prd_DetectionKeys pr) in
                  if prd_RequireMatchPresent pr \<or> length (prd_DetectionKeys pr) > 0 then
                    (if \<not> prd_RequireMatchPresent pr \<and> requireFull then \<not> hit else hit)
                  else False)))"

definition PolicyCandidateBlocks ::
  "'a golib_scheme \<Rightarrow> PolicyCandidate option \<Rightarrow> Detection list \<Rightarrow> CanonicalView \<Rightarrow> bool" where
  "PolicyCandidateBlocks L cand found view =
     PolicyCandidateBlocksOn L cand found view
       \<lparr>req_AssetID = [], req_UnitID = [], req_Method = [], req_Path = [], req_Query = [],
        req_Headers = [], req_Body = [], req_ClientAddress = None\<rparr>"

definition PolicyCandidateApplies ::
  "'a golib_scheme \<Rightarrow> PolicyCandidate option \<Rightarrow> Request \<Rightarrow> CanonicalView \<Rightarrow> bool" where
  "PolicyCandidateApplies L arg req view =
     (case arg of None \<Rightarrow> False | Some cand \<Rightarrow> PolicyScopeMatches L (cand_Scope cand) req view)"

text \<open>\<open>int32\<close> arithmetic, as written.\<close>

definition AutoCanaryAllowed :: "int \<Rightarrow> int \<Rightarrow> bool" where
  "AutoCanaryAllowed boundUnits percent =
     (if percent \<le> 0 then False
      else boundUnits \<ge> to_int32 (go_div (to_int32 (to_int32 (100 + percent) - 1)) percent))"

subsection \<open>Postures and status codes\<close>

definition Intercepts :: "ingress_posture \<Rightarrow> bool" where
  "Intercepts p \<longleftrightarrow> p = INGRESS_POSTURE_REVERSE_PROXY \<or> p = INGRESS_POSTURE_EXT_AUTHZ"

definition Observes :: "ingress_posture \<Rightarrow> bool" where
  "Observes p \<longleftrightarrow> p = INGRESS_POSTURE_TAP_ALERT \<or> p = INGRESS_POSTURE_MIRROR_OBSERVE"

definition ResolvePosture :: "ingress_posture \<Rightarrow> ingress_posture" where
  "ResolvePosture p =
     (if p = INGRESS_POSTURE_UNSPECIFIED then INGRESS_POSTURE_REVERSE_PROXY else p)"

record StatusInput =
  st_Posture :: ingress_posture
  st_GateAction :: Action
  st_View :: CanonicalView
  st_Oversize :: bool
  st_BodyPresent :: bool
  st_EngineCrash :: bool
  st_MissingRequestID :: bool
  st_InFlightExceeded :: bool
  st_ExtAuthzTimeout :: bool

definition HTTPStatus :: "StatusInput \<Rightarrow> int \<times> bool" where
  "HTTPStatus inp =
     (let posture = ResolvePosture (st_Posture inp);
          would = (st_GateAction inp = ActionBlock) in
      if Observes posture then (200, would)
      else if st_InFlightExceeded inp then (503, False)
      else if st_MissingRequestID inp \<or> st_EngineCrash inp then
        (if posture = INGRESS_POSTURE_EXT_AUTHZ then (200, False) else (503, False))
      else if posture = INGRESS_POSTURE_EXT_AUTHZ \<and> st_ExtAuthzTimeout inp then (200, False)
      else if st_Oversize inp \<and> posture = INGRESS_POSTURE_REVERSE_PROXY then (413, False)
      else if st_Oversize inp \<and> posture = INGRESS_POSTURE_EXT_AUTHZ then
        (if st_BodyPresent inp then (403, False) else (200, False))
      else if (view_Rejected (st_View inp) \<or> coverageHasError (view_Coverage (st_View inp))) \<and>
              posture = INGRESS_POSTURE_REVERSE_PROXY then (400, False)
      else if (view_Rejected (st_View inp) \<or> coverageHasError (view_Coverage (st_View inp))) \<and>
              posture = INGRESS_POSTURE_EXT_AUTHZ then (403, False)
      else if st_GateAction inp = ActionBlock then (403, True)
      else (200, would))"

fun mark_body :: "int \<Rightarrow> int \<Rightarrow> Coverage list \<Rightarrow> Coverage list option" where
  "mark_body inspected known [] = None"
| "mark_body inspected known (c # cs) =
     (if cov_Target c = INSPECTION_SURFACE_BODY then
        Some (c\<lparr>cov_Status := COVERAGE_STATUS_PARTIAL, cov_Inspected := inspected, cov_Total := known\<rparr> # cs)
      else map_option ((#) c) (mark_body inspected known cs))"

definition MarkBodyPartial :: "CanonicalView \<Rightarrow> int \<Rightarrow> int \<Rightarrow> CanonicalView" where
  "MarkBodyPartial view inspected known =
     (case mark_body inspected known (view_Coverage view) of
        Some cov \<Rightarrow> view\<lparr>view_Coverage := cov\<rparr>
      | None \<Rightarrow>
          view\<lparr>view_Coverage := view_Coverage view @
            [\<lparr>cov_Target = INSPECTION_SURFACE_BODY, cov_Status = COVERAGE_STATUS_PARTIAL,
              cov_Inspected = inspected, cov_Total = known\<rparr>]\<rparr>)"

subsection \<open>Lemmas\<close>

lemma foldl_max_score:
  "m \<le> foldl (\<lambda>m d. if det_Score d > m then det_Score d else m) m found \<and>
   (\<forall>d \<in> set found. det_Score d \<le> foldl (\<lambda>m d. if det_Score d > m then det_Score d else m) m found)"
proof (induction found arbitrary: m)
  case Nil
  then show ?case by simp
next
  case (Cons d found)
  then show ?case using Cons.IH [of "if det_Score d > m then det_Score d else m"] by fastforce
qed

lemma detectionMatchesKey_identifies:
  "detectionMatchesKey d key \<Longrightarrow>
     (key_RuleId key \<noteq> [] \<and> det_RuleID d = key_RuleId key) \<or>
     (key_DetectorId key \<noteq> [] \<and> det_InspectorID d = key_DetectorId key)"
  by (auto simp: detectionMatchesKey_def split: if_splits)

lemma PolicyMatchesDetectionKey_found:
  "PolicyMatchesDetectionKey found key full cov \<Longrightarrow>
     \<exists>k d. key = Some k \<and> d \<in> set found \<and> detectionMatchesKey d k"
  by (auto simp: PolicyMatchesDetectionKey_def Let_def list_ex_iff split: option.splits if_splits)

definition positive_predicate :: "PolicyPredicate \<Rightarrow> bool" where
  "positive_predicate pr \<longleftrightarrow>
     prd_RequireMatchPresent pr \<or> prd_CoverageRequirement pr \<noteq> COVERAGE_STATUS_FULL"

subsection \<open>Properties\<close>


definition demo_key_policy :: PolicyCandidate where
  "demo_key_policy = \<lparr>cand_PolicyId = ''p1'', cand_Scope = None, cand_Predicate = Some
     \<lparr>prd_DetectionKeys = [Some \<lparr>key_DetectorId = [], key_DetectorVersion = [],
        key_DetectorManifestDigest = [], key_RuleId = ''942100'', key_Phase = [],
        key_TargetLocation = INSPECTION_SURFACE_UNSPECIFIED, key_TargetSelector = [],
        key_NormalizationProfileDigest = []\<rparr>],
      prd_MinAnomalyScore = 0, prd_RequireMatchPresent = True,
      prd_CoverageRequirement = COVERAGE_STATUS_UNSPECIFIED\<rparr>, cand_Action = ''block'', cand_Dependencies = None\<rparr>"

definition demo_detection :: Detection where
  "demo_detection = \<lparr>det_InspectorID = ''crs'', det_RuleID = ''942100'', det_Class = ATTACK_CLASS_SQLI,
     det_Score = 5, det_Location = INSPECTION_SURFACE_QUERY, det_Selector = [], det_Phase = [],
     det_Version = [], det_ManifestDigest = [], det_ProfileDigest = []\<rparr>"



definition demo_body_key :: DetectionKey where
  "demo_body_key = \<lparr>key_DetectorId = [], key_DetectorVersion = [], key_DetectorManifestDigest = [],
     key_RuleId = ''942100'', key_Phase = [], key_TargetLocation = INSPECTION_SURFACE_BODY,
     key_TargetSelector = [], key_NormalizationProfileDigest = []\<rparr>"

definition demo_negative_predicate :: PolicyPredicate where
  "demo_negative_predicate = \<lparr>prd_DetectionKeys = [Some demo_body_key], prd_MinAnomalyScore = 0,
     prd_RequireMatchPresent = False, prd_CoverageRequirement = COVERAGE_STATUS_FULL\<rparr>"


text \<open>
  Status codes respect the posture. An observing posture always answers 200; a 403 is written
  only by an intercepting posture (unrecognised posture numbers aside); the would-have-blocked flag is raised
  only for a gate block; and in the reverse proxy a request the gate blocks never gets 200.
\<close>

theorem HTTPStatus_posture:
  "case HTTPStatus inp of (code, would) \<Rightarrow>
     (Observes (ResolvePosture (st_Posture inp)) \<longrightarrow> code = 200) \<and>
     (code = 403 \<longrightarrow> Intercepts (ResolvePosture (st_Posture inp)) \<or> (\<exists>n. st_Posture inp = INGRESS_POSTURE_other n)) \<and>
     (would \<longrightarrow> st_GateAction inp = ActionBlock) \<and>
     (st_GateAction inp = ActionBlock \<longrightarrow> ResolvePosture (st_Posture inp) = INGRESS_POSTURE_REVERSE_PROXY \<longrightarrow> code \<noteq> 200)"
  by (cases "st_Posture inp")
     (simp_all add: HTTPStatus_def Let_def ResolvePosture_def Observes_def Intercepts_def)

theorem HTTPStatus_posture_witness:
  "Observes (ResolvePosture INGRESS_POSTURE_TAP_ALERT) \<and>
   fst (HTTPStatus \<lparr>st_Posture = INGRESS_POSTURE_TAP_ALERT, st_GateAction = ActionBlock,
     st_View = plain_view ''GET'' ''/'', st_Oversize = True, st_BodyPresent = True, st_EngineCrash = True,
     st_MissingRequestID = True, st_InFlightExceeded = True, st_ExtAuthzTimeout = True\<rparr>) = 200"
  using HTTPStatus_posture [of "\<lparr>st_Posture = INGRESS_POSTURE_TAP_ALERT, st_GateAction = ActionBlock,
     st_View = plain_view ''GET'' ''/'', st_Oversize = True, st_BodyPresent = True, st_EngineCrash = True,
     st_MissingRequestID = True, st_InFlightExceeded = True, st_ExtAuthzTimeout = True\<rparr>"]
  by (simp add: Observes_def ResolvePosture_def split: prod.splits)

text \<open>
  A canary needs enough units to form a proper bucket: for a percentage from 1 to 100 the gate
  opens exactly when the bound units times the percentage reach one hundred, the same bound that
  \<open>CanaryMinUnits\<close> states, and it never opens for a percentage of zero or less.
\<close>

theorem AutoCanaryAllowed_iff:
  assumes "percent \<le> 100"
  shows "AutoCanaryAllowed units percent = (1 \<le> percent \<and> 100 \<le> units * percent) \<and>
         AutoCanaryAllowed units percent = (1 \<le> percent \<and> CanaryMinUnits percent \<le> units)"
proof (cases "1 \<le> percent")
  case True
  then have "AutoCanaryAllowed units percent \<longleftrightarrow> CanaryMinUnits percent \<le> units"
    by (simp add: AutoCanaryAllowed_def CanaryMinUnits_def Let_def)
  moreover have "CanaryMinUnits percent = (99 + percent) div percent"
    using CanaryMinUnits_ceiling True assms by simp
  ultimately show ?thesis using True ceil_hundred_le_iff [OF True] by simp
next
  case False
  then show ?thesis by (simp add: AutoCanaryAllowed_def)
qed

theorem AutoCanaryAllowed_iff_witness:
  "AutoCanaryAllowed 20 5 \<and> \<not> AutoCanaryAllowed 19 5 \<and> CanaryMinUnits 5 = 20"
  using AutoCanaryAllowed_iff [of 5 20] AutoCanaryAllowed_iff [of 5 19]
  by (simp add: CanaryMinUnits_ceiling)

end
