(* ===== verification/Rules.thy ===== *)
theory Rules
  imports Policy Signer
begin

text \<open>
  Rule detectors and the single-mode engine (\<^verbatim>\<open>src/lib/edgecore/rule.go\<close>, \<^verbatim>\<open>engine.go\<close>,
  \<^verbatim>\<open>scope.go\<close>), canary buckets (\<^verbatim>\<open>canary.go\<close>) . A
  detector is a rule detector, one narrowed to a path prefix, or another implementation of the
  interface given by its evaluation function, which like every evaluation returns a verdict and,
  if it failed, the text of its error.
\<close>

subsection \<open>Rules\<close>

record Rule =
  rule_ID :: string
  rule_Pattern :: string
  rule_Target :: string

record RuleDetector =
  rd_id :: string
  rd_rules :: "Rule list" \<comment> \<open>each with its pattern compiled\<close>

datatype rule_error =
    EmptyRuleSet | EmptyRuleID | DuplicateRuleID string | EmptyPattern string | UnknownTarget string string
  | PatternDoesNotCompile string

fun check_rules :: "'a golib_scheme \<Rightarrow> string list \<Rightarrow> Rule list \<Rightarrow> rule_error option" where
  "check_rules L seen [] = None"
| "check_rules L seen (r # rs) =
     (if rule_ID r = [] then Some EmptyRuleID
      else if rule_ID r \<in> set seen then Some (DuplicateRuleID (rule_ID r))
      else if rule_Pattern r = [] then Some (EmptyPattern (rule_ID r))
      else if rule_Target r \<noteq> [] \<and> rule_Target r \<noteq> ''path'' \<and> rule_Target r \<noteq> ''query'' \<and> rule_Target r \<noteq> ''body''
        then Some (UnknownTarget (rule_ID r) (rule_Target r))
      else if \<not> regexp_compiles L (rule_Pattern r) then Some (PatternDoesNotCompile (rule_ID r))
      else check_rules L (rule_ID r # seen) rs)"

definition NewRuleDetector :: "'a golib_scheme \<Rightarrow> string \<Rightarrow> Rule list \<Rightarrow> rule_error + RuleDetector" where
  "NewRuleDetector L i rules =
     (if length rules = 0 then Inl EmptyRuleSet
      else case check_rules L [] rules of
        Some e \<Rightarrow> Inl e
      | None \<Rightarrow> Inr \<lparr>rd_id = i, rd_rules = rules\<rparr>)"

definition decodedQuery :: "string \<Rightarrow> string" where
  "decodedQuery q = (case QueryUnescape q of Some dec \<Rightarrow> dec | None \<Rightarrow> q)"

definition targetString :: "string \<Rightarrow> Request \<Rightarrow> string" where
  "targetString target req =
     (if target = ''path'' then req_Path req
      else if target = ''query'' then decodedQuery (req_Query req)
      else if target = ''body'' then req_Body req
      else req_Path req @ '' '' @ decodedQuery (req_Query req) @ '' '' @ req_Body req)"

definition rule_hits :: "'a golib_scheme \<Rightarrow> Request \<Rightarrow> Rule \<Rightarrow> bool" where
  "rule_hits L req r \<longleftrightarrow> regexp_match L (rule_Pattern r) (targetString (rule_Target r) req)"

definition RuleDetector_Match :: "'a golib_scheme \<Rightarrow> RuleDetector option \<Rightarrow> Request \<Rightarrow> string option" where
  "RuleDetector_Match L d req =
     (case d of
        None \<Rightarrow> None
      | Some d \<Rightarrow> map_option rule_ID (find (rule_hits L req) (rd_rules d)))"

definition ruleDetection :: "string \<Rightarrow> string \<Rightarrow> Request \<Rightarrow> Detection" where
  "ruleDetection inspectorID ruleID req =
     \<lparr>det_InspectorID = inspectorID, det_RuleID = ruleID, det_Class = ATTACK_CLASS_UNSPECIFIED,
      det_Score = 1,
      det_Location = (if length (req_Body req) > 0 \<and> req_Query req = [] then INSPECTION_SURFACE_BODY
                      else if req_Query req \<noteq> [] then INSPECTION_SURFACE_QUERY
                      else INSPECTION_SURFACE_PATH),
      det_Selector = [], det_Phase = [], det_Version = [], det_ManifestDigest = [], det_ProfileDigest = []\<rparr>"

definition RuleDetector_Inspect :: "'a golib_scheme \<Rightarrow> RuleDetector \<Rightarrow> CanonicalView \<Rightarrow> Inspection" where
  "RuleDetector_Inspect L d view =
     \<lparr>insp_Detections =
        (case RuleDetector_Match L (Some d) (RequestFromView view) of
           None \<Rightarrow> []
         | Some i \<Rightarrow> [ruleDetection (rd_id d) i (RequestFromView view)]),
      insp_Coverage = view_Coverage view, insp_Rejected = view_Rejected view\<rparr>"

subsection \<open>Verdicts and the engine\<close>

record Verdict =
  ver_DetectorID :: string
  ver_Action :: Action
  ver_RuleID :: string
  ver_Confidence :: real
  ver_Message :: string

definition zero_verdict :: Verdict where
  "zero_verdict = \<lparr>ver_DetectorID = [], ver_Action = ActionAllow, ver_RuleID = [], ver_Confidence = 0,
     ver_Message = []\<rparr>"

datatype detector =
    RuleBased RuleDetector
  | ScopedDetector detector string
  | OtherDetector string "Request \<Rightarrow> Verdict \<times> string option"

fun det_id :: "detector \<Rightarrow> string" where
  "det_id (RuleBased d) = rd_id d"
| "det_id (ScopedDetector inner pre) = det_id inner"
| "det_id (OtherDetector i f) = i"

definition NewScoped :: "detector \<Rightarrow> string \<Rightarrow> detector" where
  "NewScoped inner pre = (if pre = [] then inner else ScopedDetector inner pre)"

definition RuleDetector_Evaluate :: "'a golib_scheme \<Rightarrow> RuleDetector \<Rightarrow> Request \<Rightarrow> Verdict" where
  "RuleDetector_Evaluate L d req =
     (case RuleDetector_Match L (Some d) req of
        Some i \<Rightarrow> \<lparr>ver_DetectorID = [], ver_Action = ActionBlock, ver_RuleID = i, ver_Confidence = 1,
                   ver_Message = ''matched rule '' @ i\<rparr>
      | None \<Rightarrow> zero_verdict)"

fun detector_Evaluate :: "'a golib_scheme \<Rightarrow> detector \<Rightarrow> Request \<Rightarrow> Verdict \<times> string option" where
  "detector_Evaluate L (RuleBased d) req = (RuleDetector_Evaluate L d req, None)"
| "detector_Evaluate L (ScopedDetector inner pre) req =
     (if \<not> has_prefix (req_Path req) pre then (zero_verdict, None) else detector_Evaluate L inner req)"
| "detector_Evaluate L (OtherDetector i f) req = f req"

text \<open>\<open>None\<close> when the detector has no \<open>Match\<close> method; otherwise its answer.\<close>

fun detector_Match :: "'a golib_scheme \<Rightarrow> detector \<Rightarrow> Request \<Rightarrow> string option option" where
  "detector_Match L (RuleBased d) req = Some (RuleDetector_Match L (Some d) req)"
| "detector_Match L (ScopedDetector inner pre) req =
     (if \<not> has_prefix (req_Path req) pre then Some None
      else case detector_Match L inner req of
        Some answer \<Rightarrow> Some answer
      | None \<Rightarrow>
          Some (let v = fst (detector_Evaluate L inner req) in
                if ver_Action v = ActionBlock then Some (ver_RuleID v) else None))"
| "detector_Match L (OtherDetector i f) req = None"

fun MatchRules :: "'a golib_scheme \<Rightarrow> detector list \<Rightarrow> Request \<Rightarrow> Verdict option" where
  "MatchRules L [] req = None"
| "MatchRules L (d # ds) req =
     (case detector_Match L d req of
        Some (Some i) \<Rightarrow>
          Some \<lparr>ver_DetectorID = det_id d, ver_Action = ActionBlock, ver_RuleID = i, ver_Confidence = 1,
                ver_Message = ''matched rule '' @ i\<rparr>
      | Some None \<Rightarrow> MatchRules L ds req
      | None \<Rightarrow>
          (case detector_Evaluate L d req of
             (v, Some err) \<Rightarrow> MatchRules L ds req
           | (v, None) \<Rightarrow>
               if ver_Action v = ActionBlock then Some (v\<lparr>ver_DetectorID := det_id d\<rparr>)
               else MatchRules L ds req))"

definition Engine_Check :: "'a golib_scheme \<Rightarrow> detector list \<Rightarrow> Request \<Rightarrow> Verdict list" where
  "Engine_Check L ds req =
     map (\<lambda>d. (case detector_Evaluate L d req of
                 (v, Some err) \<Rightarrow> zero_verdict\<lparr>ver_Action := ActionObserve, ver_Message := ''detector error: '' @ err\<rparr>
               | (v, None) \<Rightarrow> v)\<lparr>ver_DetectorID := det_id d\<rparr>) ds"

definition Decide :: "release_mode \<Rightarrow> Verdict list \<Rightarrow> Action" where
  "Decide mode verdicts =
     (if \<not> list_ex (\<lambda>v. ver_Action v = ActionBlock) verdicts then ActionAllow
      else if mode = RELEASE_MODE_ENFORCE \<or> mode = RELEASE_MODE_CANARY then ActionBlock
      else ActionObserve)"

subsection \<open>Artifact scope\<close>

definition ScopeCoversAsset :: "scope option \<Rightarrow> string \<Rightarrow> bool" where
  "ScopeCoversAsset s assetID =
     (case s of
        None \<Rightarrow> True
      | Some sc \<Rightarrow> if length (scope_asset_ids sc) = 0 then True else assetID \<in> set (scope_asset_ids sc))"

definition ScopePrefix :: "scope option \<Rightarrow> string" where
  "ScopePrefix s = (case s of None \<Rightarrow> [] | Some sc \<Rightarrow> scope_route_selector sc)"

subsection \<open>Canary buckets\<close>

definition canaryBucket :: "'a golib_scheme \<Rightarrow> bytes \<Rightarrow> int \<Rightarrow> bool" where
  "canaryBucket L key percent =
     (if percent \<le> 0 then False
      else if percent \<ge> 100 then True
      else get_uint_be (take 8 (sha256 L key)) mod 10000 < nat percent * 100)"

definition CanarySelected :: "'a golib_scheme \<Rightarrow> string \<Rightarrow> int \<Rightarrow> bool" where
  "CanarySelected L requestID percent = canaryBucket L requestID percent"

definition CanarySelectedUnit :: "'a golib_scheme \<Rightarrow> string \<Rightarrow> string \<Rightarrow> int \<Rightarrow> bool" where
  "CanarySelectedUnit L unitID releaseID percent =
     canaryBucket L (unitID @ [CHR 0x00] @ releaseID) percent"

subsection \<open>Lemmas\<close>

definition blocks :: "'a golib_scheme \<Rightarrow> detector \<Rightarrow> Request \<Rightarrow> bool" where
  "blocks L d req \<longleftrightarrow> snd (detector_Evaluate L d req) = None \<and> ver_Action (fst (detector_Evaluate L d req)) = ActionBlock"

text \<open>The Go convention on errors: a failed evaluation carries no blocking verdict.\<close>

fun conventional :: "Request \<Rightarrow> detector \<Rightarrow> bool" where
  "conventional req (RuleBased d) = True"
| "conventional req (ScopedDetector inner pre) = conventional req inner"
| "conventional req (OtherDetector i f) = (snd (f req) \<noteq> None \<longrightarrow> ver_Action (fst (f req)) \<noteq> ActionBlock)"

lemma zero_verdict_allows [simp]: "ver_Action zero_verdict = ActionAllow"
  by (simp add: zero_verdict_def)

lemma blocks_simps:
  "blocks L (RuleBased r) req \<longleftrightarrow> RuleDetector_Match L (Some r) req \<noteq> None"
  "blocks L (ScopedDetector inner pre) req \<longleftrightarrow> has_prefix (req_Path req) pre \<and> blocks L inner req"
  "blocks L (OtherDetector i f) req \<longleftrightarrow> snd (f req) = None \<and> ver_Action (fst (f req)) = ActionBlock"
  by (auto simp: blocks_def RuleDetector_Evaluate_def split: option.splits)

lemma blocks_conventional:
  "conventional req d \<Longrightarrow> blocks L d req \<longleftrightarrow> ver_Action (fst (detector_Evaluate L d req)) = ActionBlock"
  by (induction d) (auto simp: blocks_simps RuleDetector_Evaluate_def split: option.splits)

text \<open>A detector with a \<open>Match\<close> method answers it exactly when its evaluation blocks.\<close>

lemma detector_Match_blocks:
  "detector_Match L d req = Some answer \<Longrightarrow> conventional req d \<Longrightarrow> answer \<noteq> None \<longleftrightarrow> blocks L d req"
proof (induction d arbitrary: answer)
  case (ScopedDetector inner pre)
  then show ?case
    by (auto simp: blocks_simps Let_def blocks_conventional split: if_splits option.splits)
qed (auto simp: blocks_simps)

lemma MatchRules_iff:
  "list_all (conventional req) ds \<Longrightarrow> MatchRules L ds req \<noteq> None \<longleftrightarrow> list_ex (\<lambda>d. blocks L d req) ds"
proof (induction ds)
  case (Cons d ds)
  show ?case
  proof (cases "detector_Match L d req")
    case None
    with Cons show ?thesis
      by (cases "detector_Evaluate L d req"; cases "snd (detector_Evaluate L d req)") (simp_all add: blocks_def)
  next
    case (Some answer)
    with Cons detector_Match_blocks [OF Some] show ?thesis by (cases answer) auto
  qed
qed simp

lemma check_rules_None:
  "check_rules L seen rules = None \<longleftrightarrow>
     distinct (map rule_ID rules) \<and> set (map rule_ID rules) \<inter> set seen = {} \<and>
     list_all (\<lambda>r. rule_ID r \<noteq> [] \<and> rule_Pattern r \<noteq> [] \<and> regexp_compiles L (rule_Pattern r) \<and>
        rule_Target r \<in> {[], ''path'', ''query'', ''body''}) rules"
  by (induction rules arbitrary: seen) auto

subsection \<open>Properties\<close>

text \<open>
  The gate-side matcher and the engine agree. For any detectors that keep Go's convention on
  errors, including ones narrowed to a path prefix, the gate finds a matching rule exactly when an
  enforcing single-mode proxy would block the request; a shadow or unspecified mode never blocks.
\<close>

theorem MatchRules_agrees_with_engine:
  assumes "list_all (conventional req) ds"
  shows "(MatchRules L ds req \<noteq> None) = (Decide RELEASE_MODE_ENFORCE (Engine_Check L ds req) = ActionBlock) \<and>
   Decide RELEASE_MODE_SHADOW (Engine_Check L ds req) \<noteq> ActionBlock \<and>
   Decide RELEASE_MODE_UNSPECIFIED (Engine_Check L ds req) \<noteq> ActionBlock"
proof -
  have "list_ex (\<lambda>v. ver_Action v = ActionBlock) (Engine_Check L ds req) \<longleftrightarrow> list_ex (\<lambda>d. blocks L d req) ds"
    by (induction ds) (auto simp: Engine_Check_def blocks_def split: option.splits prod.splits)
  then show ?thesis unfolding MatchRules_iff [OF assms] by (simp add: Decide_def)
qed

definition demo_request :: Request where
  "demo_request = RequestFromView (plain_view ''GET'' ''/admin/users'')"

definition demo_detectors :: "detector list" where
  "demo_detectors =
     [OtherDetector ''broken'' (\<lambda>_. (zero_verdict, Some ''timeout'')),
      ScopedDetector (OtherDetector ''strict'' (\<lambda>_. (zero_verdict\<lparr>ver_Action := ActionBlock\<rparr>, None))) ''/admin'']"

theorem MatchRules_agrees_with_engine_witness:
  "list_all (conventional demo_request) demo_detectors \<and>
   (MatchRules demo_protolib demo_detectors demo_request \<noteq> None) =
     (Decide RELEASE_MODE_ENFORCE (Engine_Check demo_protolib demo_detectors demo_request) = ActionBlock)"
  using MatchRules_agrees_with_engine [of demo_request demo_detectors demo_protolib]
  by (simp add: demo_detectors_def)

text \<open>
  A rule set is accepted exactly when it is non-empty, its ids are distinct and non-empty, and
  every rule has a non-empty pattern that compiles and a known target; the detector then reports
  the first rule that matches.
\<close>

theorem NewRuleDetector_accepts_iff:
  "(\<exists>d. NewRuleDetector L i rules = Inr d) =
     (rules \<noteq> [] \<and> distinct (map rule_ID rules) \<and>
      list_all (\<lambda>r. rule_ID r \<noteq> [] \<and> rule_Pattern r \<noteq> [] \<and> regexp_compiles L (rule_Pattern r) \<and>
        rule_Target r \<in> {[], ''path'', ''query'', ''body''}) rules)"
  using check_rules_None [of L "[]" rules]
  by (auto simp: NewRuleDetector_def split: option.splits)

text \<open>
  Canary selection is monotone in the percentage: raising it never drops a unit that was
  already selected, zero selects nobody and one hundred everybody.
\<close>

theorem canary_monotone:
  assumes "p \<le> q"
  shows "(CanarySelectedUnit L unit rel p \<longrightarrow> CanarySelectedUnit L unit rel q) \<and>
         \<not> CanarySelectedUnit L unit rel 0 \<and> CanarySelectedUnit L unit rel 100"
  using assms by (auto simp: CanarySelectedUnit_def canaryBucket_def)

theorem canary_monotone_witness:
  "CanarySelectedUnit demo_protolib ''u'' ''r'' 100 \<and> \<not> CanarySelectedUnit demo_protolib ''u'' ''r'' 0"
  using canary_monotone [of 5 25 demo_protolib "''u''" "''r''"] by simp

end
