(* ===== verification/Registry.thy ===== *)
theory Registry
  imports Rules "HOL-Library.AList"
begin

text \<open>
  The synchronous inspectors a generation selects: the compile-time registry with its cache
  (\<^verbatim>\<open>src/lib/edgecore/registry.go\<close>), running them on one view (\<open>inspectWith\<close> of
  \<^verbatim>\<open>release_set.go\<close>), the traffic review policy and the forward policy
  (\<^verbatim>\<open>traffic_review.go\<close>, \<^verbatim>\<open>digest.go\<close>). The process-wide registry is a state that
  every operation that compiles an inspector receives and returns. The Coraza engine is
  third-party: its constructor is a parameter of the core-rule-set factory.
\<close>

subsection \<open>Inspectors and manifests\<close>

record InspectionInput =
  in_View :: CanonicalView
  in_ClientAddress :: "ip_addr option"

text \<open>An inspector answers with an inspection and whether it failed.\<close>

record Inspector =
  ins_ID :: string
  ins_Inspect :: "InspectionInput \<Rightarrow> Inspection \<times> bool"

record DetectorManifest =
  man_DetectorId :: string
  man_Version :: string
  man_TarballSha256 :: string
  man_GoModule :: string
  man_Paranoia :: int
  man_IncludeFiles :: "string list"

datatype registry_error =
    ManifestIncomplete | NotRegistered string | UnsupportedCRSVersion string | CRSDigestMismatch
  | FactoryFailed string

type_synonym InspectorFactory = "DetectorManifest option \<Rightarrow> registry_error + Inspector"

record registry =
  inspectorFactories :: "(string \<times> InspectorFactory) list"
  inspectorCache :: "(string \<times> Inspector) list"

text \<open>\<open>None\<close> is a nil factory.\<close>

definition RegisterInspector :: "string \<Rightarrow> InspectorFactory option \<Rightarrow> registry \<Rightarrow> registry" where
  "RegisterInspector i f reg =
     (case f of
        None \<Rightarrow> reg
      | Some g \<Rightarrow>
          if i = [] then reg else reg\<lparr>inspectorFactories := AList.update i g (inspectorFactories reg)\<rparr>)"

definition LookupInspector :: "registry \<Rightarrow> string \<Rightarrow> InspectorFactory option" where
  "LookupInspector reg i = map_of (inspectorFactories reg) i"

definition cache_key :: "DetectorManifest \<Rightarrow> string" where
  "cache_key m = man_DetectorId m @ ''@'' @ man_Version m @ ''@'' @ man_TarballSha256 m"

definition CompileInspector ::
  "registry \<Rightarrow> DetectorManifest option \<Rightarrow> (registry_error + Inspector) \<times> registry" where
  "CompileInspector reg manifest =
     (case manifest of
        None \<Rightarrow> (Inl ManifestIncomplete, reg)
      | Some m \<Rightarrow>
          if man_DetectorId m = [] then (Inl ManifestIncomplete, reg)
          else case LookupInspector reg (man_DetectorId m) of
            None \<Rightarrow> (Inl (NotRegistered (man_DetectorId m)), reg)
          | Some f \<Rightarrow>
              (case map_of (inspectorCache reg) (cache_key m) of
                 Some ins \<Rightarrow> (Inr ins, reg)
               | None \<Rightarrow>
                   (case f manifest of
                      Inl e \<Rightarrow> (Inl e, reg)
                    | Inr ins \<Rightarrow>
                        (Inr ins, reg\<lparr>inspectorCache := AList.update (cache_key m) ins (inspectorCache reg)\<rparr>))))"

definition CRSVersion :: string where "CRSVersion = ''4.25.0''"

definition CRSTarballSHA256 :: string where
  "CRSTarballSHA256 = ''10370cad9f461e64abfa2fbf371a48e65715078b8acc81c3f5140c09618aee6a''"

definition compileCRS :: "(registry_error + Inspector) \<Rightarrow> InspectorFactory" where
  "compileCRS newCoraza manifest =
     (case manifest of
        None \<Rightarrow> newCoraza
      | Some m \<Rightarrow>
          if man_Version m \<noteq> [] \<and> man_Version m \<noteq> CRSVersion then Inl (UnsupportedCRSVersion (man_Version m))
          else if man_TarballSha256 m \<noteq> [] \<and> man_TarballSha256 m \<noteq> CRSTarballSHA256 then Inl CRSDigestMismatch
          else newCoraza)"

definition initial_registry :: "(registry_error + Inspector) \<Rightarrow> registry" where
  "initial_registry newCoraza =
     RegisterInspector ''crs'' (Some (compileCRS newCoraza)) \<lparr>inspectorFactories = [], inspectorCache = []\<rparr>"

definition run_inspector :: "InspectionInput \<Rightarrow> Inspector \<Rightarrow> Inspection" where
  "run_inspector input ins =
     (let (p, failed) = ins_Inspect ins input in
      if failed
      then p\<lparr>insp_Coverage := view_Coverage (in_View input) @ [CoverageError INSPECTION_SURFACE_QUERY]\<rparr>
      else p)"

definition inspectWith :: "Inspector list \<Rightarrow> TaxonomyMapper option \<Rightarrow> InspectionInput \<Rightarrow> Inspection" where
  "inspectWith inspectors mapper input =
     (let out = MergeInspections (in_View input) (map (run_inspector input) inspectors) in
      out\<lparr>insp_Detections := ApplyTaxonomy (insp_Detections out) mapper\<rparr>)"

subsection \<open>Traffic review and forward policies\<close>

datatype forward_policy_kind =
    FORWARD_POLICY_KIND_UNSPECIFIED | FORWARD_POLICY_KIND_NONE | FORWARD_POLICY_KIND_WORKER_SCORE
  | FORWARD_POLICY_KIND_MODELGW_SCORE | FORWARD_POLICY_KIND_AGENT_INVESTIGATE | FORWARD_POLICY_KIND_other int

definition DefaultForwardKind :: "forward_policy_kind \<Rightarrow> forward_policy_kind" where
  "DefaultForwardKind k =
     (if k = FORWARD_POLICY_KIND_UNSPECIFIED then FORWARD_POLICY_KIND_WORKER_SCORE else k)"

text \<open>The mode is compared by number: off is 1 and shadow candidates 5.\<close>

record TrafficReviewPolicy =
  trp_WindowSeconds :: int
  trp_TopRouteCells :: int
  trp_MaxCandidatesPerWindow :: int
  trp_MaxEvidenceBytes :: int
  trp_VaultMaxBytes :: int
  trp_EvidenceTtlSeconds :: int
  trp_Mode :: int

definition TRAFFIC_REVIEW_MODE_OFF :: int where "TRAFFIC_REVIEW_MODE_OFF = 1"
definition TRAFFIC_REVIEW_MODE_STATISTICS_ONLY :: int where "TRAFFIC_REVIEW_MODE_STATISTICS_ONLY = 2"
definition TRAFFIC_REVIEW_MODE_SHADOW_CANDIDATES :: int where "TRAFFIC_REVIEW_MODE_SHADOW_CANDIDATES = 5"

datatype review_error =
    ReviewPolicyRequired | ReviewModeInvalid | ReviewWindow | ReviewTopRoutes | ReviewCandidates
  | ReviewEvidenceBytes | ReviewVaultBytes | ReviewEvidenceTTL

definition ValidateTrafficReviewPolicy :: "TrafficReviewPolicy option \<Rightarrow> review_error option" where
  "ValidateTrafficReviewPolicy arg =
     (case arg of
        None \<Rightarrow> Some ReviewPolicyRequired
      | Some p \<Rightarrow>
          if trp_Mode p < TRAFFIC_REVIEW_MODE_OFF \<or> trp_Mode p > TRAFFIC_REVIEW_MODE_SHADOW_CANDIDATES
            then Some ReviewModeInvalid
          else if trp_Mode p = TRAFFIC_REVIEW_MODE_OFF then None
          else if trp_WindowSeconds p \<noteq> TrafficReviewWindow div Second then Some ReviewWindow
          else if trp_TopRouteCells p < 1 \<or> trp_TopRouteCells p > int TrafficReviewTopRoutes then Some ReviewTopRoutes
          else if trp_MaxCandidatesPerWindow p < 1 \<or> trp_MaxCandidatesPerWindow p > int TrafficReviewCandidatesPerWindow
            then Some ReviewCandidates
          else if trp_MaxEvidenceBytes p < 1 \<or> trp_MaxEvidenceBytes p > int TrafficReviewEvidenceBytes
            then Some ReviewEvidenceBytes
          else if trp_VaultMaxBytes p < trp_MaxEvidenceBytes p \<or> trp_VaultMaxBytes p > int TrafficReviewVaultBytes
            then Some ReviewVaultBytes
          else if trp_EvidenceTtlSeconds p < Hour div Second \<or>
                  trp_EvidenceTtlSeconds p > TrafficReviewEvidenceTTL div Second then Some ReviewEvidenceTTL
          else None)"

definition DefaultTrafficReviewPolicy :: TrafficReviewPolicy where
  "DefaultTrafficReviewPolicy =
     \<lparr>trp_WindowSeconds = TrafficReviewWindow div Second, trp_TopRouteCells = int TrafficReviewTopRoutes,
      trp_MaxCandidatesPerWindow = int TrafficReviewCandidatesPerWindow,
      trp_MaxEvidenceBytes = int TrafficReviewEvidenceBytes, trp_VaultMaxBytes = int TrafficReviewVaultBytes,
      trp_EvidenceTtlSeconds = TrafficReviewEvidenceTTL div Second, trp_Mode = TRAFFIC_REVIEW_MODE_OFF\<rparr>"

subsection \<open>Lemmas\<close>

text \<open>The registry as the process starts it: one factory, and a cache of what it built.\<close>

definition cache_entry :: "(registry_error + Inspector) \<Rightarrow> string \<Rightarrow> Inspector \<Rightarrow> bool" where
  "cache_entry newCoraza k ins \<longleftrightarrow>
     newCoraza = Inr ins \<and>
     (\<exists>m. k = cache_key m \<and> man_DetectorId m = ''crs'' \<and> compileCRS newCoraza (Some m) = Inr ins)"

definition crs_registry :: "(registry_error + Inspector) \<Rightarrow> registry \<Rightarrow> bool" where
  "crs_registry newCoraza reg \<longleftrightarrow>
     inspectorFactories reg = [(''crs'', compileCRS newCoraza)] \<and>
     (\<forall>k ins. map_of (inspectorCache reg) k = Some ins \<longrightarrow> cache_entry newCoraza k ins)"

lemma cache_entryI:
  "compileCRS newCoraza (Some m) = Inr ins \<Longrightarrow> man_DetectorId m = ''crs'' \<Longrightarrow> cache_entry newCoraza (cache_key m) ins"
  by (auto simp: cache_entry_def compileCRS_def split: if_splits)

lemma initial_registry_ok: "crs_registry newCoraza (initial_registry newCoraza)"
  by (simp add: crs_registry_def initial_registry_def RegisterInspector_def)

text \<open>Accepted manifests have version and digest without the separator, so their key is unambiguous.\<close>

lemma accepted_key_unique:
  assumes "compileCRS newCoraza (Some m) = Inr ins" and "newCoraza = Inr ins'"
    and "man_DetectorId m = ''crs''" "man_DetectorId m' = ''crs''" and "cache_key m' = cache_key m"
  shows "man_Version m' = man_Version m \<and> man_TarballSha256 m' = man_TarballSha256 m"
proof -
  have "CHR ''@'' \<notin> set (man_Version m)" and "CHR ''@'' \<notin> set (man_TarballSha256 m)"
    using assms(1) by (auto simp: compileCRS_def CRSVersion_def CRSTarballSHA256_def split: if_splits)
  moreover have "man_Version m @ CHR ''@'' # man_TarballSha256 m = man_Version m' @ CHR ''@'' # man_TarballSha256 m'"
    using assms(3-5) by (simp add: cache_key_def)
  ultimately show ?thesis by (simp add: append_Cons_eq_iff)
qed

lemma CompileInspector_crs:
  assumes "crs_registry newCoraza reg"
  shows "fst (CompileInspector reg (Some m)) =
     (if man_DetectorId m = [] then Inl ManifestIncomplete
      else if man_DetectorId m \<noteq> ''crs'' then Inl (NotRegistered (man_DetectorId m))
      else compileCRS newCoraza (Some m))"
proof (cases "man_DetectorId m = ''crs'' \<and> map_of (inspectorCache reg) (cache_key m) \<noteq> None")
  case True
  then obtain ins where hit: "map_of (inspectorCache reg) (cache_key m) = Some ins" by auto
  with assms have "cache_entry newCoraza (cache_key m) ins" by (simp add: crs_registry_def)
  then obtain m0 where "newCoraza = Inr ins"
    "cache_key m = cache_key m0" "man_DetectorId m0 = ''crs''" "compileCRS newCoraza (Some m0) = Inr ins"
    by (auto simp: cache_entry_def)
  then have "compileCRS newCoraza (Some m) = Inr ins"
    using accepted_key_unique [of newCoraza m0 ins ins m] True
    by (auto simp: compileCRS_def split: if_splits)
  with True hit assms show ?thesis
    by (simp add: CompileInspector_def LookupInspector_def crs_registry_def)
next
  case False
  with assms show ?thesis
    by (auto simp: CompileInspector_def LookupInspector_def crs_registry_def split: option.splits sum.splits)
qed

lemma CompileInspector_keeps:
  assumes "crs_registry newCoraza reg"
  shows "crs_registry newCoraza (snd (CompileInspector reg arg))"
proof (cases arg)
  case None
  with assms show ?thesis by (simp add: CompileInspector_def)
next
  case (Some m)
  with assms show ?thesis
    by (auto simp: CompileInspector_def LookupInspector_def crs_registry_def cache_entryI update_conv'
          split: option.splits sum.splits if_splits)
qed

interpretation registry_machine: machine "\<lambda>reg m. snd (CompileInspector reg m)" "crs_registry newCoraza"
  for newCoraza
  by unfold_locales (rule CompileInspector_keeps)

subsection \<open>Properties\<close>

text \<open>
  C26: the inspector cache is transparent. After any sequence of compilations, compiling a manifest
  gives what the core-rule-set factory gives on that very manifest: a manifest with a foreign
  version or digest is refused even when the inspector it resembles is cached, and an unknown
  detector never falls back to a cached one.
\<close>

theorem inspector_cache_transparent:
  "fst (CompileInspector (foldl (\<lambda>reg m. snd (CompileInspector reg m)) (initial_registry newCoraza) history) (Some m)) =
     (if man_DetectorId m = [] then Inl ManifestIncomplete
      else if man_DetectorId m \<noteq> ''crs'' then Inl (NotRegistered (man_DetectorId m))
      else compileCRS newCoraza (Some m))"
  by (rule CompileInspector_crs) (rule registry_machine.run_invar [OF initial_registry_ok])

end
