(* ===== verification/Release_Gate.thy ===== *)
theory Release_Gate
  imports Registry "HOL-Library.Multiset"
begin

text \<open>
  The gate of a release set (\<open>gateWith\<close>, its helpers and the per-release counters of
  \<^verbatim>\<open>src/lib/edgecore/release_set.go\<close>). Counters are unsigned 64-bit values that wrap. A map of
  counter pointers is an association list; adding to a counter the map lacks does nothing, as on
  a nil pointer in the code.
\<close>

subsection \<open>Counters\<close>

record counter =
  cnt_requests :: nat
  cnt_blocks :: nat
  cnt_observe :: nat
  cnt_canarySel :: nat
  cnt_latencies :: "nat list"

definition new_counter :: counter where
  "new_counter = \<lparr>cnt_requests = 0, cnt_blocks = 0, cnt_observe = 0, cnt_canarySel = 0, cnt_latencies = []\<rparr>"

definition add64 :: "nat \<Rightarrow> bool \<Rightarrow> nat" where
  "add64 n on = (if on then (n + 1) mod 2 ^ 64 else n)"

definition accountRelease :: "Action \<Rightarrow> bool \<Rightarrow> counter \<Rightarrow> counter" where
  "accountRelease action selected c =
     c\<lparr>cnt_requests := add64 (cnt_requests c) True,
       cnt_blocks := add64 (cnt_blocks c) (action = ActionBlock),
       cnt_observe := add64 (cnt_observe c) (action = ActionObserve),
       cnt_canarySel := add64 (cnt_canarySel c) selected\<rparr>"

definition latencySampleCap :: nat where "latencySampleCap = 256"

definition record_latency :: "nat \<Rightarrow> counter \<Rightarrow> counter" where
  "record_latency micros c =
     (let kept = (if length (cnt_latencies c) \<ge> latencySampleCap then tl (cnt_latencies c) else cnt_latencies c) in
      c\<lparr>cnt_latencies := kept @ [micros]\<rparr>)"

definition p99 :: "counter \<Rightarrow> nat" where
  "p99 c =
     (let n = length (cnt_latencies c) in
      if n = 0 then 0
      else let cp = sort (cnt_latencies c); idx = (n * 99) div 100; idx = (if idx \<ge> n then n - 1 else idx) in
        cp ! idx)"

subsection \<open>Managed releases and decisions\<close>

record managedRelease =
  mr_releaseID :: string
  mr_artifactID :: string
  mr_detector :: "RuleDetector option"
  mr_prefix :: string
  mr_policy :: "PolicyCandidate option"
  mr_shape :: "compiledShape option"
  mr_mode :: release_mode
  mr_canaryPercent :: int
  mr_expiresAt :: instant

definition ruleMatch :: "'a golib_scheme \<Rightarrow> managedRelease \<Rightarrow> Request \<Rightarrow> string option" where
  "ruleMatch L r req =
     (if mr_detector r = None then None
      else if mr_prefix r \<noteq> [] \<and> \<not> has_prefix (req_Path req) (mr_prefix r) then None
      else RuleDetector_Match L (mr_detector r) req)"

record ReleaseObservation =
  obs_ReleaseID :: string
  obs_ArtifactID :: string
  obs_Mode :: release_mode
  obs_CanaryPercent :: int
  obs_CanarySelected :: bool
  obs_Matched :: bool

record Decision =
  dec_Action :: Action
  dec_WouldHaveBlocked :: bool
  dec_Verdicts :: "Verdict list"
  dec_Observations :: "ReleaseObservation list"
  dec_Detections :: "Detection list"
  dec_Inspection :: Inspection
  dec_Posture :: ingress_posture
  dec_GenerationID :: string
  dec_GenerationSeq :: int

definition actionForMode :: "release_mode \<Rightarrow> bool \<Rightarrow> bool \<Rightarrow> Action" where
  "actionForMode mode matched selected =
     (if \<not> matched then ActionAllow
      else case mode of
        RELEASE_MODE_ENFORCE \<Rightarrow> ActionBlock
      | RELEASE_MODE_CANARY \<Rightarrow> if selected then ActionBlock else ActionObserve
      | _ \<Rightarrow> ActionObserve)"

definition worseAction :: "Action \<Rightarrow> Action \<Rightarrow> Action" where
  "worseAction a b =
     (if a = ActionBlock \<or> b = ActionBlock then ActionBlock
      else if a = ActionObserve \<or> b = ActionObserve then ActionObserve
      else ActionAllow)"

subsection \<open>The gate\<close>

text \<open>
  Whether a release matches and the verdict it reports; \<open>None\<close> when it has no policy, detector or
  shape and the loop skips it.
\<close>

definition release_match ::
  "'a golib_scheme \<Rightarrow> Request \<Rightarrow> Inspection \<Rightarrow> CanonicalView \<Rightarrow> managedRelease \<Rightarrow> (bool \<times> Verdict) option" where
  "release_match L req insp view r =
     (if mr_policy r \<noteq> None
        then Some (PolicyCandidateBlocksOn L (mr_policy r) (insp_Detections insp) view req, zero_verdict)
      else if mr_detector r \<noteq> None then
        (case ruleMatch L r req of
           None \<Rightarrow> Some (False, zero_verdict)
         | Some ruleID \<Rightarrow>
             Some (True, \<lparr>ver_DetectorID = mr_artifactID r, ver_Action = ActionObserve, ver_RuleID = ruleID,
                          ver_Confidence = 1, ver_Message = ''matched rule '' @ ruleID\<rparr>))
      else if mr_shape r \<noteq> None then
        (if Violates L (mr_shape r) req view
         then Some (True, \<lparr>ver_DetectorID = mr_artifactID r, ver_Action = ActionObserve, ver_RuleID = ''shape'',
                           ver_Confidence = 1, ver_Message = ''request shape violated''\<rparr>)
         else Some (False, zero_verdict))
      else None)"

definition canary_selected :: "'a golib_scheme \<Rightarrow> Request \<Rightarrow> managedRelease \<Rightarrow> bool" where
  "canary_selected L req r \<longleftrightarrow>
     mr_mode r = RELEASE_MODE_CANARY \<and> req_UnitID req \<noteq> [] \<and>
     CanarySelectedUnit L (req_UnitID req) (mr_releaseID r) (mr_canaryPercent r)"

record gate_acc =
  acc_policyBlock :: bool
  acc_ruleBlock :: bool
  acc_shapeBlock :: bool
  acc_combined :: Action
  acc_Verdicts :: "Verdict list"
  acc_Observations :: "ReleaseObservation list"
  acc_counters :: "(string \<times> counter) list"

definition gate_step ::
  "'a golib_scheme \<Rightarrow> ingress_posture \<Rightarrow> Request \<Rightarrow> Inspection \<Rightarrow> CanonicalView \<Rightarrow> gate_acc \<Rightarrow> managedRelease \<Rightarrow> gate_acc" where
  "gate_step L posture req insp view acc r =
     (case release_match L req insp view r of
        None \<Rightarrow> acc
      | Some (matched, v) \<Rightarrow>
          (let selected = canary_selected L req r;
               action = actionForMode (mr_mode r) matched selected;
               accounted = (if \<not> Intercepts posture \<and> action = ActionBlock then ActionObserve else action) in
           \<lparr>acc_policyBlock = (acc_policyBlock acc \<or> mr_policy r \<noteq> None \<and> action = ActionBlock),
            acc_ruleBlock = (acc_ruleBlock acc \<or> mr_detector r \<noteq> None \<and> action = ActionBlock),
            acc_shapeBlock = (acc_shapeBlock acc \<or> mr_shape r \<noteq> None \<and> action = ActionBlock),
            acc_combined = worseAction (acc_combined acc) action,
            acc_Verdicts = acc_Verdicts acc @
              (if (matched \<or> action \<noteq> ActionAllow) \<and> ver_RuleID v \<noteq> [] then [v] else []),
            acc_Observations = acc_Observations acc @
              [\<lparr>obs_ReleaseID = mr_releaseID r, obs_ArtifactID = mr_artifactID r, obs_Mode = mr_mode r,
                obs_CanaryPercent = mr_canaryPercent r, obs_CanarySelected = selected, obs_Matched = matched\<rparr>],
            acc_counters = AList.map_entry (mr_releaseID r) (accountRelease accounted selected) (acc_counters acc)\<rparr>))"

definition gate_start :: "(string \<times> counter) list \<Rightarrow> gate_acc" where
  "gate_start counters = \<lparr>acc_policyBlock = False, acc_ruleBlock = False, acc_shapeBlock = False,
     acc_combined = ActionAllow, acc_Verdicts = [], acc_Observations = [], acc_counters = counters\<rparr>"

definition gateWith ::
  "'a golib_scheme \<Rightarrow> managedRelease list \<Rightarrow> ingress_posture \<Rightarrow> Request \<Rightarrow> Inspection \<Rightarrow> CanonicalView \<Rightarrow>
   (string \<times> counter) list \<Rightarrow> Decision \<times> (string \<times> counter) list" where
  "gateWith L releases posture req insp view counters =
     (let acc = foldl (gate_step L posture req insp view) (gate_start counters) releases;
          blocked = GateOrder (acc_policyBlock acc) (acc_ruleBlock acc) (acc_shapeBlock acc);
          action = (if blocked = ActionBlock then ActionBlock else acc_combined acc) in
      (\<lparr>dec_Action = (if Observes posture then ActionAllow else action),
        dec_WouldHaveBlocked = (action = ActionBlock), dec_Verdicts = acc_Verdicts acc,
        dec_Observations = acc_Observations acc, dec_Detections = insp_Detections insp,
        dec_Inspection = insp, dec_Posture = posture, dec_GenerationID = [], dec_GenerationSeq = 0\<rparr>,
       acc_counters acc))"

subsection \<open>Abstract specification\<close>

text \<open>
  What the gate promises, without its accumulator: a release matches, and a matching release blocks
  when it is enforced or a canary that selected the unit.
\<close>

definition matches :: "'a golib_scheme \<Rightarrow> Request \<Rightarrow> Inspection \<Rightarrow> CanonicalView \<Rightarrow> managedRelease \<Rightarrow> bool" where
  "matches L req insp view r \<longleftrightarrow>
     (if mr_policy r \<noteq> None then PolicyCandidateBlocksOn L (mr_policy r) (insp_Detections insp) view req
      else if mr_detector r \<noteq> None then ruleMatch L r req \<noteq> None
      else Violates L (mr_shape r) req view)"

definition blocking :: "'a golib_scheme \<Rightarrow> Request \<Rightarrow> managedRelease \<Rightarrow> bool" where
  "blocking L req r \<longleftrightarrow> mr_mode r = RELEASE_MODE_ENFORCE \<or> canary_selected L req r"

definition gate_spec ::
  "'a golib_scheme \<Rightarrow> managedRelease set \<Rightarrow> Request \<Rightarrow> Inspection \<Rightarrow> CanonicalView \<Rightarrow> Action" where
  "gate_spec L rs req insp view =
     (if \<exists>r \<in> rs. matches L req insp view r \<and> blocking L req r then ActionBlock
      else if \<exists>r \<in> rs. matches L req insp view r then ActionObserve
      else ActionAllow)"

subsection \<open>Lemmas\<close>

lemma worseAction_max: "worseAction a b = max a b"
  by (cases a; cases b) (simp_all add: worseAction_def max_def less_eq_Action_def)

lemma release_match_matches:
  "release_match L req insp view r = None \<Longrightarrow> \<not> matches L req insp view r"
  "release_match L req insp view r = Some (matched, v) \<Longrightarrow> matched = matches L req insp view r"
  by (auto simp: release_match_def matches_def Violates_def split: if_splits option.splits)

definition release_action :: "'a golib_scheme \<Rightarrow> Request \<Rightarrow> Inspection \<Rightarrow> CanonicalView \<Rightarrow> managedRelease \<Rightarrow> Action" where
  "release_action L req insp view r =
     actionForMode (mr_mode r) (matches L req insp view r) (canary_selected L req r)"

lemma release_action_cases:
  "release_action L req insp view r =
     (if matches L req insp view r then if blocking L req r then ActionBlock else ActionObserve else ActionAllow)"
  by (auto simp: release_action_def actionForMode_def blocking_def canary_selected_def split: release_mode.split)

definition participates :: "managedRelease \<Rightarrow> bool" where
  "participates r \<longleftrightarrow> mr_policy r \<noteq> None \<or> mr_detector r \<noteq> None \<or> mr_shape r \<noteq> None"

lemma release_match_None_iff: "release_match L req insp view r = None \<longleftrightarrow> \<not> participates r"
  by (auto simp: release_match_def participates_def split: option.splits)

lemma release_cases:
  obtains (skipped) "release_match L req insp view r = None" and "\<not> participates r" and "release_action L req insp view r = ActionAllow"
  | (kept) v where "release_match L req insp view r = Some (matches L req insp view r, v)"
      and "participates r"
proof (cases "release_match L req insp view r")
  case None
  with release_match_matches(1) [OF None] show ?thesis
    by (intro skipped) (simp_all add: release_action_cases release_match_None_iff)
next
  case (Some p)
  obtain m v where "p = (m, v)" by fastforce
  with Some release_match_matches(2) [of L req insp view r m v] release_match_None_iff [of L req insp view r]
  show ?thesis by (intro kept) auto
qed

lemma gate_step_combined:
  "acc_combined (gate_step L posture req insp view acc r) = max (acc_combined acc) (release_action L req insp view r)"
proof (cases rule: release_cases [of L req insp view r])
  case skipped
  then show ?thesis by (simp add: gate_step_def max_def antisym)
next
  case (kept v)
  then show ?thesis by (simp add: gate_step_def Let_def worseAction_max release_action_def)
qed

text \<open>The three flags together say that some release blocked: every release in the loop has a kind.\<close>

definition any_flag :: "gate_acc \<Rightarrow> bool" where
  "any_flag acc \<longleftrightarrow> acc_policyBlock acc \<or> acc_ruleBlock acc \<or> acc_shapeBlock acc"

lemma gate_step_flag:
  "any_flag (gate_step L posture req insp view acc r) \<longleftrightarrow>
     any_flag acc \<or> release_action L req insp view r = ActionBlock"
proof (cases rule: release_cases [of L req insp view r])
  case skipped
  then show ?thesis by (simp add: gate_step_def)
next
  case (kept v)
  then show ?thesis by (auto simp: gate_step_def Let_def any_flag_def release_action_def participates_def)
qed

lemma gate_fold:
  "acc_combined (foldl (gate_step L posture req insp view) acc rs) =
     foldl max (acc_combined acc) (map (release_action L req insp view) rs)"
  "any_flag (foldl (gate_step L posture req insp view) acc rs) \<longleftrightarrow>
     any_flag acc \<or> (\<exists>r \<in> set rs. release_action L req insp view r = ActionBlock)"
  by (induction rs arbitrary: acc) (auto simp: gate_step_combined gate_step_flag)

lemma foldl_max_actions:
  "foldl max a xs =
     (if ActionBlock \<in> insert a (set xs) then ActionBlock
      else if ActionObserve \<in> insert a (set xs) then ActionObserve else ActionAllow)"
proof (induction xs arbitrary: a)
  case Nil
  then show ?case by (cases a) auto
next
  case (Cons x xs)
  have "max a x = worseAction a x" by (simp add: worseAction_max)
  then have "foldl max a (x # xs) = foldl max (worseAction a x) xs" by simp
  also have "\<dots> = (if ActionBlock \<in> insert (worseAction a x) (set xs) then ActionBlock
      else if ActionObserve \<in> insert (worseAction a x) (set xs) then ActionObserve else ActionAllow)"
    by (rule Cons.IH)
  finally show ?case by (cases a; cases x) (auto simp: worseAction_def)
qed

lemma GateOrder_flags: "GateOrder p r s = (if p \<or> r \<or> s then ActionBlock else ActionAllow)"
  by (simp add: GateOrder_def)

lemma gate_actions:
  "foldl max ActionAllow (map (release_action L req insp view) rs) = gate_spec L (set rs) req insp view"
  by (auto simp: foldl_max_actions gate_spec_def release_action_cases image_iff)

lemma gateWith_action:
  "dec_Action (fst (gateWith L rs posture req insp view counters)) =
     (if Observes posture then ActionAllow else gate_spec L (set rs) req insp view)"
  "dec_WouldHaveBlocked (fst (gateWith L rs posture req insp view counters)) \<longleftrightarrow>
     gate_spec L (set rs) req insp view = ActionBlock"
proof -
  let ?acc = "foldl (gate_step L posture req insp view) (gate_start counters) rs"
  have combined: "acc_combined ?acc = gate_spec L (set rs) req insp view"
    by (simp add: gate_fold gate_start_def gate_actions)
  have "any_flag ?acc \<longleftrightarrow> (\<exists>r \<in> set rs. release_action L req insp view r = ActionBlock)"
    by (simp add: gate_fold) (simp add: any_flag_def gate_start_def)
  then have flags: "any_flag ?acc \<longleftrightarrow> gate_spec L (set rs) req insp view = ActionBlock"
    by (auto simp: gate_spec_def release_action_cases)
  show "dec_Action (fst (gateWith L rs posture req insp view counters)) =
      (if Observes posture then ActionAllow else gate_spec L (set rs) req insp view)"
    and "dec_WouldHaveBlocked (fst (gateWith L rs posture req insp view counters)) \<longleftrightarrow>
      gate_spec L (set rs) req insp view = ActionBlock"
    using flags by (auto simp: gateWith_def Let_def GateOrder_flags combined any_flag_def)
qed

subsection \<open>Accounting\<close>

definition release_account ::
  "'a golib_scheme \<Rightarrow> ingress_posture \<Rightarrow> Request \<Rightarrow> Inspection \<Rightarrow> CanonicalView \<Rightarrow> managedRelease \<Rightarrow> counter \<Rightarrow> counter" where
  "release_account L posture req insp view r =
     accountRelease (if \<not> Intercepts posture \<and> release_action L req insp view r = ActionBlock then ActionObserve
                     else release_action L req insp view r) (canary_selected L req r)"

lemma gate_step_counters:
  "map_of (acc_counters (gate_step L posture req insp view acc r)) i =
     (if participates r \<and> i = mr_releaseID r
      then map_option (release_account L posture req insp view r) (map_of (acc_counters acc) i)
      else map_of (acc_counters acc) i)"
proof (cases rule: release_cases [of L req insp view r])
  case skipped
  then show ?thesis by (simp add: gate_step_def)
next
  case (kept v)
  then show ?thesis
    by (auto simp: gate_step_def Let_def release_account_def release_action_def
          map_of_map_entry split: option.split)
qed

lemma gate_fold_counters_other:
  "\<forall>r \<in> set rs. participates r \<longrightarrow> i \<noteq> mr_releaseID r \<Longrightarrow>
     map_of (acc_counters (foldl (gate_step L posture req insp view) acc rs)) i = map_of (acc_counters acc) i"
  by (induction rs arbitrary: acc) (auto simp: gate_step_counters)

lemma gate_fold_counters:
  "distinct (map mr_releaseID rs) \<Longrightarrow> r \<in> set rs \<Longrightarrow> participates r \<Longrightarrow>
     map_of (acc_counters (foldl (gate_step L posture req insp view) acc rs)) (mr_releaseID r) =
       map_option (release_account L posture req insp view r) (map_of (acc_counters acc) (mr_releaseID r))"
proof (induction rs arbitrary: acc)
  case (Cons x rs)
  show ?case
  proof (cases "r = x")
    case True
    with Cons.prems have "\<forall>x \<in> set rs. participates x \<longrightarrow> mr_releaseID r \<noteq> mr_releaseID x"
      by (auto simp: image_iff)
    with True Cons.prems show ?thesis by (simp add: gate_fold_counters_other gate_step_counters)
  next
    case False
    with Cons.prems have "r \<in> set rs" and "mr_releaseID x \<noteq> mr_releaseID r" by auto
    with Cons show ?thesis by (simp add: gate_step_counters)
  qed
qed simp

lemma gate_step_observations:
  "acc_Observations (gate_step L posture req insp view acc r) = acc_Observations acc @
     (if participates r
      then [\<lparr>obs_ReleaseID = mr_releaseID r, obs_ArtifactID = mr_artifactID r, obs_Mode = mr_mode r,
             obs_CanaryPercent = mr_canaryPercent r, obs_CanarySelected = canary_selected L req r,
             obs_Matched = matches L req insp view r\<rparr>] else [])"
proof (cases rule: release_cases [of L req insp view r])
  case skipped
  then show ?thesis by (simp add: gate_step_def)
next
  case (kept v)
  then show ?thesis by (simp add: gate_step_def Let_def)
qed

definition observation :: "'a golib_scheme \<Rightarrow> Request \<Rightarrow> Inspection \<Rightarrow> CanonicalView \<Rightarrow> managedRelease \<Rightarrow> ReleaseObservation" where
  "observation L req insp view r =
     \<lparr>obs_ReleaseID = mr_releaseID r, obs_ArtifactID = mr_artifactID r, obs_Mode = mr_mode r,
      obs_CanaryPercent = mr_canaryPercent r, obs_CanarySelected = canary_selected L req r,
      obs_Matched = matches L req insp view r\<rparr>"

lemma gateWith_observations:
  "dec_Observations (fst (gateWith L rs posture req insp view counters)) =
     map (observation L req insp view) (filter participates rs)"
proof -
  have "acc_Observations (foldl (gate_step L posture req insp view) acc rs) =
      acc_Observations acc @ map (observation L req insp view) (filter participates rs)" for acc
    by (induction rs arbitrary: acc) (auto simp: gate_step_observations observation_def)
  then show ?thesis by (simp add: gateWith_def Let_def gate_start_def)
qed

lemma gateWith_counters: "snd (gateWith L rs posture req insp view counters) =
    acc_counters (foldl (gate_step L posture req insp view) (gate_start counters) rs)"
  by (simp add: gateWith_def Let_def)

lemma gate_start_counters [simp]: "acc_counters (gate_start counters) = counters"
  by (simp add: gate_start_def)

subsection \<open>Percentile\<close>

lemma length_filter_sort: "length (filter Q (sort xs)) = length (filter Q xs)"
  by (metis mset_filter mset_sort size_mset)

lemma sorted_rank:
  fixes ys :: "nat list"
  assumes "sorted ys" and "i < length ys"
  shows "i < length (filter (\<lambda>x. x \<le> ys ! i) ys)" and "length (filter (\<lambda>x. x < ys ! i) ys) \<le> i"
proof -
  have "filter (\<lambda>x. x \<le> ys ! i) (take (Suc i) ys) = take (Suc i) ys"
    using assms by (auto simp: filter_id_conv in_set_conv_nth less_Suc_eq_le intro!: sorted_nth_mono)
  then have "length (filter (\<lambda>x. x \<le> ys ! i) (take (Suc i) ys)) = Suc i"
    using assms by simp
  moreover have "filter (\<lambda>x. x \<le> ys ! i) ys =
      filter (\<lambda>x. x \<le> ys ! i) (take (Suc i) ys) @ filter (\<lambda>x. x \<le> ys ! i) (drop (Suc i) ys)"
    by (metis append_take_drop_id filter_append)
  ultimately show "i < length (filter (\<lambda>x. x \<le> ys ! i) ys)" by simp
  have "filter (\<lambda>x. x < ys ! i) (drop i ys) = []"
    using assms by (auto simp: filter_empty_conv in_set_conv_nth not_less intro!: sorted_nth_mono)
  moreover have "filter (\<lambda>x. x < ys ! i) ys =
      filter (\<lambda>x. x < ys ! i) (take i ys) @ filter (\<lambda>x. x < ys ! i) (drop i ys)"
    by (metis append_take_drop_id filter_append)
  moreover have "length (filter (\<lambda>x. x < ys ! i) (take i ys)) \<le> i"
    by (rule le_trans [OF length_filter_le]) simp
  ultimately show "length (filter (\<lambda>x. x < ys ! i) ys) \<le> i" by simp
qed

lemma record_latency_bound:
  "length (cnt_latencies c) \<le> latencySampleCap \<Longrightarrow> length (cnt_latencies (record_latency m c)) \<le> latencySampleCap"
  by (auto simp: record_latency_def Let_def latencySampleCap_def)

subsection \<open>Properties\<close>

text \<open>
  C6: the gate implements its specification. With an intercepting posture a request is blocked
  exactly when some release in force matches it and is enforced or is a canary that selected the
  request's unit; it is marked observed exactly when something matches but nothing blocks. An
  observing posture always allows the request and reports truthfully whether it would have been
  blocked.
\<close>

theorem gateWith_refines_spec:
  "dec_Action (fst (gateWith L rs posture req insp view counters)) =
     (if Observes posture then ActionAllow else gate_spec L (set rs) req insp view) \<and>
   dec_WouldHaveBlocked (fst (gateWith L rs posture req insp view counters)) =
     (gate_spec L (set rs) req insp view = ActionBlock) \<and>
   dec_Observations (fst (gateWith L rs posture req insp view counters)) =
     map (observation L req insp view) (filter participates rs)"
  by (simp add: gateWith_action gateWith_observations)

text \<open>
  C28: the decision does not depend on the order in which the map of releases is visited: the action,
  the would-have-blocked flag, the multiset of observations and every counter are the same for any
  two orders.
\<close>

theorem gate_order_independent:
  assumes "mset rs = mset rs'" and "distinct (map mr_releaseID rs)"
  shows "dec_Action (fst (gateWith L rs posture req insp view counters)) =
           dec_Action (fst (gateWith L rs' posture req insp view counters)) \<and>
         dec_WouldHaveBlocked (fst (gateWith L rs posture req insp view counters)) =
           dec_WouldHaveBlocked (fst (gateWith L rs' posture req insp view counters)) \<and>
         mset (dec_Observations (fst (gateWith L rs posture req insp view counters))) =
           mset (dec_Observations (fst (gateWith L rs' posture req insp view counters))) \<and>
         map_of (snd (gateWith L rs posture req insp view counters)) =
           map_of (snd (gateWith L rs' posture req insp view counters))"
proof -
  have set_eq: "set rs = set rs'" using assms(1) by (rule mset_eq_setD)
  have "mset (map mr_releaseID rs) = mset (map mr_releaseID rs')" using assms(1) by simp
  then have distinct': "distinct (map mr_releaseID rs')" using assms(2) by (metis mset_eq_imp_distinct_iff)
  have "map_of (snd (gateWith L rs posture req insp view counters)) i =
      map_of (snd (gateWith L rs' posture req insp view counters)) i" for i
  proof (cases "\<exists>r \<in> set rs. participates r \<and> i = mr_releaseID r")
    case True
    then obtain r where r: "r \<in> set rs" "participates r" and i: "i = mr_releaseID r" by blast
    with set_eq have r': "r \<in> set rs'" by simp
    show ?thesis
      by (simp add: gateWith_counters i gate_fold_counters [OF assms(2) r]
            gate_fold_counters [OF distinct' r' r(2)])
  next
    case False
    then show ?thesis
      using set_eq by (simp add: gateWith_counters gate_fold_counters_other)
  qed
  moreover have "mset (filter participates rs) = mset (filter participates rs')"
    using assms(1) by simp
  ultimately show ?thesis
    using set_eq by (simp add: gateWith_action gateWith_observations fun_eq_iff)
qed

text \<open>
  Exact accounting. Each visited release counts the request once; it counts a block only when an
  intercepting posture really blocks on it, and an observation when it matched without such a
  block. Counters of releases that were not visited do not change.
\<close>

theorem gate_accounting:
  assumes "distinct (map mr_releaseID rs)" and "r \<in> set rs" and "participates r"
    and "map_of counters (mr_releaseID r) = Some c"
  shows "\<exists>c'. map_of (snd (gateWith L rs posture req insp view counters)) (mr_releaseID r) = Some c' \<and>
     cnt_requests c' = add64 (cnt_requests c) True \<and>
     cnt_blocks c' = add64 (cnt_blocks c) (Intercepts posture \<and> matches L req insp view r \<and> blocking L req r) \<and>
     cnt_observe c' = add64 (cnt_observe c)
       (matches L req insp view r \<and> \<not> (Intercepts posture \<and> blocking L req r)) \<and>
     cnt_canarySel c' = add64 (cnt_canarySel c) (canary_selected L req r) \<and>
     cnt_latencies c' = cnt_latencies c \<and>
     (\<forall>i. i \<notin> mr_releaseID ` set rs \<longrightarrow>
        map_of (snd (gateWith L rs posture req insp view counters)) i = map_of counters i)"
proof -
  have "map_of (snd (gateWith L rs posture req insp view counters)) (mr_releaseID r) =
      Some (release_account L posture req insp view r c)"
    using gate_fold_counters [OF assms(1-3), of L posture req insp view "gate_start counters"] assms(4)
    by (simp add: gateWith_counters)
  moreover have "map_of (snd (gateWith L rs posture req insp view counters)) i = map_of counters i"
    if "i \<notin> mr_releaseID ` set rs" for i
    using that gate_fold_counters_other [of rs i L posture req insp view "gate_start counters"]
    by (force simp: gateWith_counters)
  ultimately show ?thesis
    by (auto simp: release_account_def accountRelease_def release_action_cases)
qed

text \<open>
  The reported latency is the 99th percentile of the retained samples: it is one of them, more
  than 99 percent of the samples are at most it and at most 99 percent are below it.
\<close>

theorem p99_is_percentile:
  assumes "cnt_latencies c \<noteq> []"
  shows "p99 c \<in> set (cnt_latencies c) \<and>
     99 * length (cnt_latencies c) < 100 * length (filter (\<lambda>x. x \<le> p99 c) (cnt_latencies c)) \<and>
     100 * length (filter (\<lambda>x. x < p99 c) (cnt_latencies c)) \<le> 99 * length (cnt_latencies c)"
proof -
  let ?xs = "cnt_latencies c" and ?i = "(length (cnt_latencies c) * 99) div 100"
  have i: "?i < length (sort ?xs)" using assms by (simp add: less_mult_imp_div_less)
  have p: "p99 c = sort ?xs ! ?i" using assms i by (simp add: p99_def Let_def)
  have "?i < length (filter (\<lambda>x. x \<le> p99 c) ?xs)" and "length (filter (\<lambda>x. x < p99 c) ?xs) \<le> ?i"
    using sorted_rank [OF sorted_sort i] unfolding p length_filter_sort by simp_all
  moreover have "p99 c \<in> set ?xs" using i nth_mem [OF i] by (simp add: p)
  ultimately show ?thesis by linarith
qed

subsection \<open>Witnesses\<close>

definition demo_release :: "string \<Rightarrow> release_mode \<Rightarrow> managedRelease" where
  "demo_release i mode = \<lparr>mr_releaseID = i, mr_artifactID = ''a'', mr_detector = None, mr_prefix = [],
     mr_policy = Some demo_key_policy, mr_shape = None, mr_mode = mode, mr_canaryPercent = 5, mr_expiresAt = 9\<rparr>"

definition demo_inspection :: Inspection where
  "demo_inspection = \<lparr>insp_Detections = [demo_detection], insp_Coverage = [], insp_Rejected = False\<rparr>"

theorem gate_order_independent_witness:
  "dec_Action (fst (gateWith demo_protolib [demo_release ''r1'' RELEASE_MODE_SHADOW, demo_release ''r2'' RELEASE_MODE_ENFORCE]
     INGRESS_POSTURE_REVERSE_PROXY plain_request demo_inspection (plain_view ''GET'' ''/'') [])) =
   dec_Action (fst (gateWith demo_protolib [demo_release ''r2'' RELEASE_MODE_ENFORCE, demo_release ''r1'' RELEASE_MODE_SHADOW]
     INGRESS_POSTURE_REVERSE_PROXY plain_request demo_inspection (plain_view ''GET'' ''/'') []))"
  using gate_order_independent
    [of "[demo_release ''r1'' RELEASE_MODE_SHADOW, demo_release ''r2'' RELEASE_MODE_ENFORCE]"
        "[demo_release ''r2'' RELEASE_MODE_ENFORCE, demo_release ''r1'' RELEASE_MODE_SHADOW]"
        demo_protolib INGRESS_POSTURE_REVERSE_PROXY plain_request demo_inspection "plain_view ''GET'' ''/''" "[]"]
  by (simp add: demo_release_def)

theorem gate_accounting_witness:
  "\<exists>c'. map_of (snd (gateWith demo_protolib [demo_release ''r1'' RELEASE_MODE_ENFORCE]
      INGRESS_POSTURE_TAP_ALERT plain_request demo_inspection (plain_view ''GET'' ''/'') [(''r1'', new_counter)])) ''r1'' =
        Some c' \<and> cnt_requests c' = 1 \<and> cnt_blocks c' = 0"
  using gate_accounting [of "[demo_release ''r1'' RELEASE_MODE_ENFORCE]" "demo_release ''r1'' RELEASE_MODE_ENFORCE"
      "[(''r1'', new_counter)]" new_counter demo_protolib INGRESS_POSTURE_TAP_ALERT plain_request demo_inspection
      "plain_view ''GET'' ''/''"]
  by (auto simp: demo_release_def participates_def new_counter_def add64_def Intercepts_def)

theorem p99_is_percentile_witness:
  "p99 (new_counter\<lparr>cnt_latencies := [7, 3, 5]\<rparr>) \<in> {7, 3, 5}"
  using p99_is_percentile [of "new_counter\<lparr>cnt_latencies := [7, 3, 5]\<rparr>"] by simp

end
