(* ===== verification/Generation_Store.thy ===== *)
theory Generation_Store
  imports Signer Budgets
begin

text \<open>
  The store of verified asset generations (\<^verbatim>\<open>src/lib/edgecore/generation.go\<close>). \<open>Load\<close> returns the
  store as the call leaves it and the error, if any; the wall clock is an argument. Sequence
  numbers are int64 values and the successor of the largest one wraps around.
\<close>

record GenerationStore =
  gs_current :: "asset_generation option"
  gs_prev :: "asset_generation option"
  gs_LoadErrors :: nat
  gs_diskFull :: bool
  gs_degraded :: bool

definition empty_store :: GenerationStore where
  "empty_store = \<lparr>gs_current = None, gs_prev = None, gs_LoadErrors = 0, gs_diskFull = False,
     gs_degraded = False\<rparr>"

datatype store_error =
    EnvelopeIncomplete | MemberMissingReleaseId | ListenPlanInGeneration | StoreVerify kernel_error
  | NotBeforeNotYetValid | DiskFull | AssetChanged | SequenceHasOtherEnvelope
  | OlderNeedsSignedRollback | RollbackParentMismatch | SequenceSkips | ParentMismatch
  | RollbackOfMismatch

definition noteLoadError :: "GenerationStore \<Rightarrow> GenerationStore" where
  "noteLoadError s = s\<lparr>gs_LoadErrors := Suc (gs_LoadErrors s)\<rparr>"

definition member_error :: "'a protolib_scheme \<Rightarrow> bytes \<Rightarrow> release_item option \<Rightarrow> store_error option" where
  "member_error P pub arg =
     (case arg of
        None \<Rightarrow> Some MemberMissingReleaseId
      | Some m \<Rightarrow>
          (case item_artifact m of
             None \<Rightarrow> Some MemberMissingReleaseId
           | Some a \<Rightarrow>
               if item_release_id m = [] then Some MemberMissingReleaseId
               else if art_kind a = KIND_LISTEN_PLAN then Some ListenPlanInGeneration
               else case VerifyArtifact P (Some a) pub of
                 Some e \<Rightarrow> Some (StoreVerify e)
               | None \<Rightarrow> None))"

fun first_member_error :: "'a protolib_scheme \<Rightarrow> bytes \<Rightarrow> release_item option list \<Rightarrow> store_error option" where
  "first_member_error P pub [] = None"
| "first_member_error P pub (m # ms) =
     (case member_error P pub m of Some e \<Rightarrow> Some e | None \<Rightarrow> first_member_error P pub ms)"

text \<open>What the sequence rules say about a candidate, given the generation in force.\<close>

definition sequence_error :: "asset_generation \<Rightarrow> asset_generation \<Rightarrow> store_error option" where
  "sequence_error cur next =
     (if gen_seq next < gen_seq cur \<and> gen_rollback_of next \<noteq> gen_seq cur then Some OlderNeedsSignedRollback
      else if gen_seq next < gen_seq cur \<and> gen_parent_id next \<noteq> gen_id cur then Some RollbackParentMismatch
      else if gen_seq next > to_int64 (gen_seq cur + 1) then Some SequenceSkips
      else if gen_seq next = to_int64 (gen_seq cur + 1) \<and> gen_parent_id next \<noteq> gen_id cur then Some ParentMismatch
      else if gen_rollback_of next \<noteq> 0 \<and> gen_rollback_of next \<noteq> gen_seq cur then Some RollbackOfMismatch
      else None)"

definition Load ::
  "'a protolib_scheme \<Rightarrow> instant \<Rightarrow> GenerationStore \<Rightarrow> asset_generation option \<Rightarrow> bytes \<Rightarrow>
   GenerationStore \<times> store_error option" where
  "Load P now s arg pub =
     (case arg of
        None \<Rightarrow> (noteLoadError s, Some EnvelopeIncomplete)
      | Some next \<Rightarrow>
          if gen_asset_id next = [] \<or> gen_seq next \<le> 0 then (noteLoadError s, Some EnvelopeIncomplete)
          else case first_member_error P pub (gen_members next) of
            Some e \<Rightarrow> (noteLoadError s, Some e)
          | None \<Rightarrow>
              (case VerifyGeneration P (Some next) pub of
                 Some e \<Rightarrow> (noteLoadError s, Some (StoreVerify e))
               | None \<Rightarrow>
                   if (case gen_not_before next of None \<Rightarrow> False | Some nb \<Rightarrow> nb - now > ClockSkew)
                     then (s, Some NotBeforeNotYetValid)
                   else if gs_diskFull s then (s\<lparr>gs_degraded := True\<rparr>, Some DiskFull)
                   else case gs_current s of
                     None \<Rightarrow> (s\<lparr>gs_current := Some next\<rparr>, None)
                   | Some cur \<Rightarrow>
                       if gen_asset_id next \<noteq> gen_asset_id cur then (s, Some AssetChanged)
                       else if gen_seq next = gen_seq cur then
                         (if gen_id next = gen_id cur then (s, None) else (s, Some SequenceHasOtherEnvelope))
                       else case sequence_error cur next of
                         Some e \<Rightarrow> (s, Some e)
                       | None \<Rightarrow> (s\<lparr>gs_prev := Some cur, gs_current := Some next\<rparr>, None)))"

definition SetDiskFull :: "GenerationStore \<Rightarrow> bool \<Rightarrow> GenerationStore" where
  "SetDiskFull s full =
     (let s = s\<lparr>gs_diskFull := full\<rparr> in if full then s\<lparr>gs_degraded := True\<rparr> else s)"

definition Degraded :: "GenerationStore \<Rightarrow> bool" where
  "Degraded s = gs_degraded s"

definition Current :: "GenerationStore \<Rightarrow> asset_generation option" where
  "Current s = gs_current s"

subsection \<open>Lemmas\<close>

text \<open>
  What may replace a generation: same asset, and either the next number with this one as parent,
  or a smaller number whose signed envelope names this one as parent and as rolled back.
\<close>

definition succeeds :: "asset_generation \<Rightarrow> asset_generation \<Rightarrow> bool" where
  "succeeds cur next \<longleftrightarrow>
     gen_asset_id next = gen_asset_id cur \<and> gen_parent_id next = gen_id cur \<and> 0 < gen_seq next \<and>
     (gen_seq next = gen_seq cur + 1 \<and> (gen_rollback_of next = 0 \<or> gen_rollback_of next = gen_seq cur)
      \<or> gen_seq next < gen_seq cur \<and> gen_rollback_of next = gen_seq cur)"

definition trusted :: "'a protolib_scheme \<Rightarrow> bytes \<Rightarrow> asset_generation \<Rightarrow> bool" where
  "trusted P pub g \<longleftrightarrow>
     VerifyGeneration P (Some g) pub = None \<and> gen_asset_id g \<noteq> [] \<and> 0 < gen_seq g \<and>
     (\<forall>m \<in> set (gen_members g). \<exists>i a. m = Some i \<and> item_artifact i = Some a \<and> item_release_id i \<noteq> [] \<and>
        art_kind a \<noteq> KIND_LISTEN_PLAN \<and> VerifyArtifact P (Some a) pub = None)"

lemma first_member_error_None:
  "first_member_error P pub ms = None \<longleftrightarrow>
     (\<forall>m \<in> set ms. \<exists>i a. m = Some i \<and> item_artifact i = Some a \<and> item_release_id i \<noteq> [] \<and>
        art_kind a \<noteq> KIND_LISTEN_PLAN \<and> VerifyArtifact P (Some a) pub = None)"
  by (induction ms) (auto simp: member_error_def split: option.splits if_splits)

text \<open>The int64 range of a sequence number, and the successor without wrap-around.\<close>

definition seq_range :: "asset_generation \<Rightarrow> bool" where
  "seq_range g \<longleftrightarrow> - (2 ^ 63) \<le> gen_seq g \<and> gen_seq g < 2 ^ 63"

lemma to_int64_succ:
  "- (2 ^ 63) \<le> n \<Longrightarrow> n < 2 ^ 63 \<Longrightarrow>
     to_int64 (n + 1) = (if n = 2 ^ 63 - 1 then - (2 ^ 63) else n + 1)"
  by (auto simp: to_int64_def)

lemma sequence_error_None:
  assumes "gen_asset_id next = gen_asset_id cur" and "gen_seq next \<noteq> gen_seq cur" and "0 < gen_seq next"
    and "seq_range cur"
  shows "sequence_error cur next = None \<longleftrightarrow> succeeds cur next \<and> gen_seq cur < 2 ^ 63 - 1"
proof -
  have "to_int64 (gen_seq cur + 1) = (if gen_seq cur = 2 ^ 63 - 1 then - (2 ^ 63) else gen_seq cur + 1)"
    using assms(4) by (simp add: seq_range_def to_int64_succ)
  with assms show ?thesis
    by (auto simp: sequence_error_def succeeds_def seq_range_def split: if_splits)
qed

lemma Load_cases:
  assumes "Load P now s arg pub = (s', err)" and "\<And>cur. gs_current s = Some cur \<Longrightarrow> seq_range cur"
  obtains (kept) "gs_current s' = gs_current s" and "gs_prev s' = gs_prev s"
    | (installed) g where "arg = Some g" and "err = None" and "trusted P pub g" and "gs_current s' = Some g"
        and "\<not> gs_diskFull s"
        and "gs_current s = None \<or> (\<exists>cur. gs_current s = Some cur \<and> succeeds cur g \<and> gs_prev s' = Some cur)"
  using assms
  by (auto simp: Load_def noteLoadError_def trusted_def first_member_error_None sequence_error_None
        split: option.splits if_splits)

subsection \<open>Histories\<close>

text \<open>
  What can happen to a store: a delivered envelope at a given time, or a change of the disk state.
  A delivered sequence number is an int64 value.
\<close>

datatype store_event = DeliverGeneration instant "asset_generation option" | DiskState bool

fun store_step :: "'a protolib_scheme \<Rightarrow> bytes \<Rightarrow> GenerationStore \<Rightarrow> store_event \<Rightarrow> GenerationStore" where
  "store_step P pub s (DeliverGeneration now g) = fst (Load P now s g pub)"
| "store_step P pub s (DiskState full) = SetDiskFull s full"

fun delivered_in_range :: "store_event \<Rightarrow> bool" where
  "delivered_in_range (DeliverGeneration now (Some g)) = seq_range g"
| "delivered_in_range _ = True"

definition valid_generation :: "'a protolib_scheme \<Rightarrow> bytes \<Rightarrow> asset_generation \<Rightarrow> bool" where
  "valid_generation P pub g \<longleftrightarrow> trusted P pub g \<and> seq_range g"

lemma SetDiskFull_current [simp]: "gs_current (SetDiskFull s full) = gs_current s"
  by (simp add: SetDiskFull_def Let_def)

lemma store_step_follows:
  assumes "gs_current s = Some v" and "valid_generation P pub v" and "delivered_in_range e"
  shows "\<exists>w. gs_current (store_step P pub s e) = Some w \<and> valid_generation P pub w \<and> (w = v \<or> succeeds v w)"
proof (cases e)
  case (DiskState full)
  with assms show ?thesis by simp
next
  case (DeliverGeneration now arg)
  obtain s' err where load: "Load P now s arg pub = (s', err)" by fastforce
  have range: "seq_range cur" if "gs_current s = Some cur" for cur
    using that assms by (simp add: valid_generation_def)
  show ?thesis
  proof (rule Load_cases [OF load range])
    assume "gs_current s' = gs_current s"
    with assms load DeliverGeneration show ?thesis by simp
  next
    fix g
    assume "arg = Some g" "trusted P pub g" "gs_current s' = Some g"
      "gs_current s = None \<or> (\<exists>cur. gs_current s = Some cur \<and> succeeds cur g \<and> gs_prev s' = Some cur)"
    with assms load DeliverGeneration show ?thesis by (auto simp: valid_generation_def)
  qed
qed

interpretation generation_slot:
  versioned_slot "store_step P pub" gs_current "valid_generation P pub" delivered_in_range succeeds
  for P :: "'a protolib_scheme" and pub
  by unfold_locales (rule store_step_follows)

text \<open>The invariant of a store: whatever it holds was verified under the pinned key.\<close>

definition store_invar :: "'a protolib_scheme \<Rightarrow> bytes \<Rightarrow> GenerationStore \<Rightarrow> bool" where
  "store_invar P pub s \<longleftrightarrow>
     (\<forall>g \<in> set_option (gs_current s) \<union> set_option (gs_prev s). trusted P pub g) \<and>
     (gs_diskFull s \<longrightarrow> gs_degraded s) \<and> (gs_prev s \<noteq> None \<longrightarrow> gs_current s \<noteq> None)"

lemma Load_invar: "store_invar P pub s \<Longrightarrow> store_invar P pub (fst (Load P now s arg pub))"
  by (auto simp: store_invar_def Load_def noteLoadError_def trusted_def first_member_error_None
        split: option.splits if_splits)

lemma SetDiskFull_invar: "store_invar P pub s \<Longrightarrow> store_invar P pub (SetDiskFull s full)"
  by (auto simp: store_invar_def SetDiskFull_def Let_def)

interpretation store_machine: machine "store_step P pub" "store_invar P pub"
  for P :: "'a protolib_scheme" and pub
proof unfold_locales
  show "store_invar P pub (store_step P pub s e)" if "store_invar P pub s" for s e
    using that by (cases e) (simp_all add: Load_invar SetDiskFull_invar)
qed

lemma empty_store_invar: "store_invar P pub empty_store"
  by (simp add: store_invar_def empty_store_def)

subsection \<open>Properties\<close>


text \<open>
  From an empty store, after any sequence of deliveries and disk changes, the current and the
  previous generation were both verified under the pinned key with all their members, a full disk
  is reported as degraded, and there is no previous generation without a current one.
\<close>

theorem store_always_verified: "store_invar P pub (foldl (store_step P pub) empty_store es)"
  by (rule store_machine.run_invar) (rule empty_store_invar)

text \<open>
  C37: a store with a generation in force accepts a candidate exactly when the candidate and its
  members verify, its start time is not more than the clock skew away, the disk has room, and it
  is the generation already in force or a signed successor of it. At the largest int64 sequence
  number no successor is accepted, not even a signed rollback.
\<close>

theorem Load_accepts_iff:
  assumes "gs_current s = Some cur" and "seq_range cur"
  shows "(snd (Load P now s (Some g) pub) = None) =
     (trusted P pub g \<and> (\<forall>nb. gen_not_before g = Some nb \<longrightarrow> nb \<le> now + ClockSkew) \<and> \<not> gs_diskFull s \<and>
      gen_asset_id g = gen_asset_id cur \<and>
      (if gen_seq g = gen_seq cur then gen_id g = gen_id cur
       else succeeds cur g \<and> gen_seq cur < 2 ^ 63 - 1))"
proof (cases "trusted P pub g")
  case False
  then have "first_member_error P pub (gen_members g) \<noteq> None \<or> VerifyGeneration P (Some g) pub \<noteq> None \<or>
      gen_asset_id g = [] \<or> gen_seq g \<le> 0"
    by (auto simp: trusted_def first_member_error_None)
  then have "snd (Load P now s (Some g) pub) \<noteq> None"
    by (auto simp: Load_def split: option.split)
  with False show ?thesis by simp
next
  case True
  then have first: "first_member_error P pub (gen_members g) = None" and "VerifyGeneration P (Some g) pub = None"
    and "gen_asset_id g \<noteq> []" and pos: "0 < gen_seq g"
    by (simp_all add: trusted_def first_member_error_None)
  then have "snd (Load P now s (Some g) pub) = None \<longleftrightarrow>
      (\<forall>nb. gen_not_before g = Some nb \<longrightarrow> nb \<le> now + ClockSkew) \<and> \<not> gs_diskFull s \<and>
      gen_asset_id g = gen_asset_id cur \<and>
      (if gen_seq g = gen_seq cur then gen_id g = gen_id cur else sequence_error cur g = None)"
    using assms(1) by (cases "gen_not_before g") (auto simp: Load_def split: option.split)
  with True sequence_error_None [OF _ _ pos assms(2)] show ?thesis by auto
qed

subsection \<open>Witnesses\<close>

definition store_lib :: signlib where
  "store_lib = demo_signlib\<lparr>marshal_generation := \<lambda>_. Some ''G''\<rparr>"

definition store_key :: bytes where
  "store_key = replicate 32 (CHR ''k'')"

definition demo_step :: "string \<Rightarrow> int \<Rightarrow> string \<Rightarrow> int \<Rightarrow> asset_generation" where
  "demo_step i n parent back = demo_generation\<lparr>gen_id := i, gen_seq := n, gen_parent_id := parent,
     gen_rollback_of := back, gen_members := [],
     gen_signature := Some \<lparr>sig_key_id = [], sig_bytes = store_key @ pad32 ''G'', sig_signed_at = 0\<rparr>\<rparr>"

lemma store_lib_verify: "ed25519_verify store_lib pub m sg \<longleftrightarrow> sg = pub @ pad32 m"
  "marshal_generation store_lib g = Some ''G''"
  by (simp_all add: store_lib_def)

lemma demo_step_trusted: "0 < n \<Longrightarrow> trusted store_lib store_key (demo_step i n parent back)"
  by (simp add: trusted_def VerifyGeneration_def generationCanonical_def store_lib_verify demo_step_def
        demo_generation_def store_key_def go_simps)

lemma demo_step_fields:
  "gen_id (demo_step i n parent back) = i" "gen_seq (demo_step i n parent back) = n"
  "gen_parent_id (demo_step i n parent back) = parent" "gen_rollback_of (demo_step i n parent back) = back"
  "gen_asset_id (demo_step i n parent back) = ''shop''" "gen_not_before (demo_step i n parent back) = None"
  by (simp_all add: demo_step_def demo_generation_def)

definition demo_store :: GenerationStore where
  "demo_store = empty_store\<lparr>gs_current := Some (demo_step ''g1'' 1 [] 0)\<rparr>"


theorem Load_accepts_iff_witness:
  "snd (Load store_lib 0 demo_store (Some (demo_step ''g2'' 2 ''g1'' 0)) store_key) = None \<and>
   snd (Load store_lib 0 demo_store (Some (demo_step ''g3'' 3 ''g1'' 0)) store_key) \<noteq> None"
proof -
  have cur: "gs_current demo_store = Some (demo_step ''g1'' 1 [] 0)" by (simp add: demo_store_def)
  have range: "seq_range (demo_step ''g1'' 1 [] 0)" by (simp add: seq_range_def demo_step_fields)
  show ?thesis
    unfolding Load_accepts_iff [OF cur range]
    by (simp add: demo_step_trusted demo_step_fields succeeds_def demo_store_def empty_store_def)
qed

end
