(* ===== verification/Model_Profile.thy ===== *)
theory Model_Profile
  imports Inspection
begin

text \<open>
  The signed model profile (\<^verbatim>\<open>src/lib/kernel/model_profile.go\<close>) and the model-ingress window
  (\<^verbatim>\<open>model_ingress_window.go\<close>): validation and normalisation. A \<open>float64\<close> is a real number or one of
  the three non-finite values. A window's queue age is its duration; an absent or invalid protobuf
  duration is \<open>None\<close>.
\<close>

subsection \<open>Profiles\<close>

datatype float64 = Fin real | PInf | NInf | NaN

definition finiteUnitInterval :: "float64 \<Rightarrow> bool" where
  "finiteUnitInterval v \<longleftrightarrow> (case v of Fin r \<Rightarrow> 0 \<le> r \<and> r \<le> 1 | _ \<Rightarrow> False)"

fun float_le :: "float64 \<Rightarrow> float64 \<Rightarrow> bool" where
  "float_le (Fin a) (Fin b) \<longleftrightarrow> a \<le> b"
| "float_le NaN _ \<longleftrightarrow> False"
| "float_le _ NaN \<longleftrightarrow> False"
| "float_le NInf _ \<longleftrightarrow> True"
| "float_le _ PInf \<longleftrightarrow> True"
| "float_le _ _ \<longleftrightarrow> False"

record ModelProfile =
  mp_ProfileId :: string
  mp_ModelGroup :: string
  mp_ModelType :: string
  mp_ModelVersion :: string
  mp_AlertThreshold :: float64
  mp_ReviewFloor :: float64
  mp_ReviewWindowSeconds :: int
  mp_MaxReviewPerUnit :: int
  mp_MaxReviewPerRoute :: int
  mp_DedupeRule :: int
  mp_AllowedHeaders :: "string list"
  mp_MaxBodyBytes :: int
  mp_ReviewNewRoutes :: bool
  mp_ReviewInsufficientCoverage :: bool

datatype profile_error =
    ProfileRequired | CoordinatesRequired | ThresholdsInvalid | SamplingLimitsInvalid
  | RouteLimitExceedsUnit | DedupeRuleUnsupported | HighestScoreNeedsOne | BodyLimitInvalid
  | AllowedHeaderInvalid

definition MODEL_DEDUPE_RULE_METHOD_ROUTE_HIGHEST_SCORE :: int where
  "MODEL_DEDUPE_RULE_METHOD_ROUTE_HIGHEST_SCORE = 1"

definition header_specials :: string where
  "header_specials = ''!#$%&'' @ [CHR 0x27] @ ''*+-.^_`|~''"

definition validHeaderName :: "'a golib_scheme \<Rightarrow> string \<Rightarrow> bool" where
  "validHeaderName L name \<longleftrightarrow>
     name \<noteq> [] \<and>
     list_all (\<lambda>r. r \<le> 127 \<and> (is_letter L r \<or> is_digit L r \<or> r \<in> (of_char ` set header_specials :: nat set)))
       (runes name)"

definition sensitiveModelHeader :: "string \<Rightarrow> bool" where
  "sensitiveModelHeader name \<longleftrightarrow>
     name \<in> {''authorization'', ''cookie'', ''proxy-authorization'', ''proxy-authenticate'',
             ''set-cookie'', ''x-api-key''}"

definition header_key :: "string \<Rightarrow> string" where
  "header_key raw = to_lower (trim_space raw)"

definition NormalizeModelProfile ::
  "'a golib_scheme \<Rightarrow> ModelProfile option \<Rightarrow> profile_error + ModelProfile" where
  "NormalizeModelProfile L arg =
     (case arg of
        None \<Rightarrow> Inl ProfileRequired
      | Some profile \<Rightarrow>
          (let out = profile\<lparr>mp_ProfileId := trim_space (mp_ProfileId profile),
                             mp_ModelGroup := trim_space (mp_ModelGroup profile),
                             mp_ModelType := trim_space (mp_ModelType profile),
                             mp_ModelVersion := trim_space (mp_ModelVersion profile)\<rparr>;
               names = map header_key (mp_AllowedHeaders profile) in
           if mp_ProfileId out = [] \<or> mp_ModelGroup out = [] \<or> mp_ModelType out = [] \<or> mp_ModelVersion out = []
             then Inl CoordinatesRequired
           else if \<not> finiteUnitInterval (mp_AlertThreshold out) \<or> \<not> finiteUnitInterval (mp_ReviewFloor out)
                   \<or> float_le (mp_AlertThreshold out) (mp_ReviewFloor out) then Inl ThresholdsInvalid
           else if mp_ReviewWindowSeconds out \<le> 0 \<or> mp_MaxReviewPerUnit out \<le> 0 \<or> mp_MaxReviewPerRoute out \<le> 0
             then Inl SamplingLimitsInvalid
           else if mp_MaxReviewPerRoute out > mp_MaxReviewPerUnit out then Inl RouteLimitExceedsUnit
           else if mp_DedupeRule out \<noteq> MODEL_DEDUPE_RULE_METHOD_ROUTE_HIGHEST_SCORE then Inl DedupeRuleUnsupported
           else if mp_MaxReviewPerRoute out \<noteq> 1 then Inl HighestScoreNeedsOne
           else if mp_MaxBodyBytes out \<le> 0 \<or> mp_MaxBodyBytes out > int EngineBodyLimitBytes then Inl BodyLimitInvalid
           else if list_ex (\<lambda>name. \<not> validHeaderName L name \<or> sensitiveModelHeader name) names
             then Inl AllowedHeaderInvalid
           else Inr (out\<lparr>mp_AllowedHeaders := sort (remdups names)\<rparr>)))"

definition DefaultModelProfile :: ModelProfile where
  "DefaultModelProfile = \<lparr>mp_ProfileId = ''http-threat-model/default'', mp_ModelGroup = ''http-threat'',
     mp_ModelType = ''PVM'', mp_ModelVersion = ''v1'', mp_AlertThreshold = Fin (9 / 10),
     mp_ReviewFloor = Fin (1 / 2), mp_ReviewWindowSeconds = 300, mp_MaxReviewPerUnit = 4,
     mp_MaxReviewPerRoute = 1, mp_DedupeRule = MODEL_DEDUPE_RULE_METHOD_ROUTE_HIGHEST_SCORE,
     mp_AllowedHeaders = [''accept'', ''content-type'', ''user-agent''],
     mp_MaxBodyBytes = int EngineBodyLimitBytes, mp_ReviewNewRoutes = True,
     mp_ReviewInsufficientCoverage = True\<rparr>"

subsection \<open>Windows\<close>

datatype window_error =
    WindowRequired | WindowItems | WindowBytes | WindowAgeInvalid | WindowAgeRange

definition DefaultModelIngressWindow :: model_ingress_window where
  "DefaultModelIngressWindow = \<lparr>win_max_items = ModelIngressDefaultItems,
     win_max_retained_bytes = ModelIngressDefaultBytes, win_max_queue_age = Some ModelIngressDefaultAge\<rparr>"

definition DefaultModelIngressHardLimit :: model_ingress_window where
  "DefaultModelIngressHardLimit = \<lparr>win_max_items = ModelIngressLocalMaxItems,
     win_max_retained_bytes = ModelIngressLocalMaxBytes, win_max_queue_age = Some ModelIngressLocalMaxAge\<rparr>"

definition NormalizeModelIngressWindow ::
  "model_ingress_window option \<Rightarrow> window_error + model_ingress_window" where
  "NormalizeModelIngressWindow arg =
     (case arg of
        None \<Rightarrow> Inl WindowRequired
      | Some w \<Rightarrow>
          if win_max_items w = 0 \<or> win_max_items w > ModelIngressAbsoluteMaxItems then Inl WindowItems
          else if win_max_retained_bytes w < ModelIngressAbsoluteMinBytes
                  \<or> win_max_retained_bytes w > ModelIngressAbsoluteMaxBytes then Inl WindowBytes
          else case win_max_queue_age w of
            None \<Rightarrow> Inl WindowAgeInvalid
          | Some age \<Rightarrow>
              if age < ModelIngressAbsoluteMinAge \<or> age > ModelIngressAbsoluteMaxAge then Inl WindowAgeRange
              else Inr (w\<lparr>win_max_queue_age := Some age\<rparr>))"

definition ModelIngressWindowOrDefault ::
  "model_ingress_window option \<Rightarrow> window_error + model_ingress_window" where
  "ModelIngressWindowOrDefault arg =
     NormalizeModelIngressWindow (Some (case arg of None \<Rightarrow> DefaultModelIngressWindow | Some w \<Rightarrow> w))"

subsection \<open>Lemmas\<close>

lemma dropWhile_dropWhile: "dropWhile P (dropWhile P xs) = dropWhile P xs"
  by (induction xs) auto

lemma dropWhile_rev_dropWhile:
  "dropWhile P (rev (dropWhile P (rev (dropWhile P xs)))) = rev (dropWhile P (rev (dropWhile P xs)))"
proof (cases "dropWhile P xs")
  case Nil
  show ?thesis unfolding Nil by simp
next
  case (Cons y ys)
  then have "\<not> P y" by (metis dropWhile_eq_Cons_conv)
  then show ?thesis by (simp add: Cons dropWhile_append)
qed

lemma trim_space_idem [simp]: "trim_space (trim_space s) = trim_space s"
  by (simp add: trim_space_def dropWhile_rev_dropWhile dropWhile_dropWhile)

lemma is_space_lower [simp]: "is_space (lower_char c) = is_space c"
  using of_char_less_256 [of c] by (auto simp: is_space_def lower_char_def of_char_of)

lemma trim_space_lower: "trim_space (to_lower s) = to_lower (trim_space s)"
  by (simp add: trim_space_def to_lower_def dropWhile_map comp_def rev_map)

lemma header_key_idem [simp]: "header_key (header_key h) = header_key h"
  by (simp add: header_key_def trim_space_lower)

lemma normalized_profile:
  assumes "NormalizeModelProfile L (Some p) = Inr q"
  shows "q = p\<lparr>mp_ProfileId := trim_space (mp_ProfileId p), mp_ModelGroup := trim_space (mp_ModelGroup p),
             mp_ModelType := trim_space (mp_ModelType p), mp_ModelVersion := trim_space (mp_ModelVersion p),
             mp_AllowedHeaders := sort (remdups (map header_key (mp_AllowedHeaders p)))\<rparr>"
    and "list_all (\<lambda>n. validHeaderName L n \<and> \<not> sensitiveModelHeader n) (map header_key (mp_AllowedHeaders p))"
  using assms
  by (auto simp: NormalizeModelProfile_def Let_def list_all_iff list_ex_iff split: if_splits)

subsection \<open>Properties\<close>

text \<open>
  A normalised model profile is well formed and normalising it again changes nothing: finite
  thresholds in the unit interval with the alert threshold above the review floor, a body limit
  within the engine's, exactly one representative per route, and a sorted, duplicate-free header
  list without credential headers.
\<close>

theorem NormalizeModelProfile_stable:
  assumes ok: "NormalizeModelProfile L (Some p) = Inr q"
  shows "NormalizeModelProfile L (Some q) = Inr q \<and>
         (\<exists>a f. mp_AlertThreshold q = Fin a \<and> mp_ReviewFloor q = Fin f \<and> 0 \<le> f \<and> f < a \<and> a \<le> 1) \<and>
         0 < mp_MaxBodyBytes q \<and> mp_MaxBodyBytes q \<le> int EngineBodyLimitBytes \<and>
         mp_MaxReviewPerRoute q = 1 \<and> sorted (mp_AllowedHeaders q) \<and> distinct (mp_AllowedHeaders q) \<and>
         set (mp_AllowedHeaders q) \<inter> {''authorization'', ''cookie'', ''proxy-authorization'',
           ''proxy-authenticate'', ''set-cookie'', ''x-api-key''} = {}"
proof -
  let ?names = "map header_key (mp_AllowedHeaders p)"
  note q = normalized_profile [OF ok]
  have headers: "mp_AllowedHeaders q = sort (remdups ?names)" by (simp add: q(1))
  have fixed: "map header_key (mp_AllowedHeaders q) = mp_AllowedHeaders q"
    unfolding headers by (rule map_idI) auto
  have sorted: "sort (remdups (mp_AllowedHeaders q)) = mp_AllowedHeaders q"
    unfolding headers by (simp add: distinct_remdups_id sorted_sort_id)
  have good: "list_all (\<lambda>n. validHeaderName L n \<and> \<not> sensitiveModelHeader n) (mp_AllowedHeaders q)"
    using q(2) unfolding headers by (simp add: list_all_iff)
  have bad: "\<not> list_ex (\<lambda>n. \<not> validHeaderName L n \<or> sensitiveModelHeader n) (mp_AllowedHeaders q)"
    using good by (auto simp: list_all_iff list_ex_iff)
  have again: "NormalizeModelProfile L (Some q) = Inr q"
    using ok bad unfolding NormalizeModelProfile_def option.case Let_def fixed sorted
    by (auto simp: q(1) split: if_splits)
  have "set (mp_AllowedHeaders q) \<inter> {''authorization'', ''cookie'', ''proxy-authorization'',
           ''proxy-authenticate'', ''set-cookie'', ''x-api-key''} = {}"
    using good by (auto simp: list_all_iff sensitiveModelHeader_def)
  moreover have "\<exists>a f. mp_AlertThreshold q = Fin a \<and> mp_ReviewFloor q = Fin f \<and> 0 \<le> f \<and> f < a \<and> a \<le> 1"
    and "0 < mp_MaxBodyBytes q \<and> mp_MaxBodyBytes q \<le> int EngineBodyLimitBytes \<and> mp_MaxReviewPerRoute q = 1"
    using again
    by (auto simp: NormalizeModelProfile_def Let_def finiteUnitInterval_def split: if_splits float64.splits)
  ultimately show ?thesis using again headers by simp
qed

theorem NormalizeModelProfile_stable_witness:
  "\<exists>q. NormalizeModelProfile demo_protolib (Some (DefaultModelProfile\<lparr>mp_AllowedHeaders := ['' Accept'']\<rparr>)) = Inr q \<and>
       NormalizeModelProfile demo_protolib (Some q) = Inr q \<and> mp_AllowedHeaders q = [''accept'']"
proof -
  have key: "header_key '' Accept'' = ''accept''"
    by (simp add: header_key_def trim_space_def is_space_def to_lower_def lower_char_def char_of_def bit_0)
  have valid: "validHeaderName demo_protolib ''accept''"
    by (simp add: validHeaderName_def runes_def decode_rune_def is_letter_def)
  have trim: "trim_space s = s" if "s \<in> {''http-threat-model/default'', ''http-threat'', ''PVM'', ''v1''}" for s
    using that by (auto simp: trim_space_def is_space_def)
  have "NormalizeModelProfile demo_protolib (Some (DefaultModelProfile\<lparr>mp_AllowedHeaders := ['' Accept'']\<rparr>)) =
      Inr (DefaultModelProfile\<lparr>mp_AllowedHeaders := [''accept'']\<rparr>)"
    by (simp add: NormalizeModelProfile_def DefaultModelProfile_def Let_def key valid trim
          finiteUnitInterval_def sensitiveModelHeader_def EngineBodyLimitBytes_def)
  from NormalizeModelProfile_stable [OF this] this show ?thesis by simp
qed

end
