(* ===== verification/Listen.thy ===== *)
theory Listen
  imports Policy Model_Profile
begin

text \<open>
  Unit listen plans and tap health (\<^verbatim>\<open>src/lib/edgecore/listen.go\<close>) and the trusted-proxy list of
  \<^verbatim>\<open>src/lib/kernel/dataplane_contract.go\<close>. The address and URL parsers of the standard library are
  parameters: splitting host and port, recognising an IP address, parsing a URL, and printing the
  masked form of a zone-free CIDR prefix.
\<close>

record parsed_url =
  url_IsAbs :: bool
  url_Hostname :: string
  url_Scheme :: string
  url_HasUser :: bool
  url_Fragment :: string

record netlib =
  split_host_port :: "string \<Rightarrow> (string \<times> string) option"
  is_ip :: "string \<Rightarrow> bool"
  parse_url :: "string \<Rightarrow> parsed_url option"
  masked_prefix :: "string \<Rightarrow> string option"

subsection \<open>Trusted proxies\<close>

datatype listen_error =
    PlanIncomplete | OnePosture string | KeyTaken string | VersionRequired | TrafficKeyRequired
  | PostureInvalid | ListenAddressInvalid | PortInvalid | HostInvalid | UpstreamRequired
  | UpstreamNotAbsolute | UpstreamScheme | UpstreamUserOrFragment | UpstreamOnlyForProxy
  | InterceptMustNotFollow | ClientSourceInvalid | ClientSourceNotNormalized | WindowInvalid window_error
  | TooManyCIDRs | InvalidCIDR

definition TrustedProxyCIDRLimit :: nat where "TrustedProxyCIDRLimit = 64"

definition cleanTrustedProxyCIDRs :: "string list \<Rightarrow> string list" where
  "cleanTrustedProxyCIDRs values = sort (remdups (filter (\<lambda>v. v \<noteq> []) (map trim_space values)))"

definition NormalizeTrustedProxyCIDRs :: "'a netlib_scheme \<Rightarrow> string list \<Rightarrow> listen_error + string list" where
  "NormalizeTrustedProxyCIDRs N values =
     (let cleaned = cleanTrustedProxyCIDRs values in
      if length cleaned > TrustedProxyCIDRLimit then Inl TooManyCIDRs
      else if list_ex (\<lambda>raw. masked_prefix N raw = None) cleaned then Inl InvalidCIDR
      else Inr (sort (remdups (map (\<lambda>raw. the (masked_prefix N raw)) cleaned))))"

subsection \<open>Plans\<close>

definition plan_step ::
  "(string \<rightharpoonup> ingress_posture) \<times> (string \<rightharpoonup> string) \<Rightarrow> unit_listen_plan option \<Rightarrow>
   listen_error + (string \<rightharpoonup> ingress_posture) \<times> (string \<rightharpoonup> string)" where
  "plan_step st arg =
     (case arg of
        None \<Rightarrow> Inl PlanIncomplete
      | Some p \<Rightarrow>
          if trim_space (plan_unit_id p) = [] then Inl PlanIncomplete
          else
            (let (units, keys) = st; posture = ResolvePosture (plan_posture p) in
             if (case units (plan_unit_id p) of None \<Rightarrow> False | Some prev \<Rightarrow> prev \<noteq> posture)
               then Inl (OnePosture (plan_unit_id p))
             else let units = units(plan_unit_id p \<mapsto> posture) in
               if \<not> Intercepts posture then Inr (units, keys)
               else case keys (plan_traffic_key p) of
                 Some other \<Rightarrow>
                   if other \<noteq> plan_unit_id p then Inl (KeyTaken other)
                   else Inr (units, keys(plan_traffic_key p \<mapsto> plan_unit_id p))
               | None \<Rightarrow> Inr (units, keys(plan_traffic_key p \<mapsto> plan_unit_id p))))"

fun plan_steps ::
  "(string \<rightharpoonup> ingress_posture) \<times> (string \<rightharpoonup> string) \<Rightarrow> unit_listen_plan option list \<Rightarrow> listen_error option" where
  "plan_steps st [] = None"
| "plan_steps st (p # ps) = (case plan_step st p of Inl e \<Rightarrow> Some e | Inr st' \<Rightarrow> plan_steps st' ps)"

definition ValidateListenPlans :: "unit_listen_plan option list \<Rightarrow> listen_error option" where
  "ValidateListenPlans plans = plan_steps (Map.empty, Map.empty) plans"

definition validateListenAddress :: "'a netlib_scheme \<Rightarrow> string \<Rightarrow> listen_error option" where
  "validateListenAddress N raw =
     (case split_host_port N (trim_space raw) of
        None \<Rightarrow> Some ListenAddressInvalid
      | Some (host, port) \<Rightarrow>
          (case atoi port of
             None \<Rightarrow> Some PortInvalid
           | Some n \<Rightarrow>
               if n < 1 \<or> n > 65535 then Some PortInvalid
               else if host \<noteq> [] \<and> \<not> is_ip N host then Some HostInvalid
               else None))"

definition validateUpstreamURL :: "'a netlib_scheme \<Rightarrow> string \<Rightarrow> listen_error option" where
  "validateUpstreamURL N raw =
     (if raw = [] \<or> raw = ''builtin'' then Some UpstreamRequired
      else case parse_url N raw of
        None \<Rightarrow> Some UpstreamNotAbsolute
      | Some u \<Rightarrow>
          if \<not> url_IsAbs u \<or> url_Hostname u = [] then Some UpstreamNotAbsolute
          else if url_Scheme u \<noteq> ''http'' \<and> url_Scheme u \<noteq> ''https'' then Some UpstreamScheme
          else if url_HasUser u \<or> url_Fragment u \<noteq> [] then Some UpstreamUserOrFragment
          else None)"

definition ValidateUnitListenPlan :: "'a netlib_scheme \<Rightarrow> unit_listen_plan option \<Rightarrow> listen_error option" where
  "ValidateUnitListenPlan N arg =
     (case arg of
        None \<Rightarrow> Some PlanIncomplete
      | Some plan \<Rightarrow>
          if trim_space (plan_unit_id plan) = [] then Some PlanIncomplete
          else if plan_version plan = 0 then Some VersionRequired
          else if trim_space (plan_traffic_key plan) = [] then Some TrafficKeyRequired
          else if posture_number (plan_posture plan) < 1 \<or> posture_number (plan_posture plan) > 4
            then Some PostureInvalid
          else case validateListenAddress N (plan_listen_address plan) of
            Some e \<Rightarrow> Some e
          | None \<Rightarrow>
              (let upstream = trim_space (plan_upstream_url plan);
                   upstream_error =
                     (if plan_posture plan = INGRESS_POSTURE_REVERSE_PROXY then validateUpstreamURL N upstream
                      else if upstream \<noteq> [] then Some UpstreamOnlyForProxy else None) in
               case upstream_error of
                 Some e \<Rightarrow> Some e
               | None \<Rightarrow>
                   if Intercepts (plan_posture plan) \<and> trim_space (plan_follow_unit_id plan) \<noteq> []
                     then Some InterceptMustNotFollow
                   else case NormalizeTrustedProxyCIDRs N (plan_trusted_proxy_cidrs plan) of
                     Inl e \<Rightarrow> Some ClientSourceInvalid
                   | Inr normalized \<Rightarrow>
                       if plan_trusted_proxy_cidrs plan \<noteq> normalized then Some ClientSourceNotNormalized
                       else case NormalizeModelIngressWindow (plan_model_ingress_window plan) of
                         Inl e \<Rightarrow> Some (WindowInvalid e)
                       | Inr w \<Rightarrow> None))"

subsection \<open>Tap health\<close>

record TapWindow =
  tap_UnitID :: string
  tap_Posture :: ingress_posture
  tap_TrafficKey :: string
  tap_FollowUnitID :: string
  tap_WindowReqs :: nat
  tap_PrevWindowReqs :: nat
  tap_Routes :: "string list"
  tap_TotalRequests :: nat

definition jaccard :: "string list \<Rightarrow> string list \<Rightarrow> real" where
  "jaccard a b =
     (if length a = 0 \<and> length b = 0 then 1
      else let inter = length (filter (\<lambda>x. x \<in> set a) b); union = length (remdups (a @ b)) in
        if union = 0 then 1 else real inter / real union)"

definition last_window :: "TapWindow list \<Rightarrow> string \<Rightarrow> TapWindow option" where
  "last_window windows u = find (\<lambda>w. tap_UnitID w = u) (rev windows)"

definition intercept_alive :: "TapWindow list \<Rightarrow> string \<Rightarrow> bool" where
  "intercept_alive windows key \<longleftrightarrow>
     list_ex (\<lambda>w. Intercepts (ResolvePosture (tap_Posture w)) \<and> tap_WindowReqs w > 0 \<and> tap_TrafficKey w = key) windows"

definition window_health :: "TapWindow list \<Rightarrow> TapWindow \<Rightarrow> unit_health" where
  "window_health windows w =
     (if Observes (ResolvePosture (tap_Posture w)) \<and> intercept_alive windows (tap_TrafficKey w)
         \<and> tap_WindowReqs w = 0 \<and> tap_PrevWindowReqs w = 0 then UNIT_HEALTH_TAP_SILENT
      else if tap_FollowUnitID w = [] then UNIT_HEALTH_HEALTHY
      else case last_window windows (tap_FollowUnitID w) of
        None \<Rightarrow> UNIT_HEALTH_HEALTHY
      | Some peer \<Rightarrow>
          if tap_TotalRequests w < 100 \<or> tap_TotalRequests peer < 100 then UNIT_HEALTH_HEALTHY
          else if jaccard (tap_Routes w) (tap_Routes peer) < 1 / 2 then UNIT_HEALTH_TAP_SKEW
          else UNIT_HEALTH_HEALTHY)"

definition EvaluateTapHealth :: "TapWindow list \<Rightarrow> (string \<times> unit_health) list" where
  "EvaluateTapHealth windows =
     foldl (\<lambda>out w. AList.update (tap_UnitID w) (window_health windows w) out) [] windows"

subsection \<open>Lemmas\<close>

definition intercepting :: "unit_listen_plan \<Rightarrow> bool" where
  "intercepting p \<longleftrightarrow> Intercepts (ResolvePosture (plan_posture p))"

text \<open>A plan fits the postures and intercept keys recorded so far.\<close>

definition fits :: "(string \<rightharpoonup> ingress_posture) \<times> (string \<rightharpoonup> string) \<Rightarrow> unit_listen_plan \<Rightarrow> bool" where
  "fits st p \<longleftrightarrow>
     (\<forall>q. fst st (plan_unit_id p) = Some q \<longrightarrow> q = ResolvePosture (plan_posture p)) \<and>
     (intercepting p \<longrightarrow> (\<forall>u. snd st (plan_traffic_key p) = Some u \<longrightarrow> u = plan_unit_id p))"

definition compatible :: "unit_listen_plan \<Rightarrow> unit_listen_plan \<Rightarrow> bool" where
  "compatible p q \<longleftrightarrow>
     (plan_unit_id p = plan_unit_id q \<longrightarrow> ResolvePosture (plan_posture p) = ResolvePosture (plan_posture q)) \<and>
     (intercepting p \<and> intercepting q \<and> plan_traffic_key p = plan_traffic_key q \<longrightarrow>
        plan_unit_id p = plan_unit_id q)"

lemma compatible_refl [simp]: "compatible p p"
  by (simp add: compatible_def)

lemma compatible_sym: "compatible p q \<longleftrightarrow> compatible q p"
  by (auto simp: compatible_def)

definition record_plan ::
  "(string \<rightharpoonup> ingress_posture) \<times> (string \<rightharpoonup> string) \<Rightarrow> unit_listen_plan \<Rightarrow>
   (string \<rightharpoonup> ingress_posture) \<times> (string \<rightharpoonup> string)" where
  "record_plan st p =
     ((fst st)(plan_unit_id p \<mapsto> ResolvePosture (plan_posture p)),
      if intercepting p then (snd st)(plan_traffic_key p \<mapsto> plan_unit_id p) else snd st)"

lemma plan_step_Inr:
  "(\<exists>st'. plan_step st (Some p) = Inr st') \<longleftrightarrow> trim_space (plan_unit_id p) \<noteq> [] \<and> fits st p"
  "plan_step st (Some p) = Inr st' \<Longrightarrow> st' = record_plan st p"
  by (cases st; auto simp: plan_step_def fits_def record_plan_def intercepting_def Let_def
        split: option.splits if_splits)+

lemma fits_record:
  "fits st p \<Longrightarrow> fits (record_plan st p) q \<longleftrightarrow> fits st q \<and> compatible p q"
  by (auto simp: fits_def record_plan_def compatible_def)

lemma plan_steps_None:
  "plan_steps st ps = None \<longleftrightarrow>
     None \<notin> set ps \<and> (\<forall>p. Some p \<in> set ps \<longrightarrow> trim_space (plan_unit_id p) \<noteq> [] \<and> fits st p) \<and>
     (\<forall>p q. Some p \<in> set ps \<longrightarrow> Some q \<in> set ps \<longrightarrow> compatible p q)"
proof (induction ps arbitrary: st)
  case Nil
  then show ?case by simp
next
  case (Cons a ps)
  show ?case
  proof (cases a)
    case None
    then show ?thesis by (simp add: plan_step_def)
  next
    case (Some p)
    show ?thesis
    proof (cases "plan_step st (Some p)")
      case (Inl e)
      then have "\<not> (trim_space (plan_unit_id p) \<noteq> [] \<and> fits st p)"
        using plan_step_Inr(1) [of st p] by auto
      with Inl Some show ?thesis by auto
    next
      case (Inr st')
      with plan_step_Inr have p: "trim_space (plan_unit_id p) \<noteq> []" "fits st p" and st': "st' = record_plan st p"
        by blast+
      have "plan_steps st (a # ps) = None \<longleftrightarrow> plan_steps (record_plan st p) ps = None"
        using Some Inr st' by simp
      with Cons.IH [of "record_plan st p"] p Some show ?thesis
        by (auto simp: fits_record compatible_sym)
    qed
  qed
qed

lemma inter_length_distinct:
  "distinct b \<Longrightarrow> length (filter (\<lambda>x. x \<in> set a) b) = card (set a \<inter> set b)"
  by (simp add: distinct_length_filter)

subsection \<open>Properties\<close>

text \<open>
  A set of listen plans is accepted exactly when every plan names a unit, a unit that appears
  several times always has the same posture, and no two different units intercept the same
  traffic key.
\<close>

theorem ValidateListenPlans_iff:
  "ValidateListenPlans plans = None \<longleftrightarrow>
     None \<notin> set plans \<and>
     (\<forall>p. Some p \<in> set plans \<longrightarrow> trim_space (plan_unit_id p) \<noteq> []) \<and>
     (\<forall>p q. Some p \<in> set plans \<longrightarrow> Some q \<in> set plans \<longrightarrow> compatible p q)"
  by (auto simp: ValidateListenPlans_def plan_steps_None fits_def)

text \<open>
  The route overlap of a tap and its peer is the Jaccard index only when the peer's routes have
  no duplicates. With duplicates the intersection is counted with multiplicity: routes that share
  one of three score a full 1, so the skew alarm stays silent.
\<close>

theorem jaccard_duplicates:
  "(distinct b \<and> set a \<union> set b \<noteq> {} \<longrightarrow>
      jaccard a b = real (card (set a \<inter> set b)) / real (card (set a \<union> set b))) \<and>
   jaccard [''/a'', ''/b'', ''/c''] [''/a'', ''/a'', ''/a''] = 1 \<and>
   card (set [''/a'', ''/b'', ''/c''] \<inter> set [''/a'', ''/a'', ''/a'']) = 1 \<and>
   card (set [''/a'', ''/b'', ''/c''] \<union> set [''/a'', ''/a'', ''/a'']) = 3"
proof -
  have "jaccard a b = real (card (set a \<inter> set b)) / real (card (set a \<union> set b))"
    if "distinct b" and "set a \<union> set b \<noteq> {}"
    using that by (auto simp: jaccard_def inter_length_distinct length_remdups_card_conv Let_def)
  then show ?thesis by (auto simp: jaccard_def)
qed

text \<open>
  A valid unit listen plan has a posture the unit can run, an upstream only as a reverse proxy,
  no followed unit when it intercepts, normalised trusted proxies and a model window inside the
  platform bounds.
\<close>

theorem ValidateUnitListenPlan_sound:
  assumes "ValidateUnitListenPlan N (Some plan) = None"
  shows "plan_version plan \<noteq> 0 \<and> 1 \<le> posture_number (plan_posture plan) \<and> posture_number (plan_posture plan) \<le> 4 \<and>
         (trim_space (plan_upstream_url plan) \<noteq> [] \<longleftrightarrow> plan_posture plan = INGRESS_POSTURE_REVERSE_PROXY) \<and>
         (Intercepts (plan_posture plan) \<longrightarrow> trim_space (plan_follow_unit_id plan) = []) \<and>
         NormalizeTrustedProxyCIDRs N (plan_trusted_proxy_cidrs plan) = Inr (plan_trusted_proxy_cidrs plan) \<and>
         (\<exists>w. NormalizeModelIngressWindow (plan_model_ingress_window plan) = Inr w)"
  using assms
  by (auto simp: ValidateUnitListenPlan_def validateUpstreamURL_def Let_def
        split: if_splits option.splits sum.splits)

subsection \<open>Witnesses\<close>

definition demo_plan :: "string \<Rightarrow> ingress_posture \<Rightarrow> unit_listen_plan" where
  "demo_plan u posture = \<lparr>plan_unit_id = u, plan_posture = posture, plan_traffic_key = ''shop'',
     plan_follow_unit_id = [], plan_version = 1, plan_listen_address = '':80'', plan_upstream_url = [],
     plan_signature = None, plan_trusted_proxy_cidrs = [],
     plan_model_ingress_window = Some DefaultModelIngressWindow\<rparr>"

definition demo_netlib :: netlib where
  "demo_netlib = \<lparr>split_host_port = \<lambda>_. Some ([], ''80''), is_ip = \<lambda>_. True, parse_url = \<lambda>_. None,
     masked_prefix = \<lambda>s. Some s\<rparr>"

lemma demo_plan_valid: "ValidateUnitListenPlan demo_netlib (Some (demo_plan ''u1'' INGRESS_POSTURE_EXT_AUTHZ)) = None"
  by (simp add: ValidateUnitListenPlan_def demo_plan_def demo_netlib_def validateListenAddress_def
        trim_space_def is_space_def atoi_def digit_value_def NormalizeTrustedProxyCIDRs_def
        cleanTrustedProxyCIDRs_def TrustedProxyCIDRLimit_def NormalizeModelIngressWindow_def
        DefaultModelIngressWindow_def ModelIngressDefaultItems_def ModelIngressDefaultBytes_def
        ModelIngressDefaultAge_def ModelIngressAbsoluteMaxItems_def ModelIngressAbsoluteMinBytes_def
        ModelIngressAbsoluteMaxBytes_def ModelIngressAbsoluteMinAge_def ModelIngressAbsoluteMaxAge_def
        go_simps)

theorem ValidateListenPlans_iff_witness:
  "ValidateListenPlans [Some (demo_plan ''u1'' INGRESS_POSTURE_EXT_AUTHZ),
     Some (demo_plan ''u2'' INGRESS_POSTURE_TAP_ALERT)] = None \<and>
   ValidateListenPlans [Some (demo_plan ''u1'' INGRESS_POSTURE_EXT_AUTHZ),
     Some (demo_plan ''u2'' INGRESS_POSTURE_REVERSE_PROXY)] \<noteq> None"
  unfolding ValidateListenPlans_iff
  by (auto simp: demo_plan_def trim_space_def is_space_def compatible_def intercepting_def Intercepts_def
        ResolvePosture_def)

theorem jaccard_duplicates_witness:
  "jaccard [''/a'', ''/b''] [''/b'', ''/c''] = 1 / 3"
  using jaccard_duplicates [of "[''/b'', ''/c'']" "[''/a'', ''/b'']"]
  by (simp add: card_insert_if)

theorem ValidateUnitListenPlan_sound_witness:
  "ValidateUnitListenPlan demo_netlib (Some (demo_plan ''u1'' INGRESS_POSTURE_EXT_AUTHZ)) = None \<and>
   NormalizeTrustedProxyCIDRs demo_netlib [] = Inr []"
  using ValidateUnitListenPlan_sound [OF demo_plan_valid] demo_plan_valid by (simp add: demo_plan_def)

end
