(* ===== verification/Source.thy ===== *)
theory Source
  imports Listen
begin

text \<open>
  The client source of a request (\<^verbatim>\<open>src/lib/edgecore/source.go\<close>): resolving the forwarded chain
  against the signed trusted-proxy prefixes, and the keyed pseudonym of an address. The textual
  parsers of package net/netip are parameters; address bytes, prefix containment, HMAC and base64
  are computed.
\<close>

record addrlib = netlib +
  parse_addr :: "string \<Rightarrow> ip_addr option"
  parse_prefix :: "string \<Rightarrow> (bytes \<times> nat) option" \<comment> \<open>masked address and number of bits\<close>

subsection \<open>Addresses (package net/netip)\<close>

definition byte_bits :: "char \<Rightarrow> bool list" where
  "byte_bits c = map (\<lambda>i. bit (of_char c :: nat) i) [7, 6, 5, 4, 3, 2, 1, 0]"

definition address_bits :: "bytes \<Rightarrow> bool list" where
  "address_bits b = concat (map byte_bits b)"

definition prefix_Contains :: "bytes \<times> nat \<Rightarrow> ip_addr \<Rightarrow> bool" where
  "prefix_Contains pre a \<longleftrightarrow>
     ip_zone a = [] \<and> length (ip_bytes a) = length (fst pre) \<and>
     take (snd pre) (address_bits (ip_bytes a)) = take (snd pre) (address_bits (fst pre))"

definition mapped_prefix :: bytes where
  "mapped_prefix = replicate 10 (CHR 0x00) @ replicate 2 (CHR 0xFF)"

definition Unmap :: "ip_addr \<Rightarrow> ip_addr" where
  "Unmap a =
     (if length (ip_bytes a) = 16 \<and> take 12 (ip_bytes a) = mapped_prefix
      then \<lparr>ip_bytes = drop 12 (ip_bytes a), ip_zone = []\<rparr> else a)"

subsection \<open>The resolver\<close>

record ClientSourceResolver =
  trusted_prefixes :: "(bytes \<times> nat) list"

datatype source_error = SourceCIDRs listen_error | SourceReparse

definition NewClientSourceResolver :: "addrlib \<Rightarrow> string list \<Rightarrow> source_error + ClientSourceResolver" where
  "NewClientSourceResolver N cidrs =
     (case NormalizeTrustedProxyCIDRs N cidrs of
        Inl e \<Rightarrow> Inl (SourceCIDRs e)
      | Inr normalized \<Rightarrow>
          if list_ex (\<lambda>raw. parse_prefix N raw = None) normalized then Inl SourceReparse
          else Inr \<lparr>trusted_prefixes = map (\<lambda>raw. the (parse_prefix N raw)) normalized\<rparr>)"

definition resolver_contains :: "ClientSourceResolver option \<Rightarrow> ip_addr option \<Rightarrow> bool" where
  "resolver_contains r addr =
     (case (r, addr) of
        (Some r, Some a) \<Rightarrow> list_ex (\<lambda>pre. prefix_Contains pre a) (trusted_prefixes r)
      | _ \<Rightarrow> False)"

definition parsePeerAddress :: "addrlib \<Rightarrow> string \<Rightarrow> ip_addr option" where
  "parsePeerAddress N raw0 =
     (let raw = trim_space raw0;
          direct = (case parse_addr N raw of Some a \<Rightarrow> if ip_zone a = [] then Some a else None | None \<Rightarrow> None) in
      case direct of
        Some a \<Rightarrow> Some (Unmap a)
      | None \<Rightarrow>
          (case split_host_port N raw of
             None \<Rightarrow> None
           | Some (host, port) \<Rightarrow>
               (case parse_addr N host of
                  None \<Rightarrow> None
                | Some a \<Rightarrow> if ip_zone a \<noteq> [] then None else Some (Unmap a))))"

definition chain_entry :: "addrlib \<Rightarrow> string \<Rightarrow> ip_addr option" where
  "chain_entry N raw =
     (let part = trim_space raw in
      case parse_addr N part of
        None \<Rightarrow> None
      | Some a \<Rightarrow> if part = [] \<or> ip_zone a \<noteq> [] then None else Some (Unmap a))"

text \<open>The forwarded chain, left to right over all header values; \<open>None\<close> when an entry is invalid.\<close>

definition forwarded_chain :: "addrlib \<Rightarrow> string list \<Rightarrow> ip_addr list option" where
  "forwarded_chain N values =
     those (map (chain_entry N) (concat (map (split_on (CHR '','')) values)))"

fun last_untrusted :: "ClientSourceResolver option \<Rightarrow> ip_addr \<Rightarrow> ip_addr list \<Rightarrow> ip_addr" where
  "last_untrusted r source [] = source"
| "last_untrusted r source (a # rest) =
     (if \<not> resolver_contains r (Some a) then a else last_untrusted r a rest)"

definition Resolve :: "addrlib \<Rightarrow> ClientSourceResolver option \<Rightarrow> string \<Rightarrow> (string \<times> string list) list \<Rightarrow> ip_addr option" where
  "Resolve N r remoteAddress hdrs =
     (let direct = parsePeerAddress N remoteAddress;
          values = (case map_of hdrs ''X-Forwarded-For'' of None \<Rightarrow> [] | Some vs \<Rightarrow> vs) in
      case direct of
        None \<Rightarrow> None
      | Some peer \<Rightarrow>
          if r = None \<or> \<not> resolver_contains r direct then direct
          else if values = [] then direct
          else case forwarded_chain N values of
            None \<Rightarrow> direct
          | Some chain \<Rightarrow> if chain = [] then direct else Some (last_untrusted r peer (rev chain)))"

subsection \<open>Pseudonyms\<close>

definition xor_byte :: "nat \<Rightarrow> char \<Rightarrow> char" where
  "xor_byte k c = char_of (Bit_Operations.xor k (of_char c :: nat))"

definition hmac_sha256 :: "'a golib_scheme \<Rightarrow> bytes \<Rightarrow> bytes \<Rightarrow> bytes" where
  "hmac_sha256 L key m =
     (let k = key @ replicate (64 - length key) (CHR 0x00) in
      sha256 L (map (xor_byte 0x5c) k @ sha256 L (map (xor_byte 0x36) k @ m)))"

definition base64_url_alphabet :: string where
  "base64_url_alphabet = ''ABCDEFGHIJKLMNOPQRSTUVWXYZabcdefghijklmnopqrstuvwxyz0123456789-_''"

definition sextet :: "nat \<Rightarrow> char" where
  "sextet n = base64_url_alphabet ! (n mod 64)"

fun base64_raw_url :: "bytes \<Rightarrow> string" where
  "base64_raw_url (a # b # c # rest) =
     (let n = of_char a * 65536 + of_char b * 256 + (of_char c :: nat) in
      sextet (n div 262144) # sextet (n div 4096) # sextet (n div 64) # sextet n # base64_raw_url rest)"
| "base64_raw_url [a, b] =
     (let n = of_char a * 65536 + of_char b * (256 :: nat) in
      [sextet (n div 262144), sextet (n div 4096), sextet (n div 64)])"
| "base64_raw_url [a] =
     (let n = of_char a * (65536 :: nat) in [sextet (n div 262144), sextet (n div 4096)])"
| "base64_raw_url [] = []"

record SourcePseudonymizer =
  pseudo_key :: bytes
  pseudo_keyID :: string

definition NewSourcePseudonymizer :: "'a golib_scheme \<Rightarrow> bytes \<Rightarrow> SourcePseudonymizer option" where
  "NewSourcePseudonymizer L key =
     (if length key \<noteq> 32 then None
      else Some \<lparr>pseudo_key = key, pseudo_keyID = hex_encode (take 8 (sha256 L key))\<rparr>)"

definition Pseudonym :: "'a golib_scheme \<Rightarrow> SourcePseudonymizer \<Rightarrow> ip_addr option \<Rightarrow> string" where
  "Pseudonym L p addr =
     (case addr of
        None \<Rightarrow> []
      | Some a \<Rightarrow>
          if pseudo_keyID p = [] then []
          else ''h1.'' @ pseudo_keyID p @ ''.'' @
            base64_raw_url (hmac_sha256 L (pseudo_key p)
              (''yufeng/client-source/v1'' @ [CHR 0x00] @ ip_bytes (Unmap a))))"

subsection \<open>Lemmas\<close>

lemma last_untrusted_skip:
  "list_all (\<lambda>p. resolver_contains r (Some p)) proxies \<Longrightarrow> \<not> resolver_contains r (Some a) \<Longrightarrow>
     last_untrusted r source (proxies @ a # rest) = a"
  by (induction proxies arbitrary: source) auto

lemma last_untrusted_all:
  "list_all (\<lambda>p. resolver_contains r (Some p)) chain \<Longrightarrow> last_untrusted r source chain = last (source # chain)"
  by (induction chain arbitrary: source) auto

lemma Unmap_idem [simp]: "Unmap (Unmap a) = Unmap a"
  by (auto simp: Unmap_def)

lemma Pseudonym_unmapped: "Pseudonym L p (Some (Unmap a)) = Pseudonym L p (Some a)"
  by (simp add: Pseudonym_def)

subsection \<open>Properties\<close>


subsection \<open>Witnesses\<close>

text \<open>Addresses written as their four bytes, and one trusted prefix of eight bits.\<close>

definition demo_addrlib :: addrlib where
  "demo_addrlib = netlib.extend demo_netlib
     \<lparr>parse_addr = \<lambda>s. if length s = 4 then Some \<lparr>ip_bytes = s, ip_zone = []\<rparr> else None,
      parse_prefix = \<lambda>s. Some (s, 8)\<rparr>"

definition demo_resolver :: ClientSourceResolver where
  "demo_resolver = \<lparr>trusted_prefixes = [(''Txxx'', 8)]\<rparr>"


end
