(* ===== verification/Release_Set.thy ===== *)
theory Release_Set
  imports Release_Gate Generation_Store Source
begin

text \<open>
  The release set of an edge (\<^verbatim>\<open>src/lib/edgecore/release_set.go\<close>): loading and retiring signed
  members, atomic snapshots and generations, the unit listen plan, and checking a request. The
  wall clock is an argument of each operation, read once per operation. The process-wide inspector
  registry is passed through. The JSON decoders of the payloads (package protojson, encoding/json)
  are parameters; a persistence callback answers with an error text or \<open>None\<close>. Maps are
  association lists with distinct keys in the order a range over them visits.
\<close>

record payloadlib = inspectlib +
  decode_rules :: "bytes \<Rightarrow> Rule list option"
  decode_policy :: "bytes \<Rightarrow> PolicyCandidate option"
  decode_manifest :: "bytes \<Rightarrow> DetectorManifest option"
  decode_mapper :: "bytes \<Rightarrow> TaxonomyMapper option"
  decode_profile :: "bytes \<Rightarrow> inspection_profile option"
  decode_evidence_policy :: "bytes \<Rightarrow> int option" \<comment> \<open>the tier\<close>
  decode_digest :: "bytes \<Rightarrow> EvidenceDigest option"
  decode_forward :: "bytes \<Rightarrow> forward_policy_kind option"
  decode_review :: "bytes \<Rightarrow> TrafficReviewPolicy option"
  decode_model_profile :: "bytes \<Rightarrow> ModelProfile option"
  decode_shape :: "bytes \<Rightarrow> ShapeSource option"
  unwrap_member :: "bytes \<Rightarrow> string \<Rightarrow> bytes option"

subsection \<open>State\<close>

record ReleaseSet =
  rs_releases :: "(string \<times> managedRelease) list"
  rs_counters :: "(string \<times> counter) list"
  rs_inspectors :: "Inspector list"
  rs_inspectorByRel :: "(string \<times> string) list"
  rs_mapper :: "TaxonomyMapper option"
  rs_profile :: "inspection_profile option"
  rs_digest :: "EvidenceDigest option"
  rs_evidencePol :: "int option"
  rs_forward :: "forward_policy_kind option"
  rs_reviewPolicy :: "TrafficReviewPolicy option"
  rs_reviewDigest :: string
  rs_modelProfile :: "ModelProfile option"
  rs_modelDigest :: string
  rs_posture :: ingress_posture
  rs_listen :: "unit_listen_plan option"
  rs_activeGen :: "asset_generation option"
  rs_edgeVersion :: string

definition MinimumEdgeVersion :: string where "MinimumEdgeVersion = ''dev''"

definition NewReleaseSet :: "string list \<Rightarrow> ReleaseSet" where
  "NewReleaseSet edgeVersion =
     \<lparr>rs_releases = [], rs_counters = [], rs_inspectors = [], rs_inspectorByRel = [], rs_mapper = None,
      rs_profile = None, rs_digest = None, rs_evidencePol = None, rs_forward = None, rs_reviewPolicy = None,
      rs_reviewDigest = [], rs_modelProfile = None, rs_modelDigest = [],
      rs_posture = INGRESS_POSTURE_REVERSE_PROXY, rs_listen = None, rs_activeGen = None,
      rs_edgeVersion = (if edgeVersion \<noteq> [] \<and> trim_space (hd edgeVersion) \<noteq> [] then trim_space (hd edgeVersion)
                        else MinimumEdgeVersion)\<rparr>"

definition defaultReleaseTTL :: duration where "defaultReleaseTTL = 24 * Hour"

definition RulePayloadSchema :: string where "RulePayloadSchema = ''rules/v1''"
definition PolicyPayloadSchema :: string where "PolicyPayloadSchema = ''policy/v1''"
definition TrafficReviewPolicySchema :: string where "TrafficReviewPolicySchema = ''traffic-review-policy/v1''"
definition DetectorManifestSchema :: string where "DetectorManifestSchema = ''detector-manifest/v1''"
definition TaxonomyMapperSchema :: string where "TaxonomyMapperSchema = ''taxonomy/v1''"

datatype set_error =
    ReleaseItemEmpty | ReleaseVerify string kernel_error | RulesParse | RuleSetInvalid rule_error
  | PayloadInvalid string artifact_kind | PolicyKeysRequired string | InspectorFailed registry_error
  | ReviewInvalid string review_error | ModelInvalid string profile_error | ListenPlanIndependent string
  | ShapeInvalid string shape_error | UnsupportedKind string artifact_kind string
  | CanaryPercentRange string int | ReleaseExpired string
  | GenerationRejected store_error | MinEdgeVersionRequired | EdgeVersionTooOld string string
  | ManifestDecode | DependenciesIncomplete string | ManifestMismatch string | ProfileMismatch string
  | MinVersionMismatch string | PersistFailed string
  | PlanVerify kernel_error | PlanInvalid listen_error | PlanTargetMismatch | PlanVersionMustIncrease
  | PlanVersionSkips

subsection \<open>Posture and accessors\<close>

definition SetPosture :: "ReleaseSet \<Rightarrow> ingress_posture \<Rightarrow> ReleaseSet" where
  "SetPosture s p = s\<lparr>rs_posture := ResolvePosture p\<rparr>"

definition Posture :: "ReleaseSet \<Rightarrow> ingress_posture" where
  "Posture s = ResolvePosture (rs_posture s)"

definition CurrentListenPlan :: "ReleaseSet \<Rightarrow> unit_listen_plan option" where
  "CurrentListenPlan s = rs_listen s"

definition ForwardKind :: "ReleaseSet \<Rightarrow> forward_policy_kind" where
  "ForwardKind s =
     (case rs_forward s of
        None \<Rightarrow> DefaultForwardKind FORWARD_POLICY_KIND_UNSPECIFIED
      | Some k \<Rightarrow> DefaultForwardKind k)"

definition set_ModelProfile :: "ReleaseSet \<Rightarrow> ModelProfile option \<times> string" where
  "set_ModelProfile s = (case rs_modelProfile s of None \<Rightarrow> (None, []) | Some p \<Rightarrow> (Some p, rs_modelDigest s))"

definition set_Digest :: "ReleaseSet \<Rightarrow> EvidenceDigest" where
  "set_Digest s = (case rs_digest s of None \<Rightarrow> DefaultEvidenceDigest | Some d \<Rightarrow> d)"

definition profileOrDefault :: "ReleaseSet \<Rightarrow> inspection_profile" where
  "profileOrDefault s = (case rs_profile s of None \<Rightarrow> DefaultInspectionProfile | Some p \<Rightarrow> p)"

definition CurrentGenerationSeq :: "ReleaseSet \<Rightarrow> int" where
  "CurrentGenerationSeq s = (case rs_activeGen s of None \<Rightarrow> 0 | Some g \<Rightarrow> gen_seq g)"

subsection \<open>Inspectors\<close>

fun without_first :: "string \<Rightarrow> Inspector list \<Rightarrow> Inspector list" where
  "without_first i [] = []"
| "without_first i (ins # rest) = (if ins_ID ins = i then rest else ins # without_first i rest)"

definition removeInspectorLocked :: "string \<Rightarrow> ReleaseSet \<Rightarrow> ReleaseSet" where
  "removeInspectorLocked i s = s\<lparr>rs_inspectors := without_first i (rs_inspectors s)\<rparr>"

definition installManifest ::
  "payloadlib \<Rightarrow> registry \<Rightarrow> ReleaseSet \<Rightarrow> string \<Rightarrow> artifact \<Rightarrow> set_error option \<times> ReleaseSet \<times> registry" where
  "installManifest P reg s releaseID a =
     (case decode_manifest P (art_payload a) of
        None \<Rightarrow> (Some (PayloadInvalid releaseID KIND_DETECTOR_MANIFEST), s, reg)
      | Some man \<Rightarrow>
          (case CompileInspector reg (Some man) of
             (Inl e, reg) \<Rightarrow> (Some (InspectorFailed e), s, reg)
           | (Inr ins, reg) \<Rightarrow>
               (let s = (case map_of (rs_inspectorByRel s) releaseID of
                           None \<Rightarrow> s | Some prev \<Rightarrow> removeInspectorLocked prev s) in
                (None, s\<lparr>rs_inspectors := rs_inspectors s @ [ins],
                         rs_inspectorByRel := AList.update releaseID (ins_ID ins) (rs_inspectorByRel s)\<rparr>, reg))))"

subsection \<open>Applying a member\<close>

definition release_expiry :: "instant \<Rightarrow> artifact \<Rightarrow> instant" where
  "release_expiry now a =
     (case (art_created_at a, art_ttl a) of
        (Some created, Some ttl) \<Rightarrow> created + ttl | _ \<Rightarrow> now + defaultReleaseTTL)"

definition new_release ::
  "instant \<Rightarrow> release_item \<Rightarrow> artifact \<Rightarrow> RuleDetector option \<Rightarrow> PolicyCandidate option \<Rightarrow>
   compiledShape option \<Rightarrow> managedRelease" where
  "new_release now item a detector policy shape =
     \<lparr>mr_releaseID = item_release_id item, mr_artifactID = art_id a, mr_detector = detector,
      mr_prefix = (case art_scope a of None \<Rightarrow> [] | Some sc \<Rightarrow> scope_route_selector sc),
      mr_policy = policy, mr_shape = shape, mr_mode = item_mode item,
      mr_canaryPercent = item_canary_percent item, mr_expiresAt = release_expiry now a\<rparr>"

definition install_release ::
  "instant \<Rightarrow> ReleaseSet \<Rightarrow> release_item \<Rightarrow> artifact \<Rightarrow> RuleDetector option \<Rightarrow> PolicyCandidate option \<Rightarrow>
   compiledShape option \<Rightarrow> set_error option \<times> ReleaseSet" where
  "install_release now s item a detector policy shape =
     (let rid = item_release_id item in
      if item_mode item = RELEASE_MODE_CANARY \<and>
         (item_canary_percent item < CanaryPercentMin \<or> item_canary_percent item > CanaryPercentMax)
        then (Some (CanaryPercentRange rid (item_canary_percent item)), s)
      else if \<not> release_expiry now a > now then (Some (ReleaseExpired rid), s)
      else (None, s\<lparr>rs_releases := AList.update rid (new_release now item a detector policy shape) (rs_releases s),
            rs_counters := (case map_of (rs_counters s) rid of
                              None \<Rightarrow> AList.update rid new_counter (rs_counters s)
                            | Some c \<Rightarrow> rs_counters s)\<rparr>))"

text \<open>The kinds the gate enforces, each compiled from its payload and installed.\<close>

definition apply_gate ::
  "payloadlib \<Rightarrow> instant \<Rightarrow> ReleaseSet \<Rightarrow> release_item \<Rightarrow> artifact \<Rightarrow> set_error option \<times> ReleaseSet" where
  "apply_gate P now s item a =
     (let rid = item_release_id item; payload = art_payload a in
      case art_kind a of
        KIND_RULE \<Rightarrow>
          (case decode_rules P payload of
             None \<Rightarrow> (Some RulesParse, s)
           | Some rules \<Rightarrow>
               (case NewRuleDetector P (art_id a) rules of
                  Inl e \<Rightarrow> (Some (RuleSetInvalid e), s)
                | Inr d \<Rightarrow> install_release now s item a (Some d) None None))
      | KIND_POLICY \<Rightarrow>
          (case decode_policy P payload of
             None \<Rightarrow> (Some (PayloadInvalid rid KIND_POLICY), s)
           | Some cand \<Rightarrow>
               if (case cand_Predicate cand of None \<Rightarrow> True | Some pr \<Rightarrow> length (prd_DetectionKeys pr) = 0)
               then (Some (PolicyKeysRequired rid), s)
               else install_release now s item a None (Some cand) None)
      | KIND_SHAPE \<Rightarrow>
          (case parseShapeSource (decode_shape P) (unwrap_member P) payload of
             Inl e \<Rightarrow> (Some (ShapeInvalid rid e), s)
           | Inr src \<Rightarrow>
               (case compileShape (Some src) of
                  Inl e \<Rightarrow> (Some (ShapeInvalid rid e), s)
                | Inr shape \<Rightarrow> install_release now s item a None None (Some shape)))
      | kind \<Rightarrow> (Some (UnsupportedKind rid kind (art_payload_schema a)), s))"

text \<open>The kinds that replace one setting of the set.\<close>

definition set_field :: "string \<Rightarrow> artifact \<Rightarrow> ReleaseSet \<Rightarrow> 'v option \<Rightarrow> ('v \<Rightarrow> ReleaseSet) \<Rightarrow> set_error option \<times> ReleaseSet" where
  "set_field rid a s decoded put =
     (case decoded of None \<Rightarrow> (Some (PayloadInvalid rid (art_kind a)), s) | Some v \<Rightarrow> (None, put v))"

definition apply_setting ::
  "payloadlib \<Rightarrow> ReleaseSet \<Rightarrow> string \<Rightarrow> artifact \<Rightarrow> set_error option \<times> ReleaseSet" where
  "apply_setting P s rid a =
     (let payload = art_payload a in
      case art_kind a of
        KIND_TAXONOMY_MAPPER \<Rightarrow> set_field rid a s (decode_mapper P payload) (\<lambda>m. s\<lparr>rs_mapper := Some m\<rparr>)
      | KIND_NORMALIZER_PROFILE \<Rightarrow> set_field rid a s (decode_profile P payload) (\<lambda>p. s\<lparr>rs_profile := Some p\<rparr>)
      | KIND_EVIDENCE_POLICY \<Rightarrow>
          set_field rid a s (decode_evidence_policy P payload) (\<lambda>p. s\<lparr>rs_evidencePol := Some p\<rparr>)
      | KIND_EVIDENCE_DIGEST \<Rightarrow> set_field rid a s (decode_digest P payload) (\<lambda>d. s\<lparr>rs_digest := Some d\<rparr>)
      | KIND_FORWARD_POLICY \<Rightarrow> set_field rid a s (decode_forward P payload) (\<lambda>f. s\<lparr>rs_forward := Some f\<rparr>)
      | KIND_TRAFFIC_REVIEW_POLICY \<Rightarrow>
          (case decode_review P payload of
             None \<Rightarrow> (Some (PayloadInvalid rid KIND_TRAFFIC_REVIEW_POLICY), s)
           | Some p \<Rightarrow>
               (case ValidateTrafficReviewPolicy (Some p) of
                  Some e \<Rightarrow> (Some (ReviewInvalid rid e), s)
                | None \<Rightarrow> (None, s\<lparr>rs_reviewPolicy := Some p, rs_reviewDigest := art_id a\<rparr>)))
      | KIND_MODEL_PROFILE \<Rightarrow>
          (case decode_model_profile P payload of
             None \<Rightarrow> (Some (PayloadInvalid rid KIND_MODEL_PROFILE), s)
           | Some p \<Rightarrow>
               (case NormalizeModelProfile P (Some p) of
                  Inl e \<Rightarrow> (Some (ModelInvalid rid e), s)
                | Inr n \<Rightarrow> (None, s\<lparr>rs_modelProfile := Some n, rs_modelDigest := art_id a\<rparr>)))
      | KIND_LISTEN_PLAN \<Rightarrow> (Some (ListenPlanIndependent rid), s)
      | kind \<Rightarrow> (Some (UnsupportedKind rid kind (art_payload_schema a)), s))"

text \<open>Kinds that are accepted only under their payload schema; the other kinds carry no such guard.\<close>

definition schema_ok :: "artifact_kind \<Rightarrow> string \<Rightarrow> bool" where
  "schema_ok kind schema =
     (case kind of
        KIND_RULE \<Rightarrow> schema = RulePayloadSchema
      | KIND_POLICY \<Rightarrow> schema = PolicyPayloadSchema
      | KIND_DETECTOR_MANIFEST \<Rightarrow> schema = DetectorManifestSchema \<or> schema = []
      | KIND_TAXONOMY_MAPPER \<Rightarrow> schema = TaxonomyMapperSchema \<or> schema = ''taxonomy/v1''
      | KIND_TRAFFIC_REVIEW_POLICY \<Rightarrow> schema = TrafficReviewPolicySchema
      | KIND_MODEL_PROFILE \<Rightarrow> schema = ''model-profile/v1''
      | _ \<Rightarrow> True)"

definition applyMember ::
  "payloadlib \<Rightarrow> instant \<Rightarrow> registry \<Rightarrow> ReleaseSet \<Rightarrow> release_item \<Rightarrow> artifact \<Rightarrow>
   set_error option \<times> ReleaseSet \<times> registry" where
  "applyMember P now reg s item a =
     (let rid = item_release_id item; kind = art_kind a in
      if \<not> schema_ok kind (art_payload_schema a)
        then (Some (UnsupportedKind rid kind (art_payload_schema a)), s, reg)
      else if kind = KIND_DETECTOR_MANIFEST then installManifest P reg s rid a
      else let (e, s') = (if kind \<in> {KIND_RULE, KIND_POLICY, KIND_SHAPE} then apply_gate P now s item a
                          else apply_setting P s rid a) in (e, s', reg))"

definition retire_release :: "ReleaseSet \<Rightarrow> string \<Rightarrow> ReleaseSet" where
  "retire_release s rid =
     (let s = (case map_of (rs_inspectorByRel s) rid of
                 None \<Rightarrow> s
               | Some i \<Rightarrow> (removeInspectorLocked i s)\<lparr>rs_inspectorByRel := AList.delete rid (rs_inspectorByRel s)\<rparr>) in
      s\<lparr>rs_releases := AList.delete rid (rs_releases s), rs_counters := AList.delete rid (rs_counters s)\<rparr>)"

definition Apply ::
  "payloadlib \<Rightarrow> instant \<Rightarrow> registry \<Rightarrow> ReleaseSet \<Rightarrow> release_item option \<Rightarrow> bytes \<Rightarrow>
   set_error option \<times> ReleaseSet \<times> registry" where
  "Apply P now reg s arg pub =
     (case arg of
        None \<Rightarrow> (Some ReleaseItemEmpty, s, reg)
      | Some item \<Rightarrow>
          (case item_artifact item of
             None \<Rightarrow> (Some ReleaseItemEmpty, s, reg)
           | Some a \<Rightarrow>
               if item_retired item then (None, retire_release s (item_release_id item), reg)
               else case VerifyArtifact P (Some a) pub of
                 Some e \<Rightarrow> (Some (ReleaseVerify (item_release_id item) e), s, reg)
               | None \<Rightarrow> applyMember P now reg s item a))"

text \<open>The member loop of snapshots and generations: nil items are skipped, the first error stops it.\<close>

fun apply_all ::
  "payloadlib \<Rightarrow> instant \<Rightarrow> registry \<Rightarrow> ReleaseSet \<Rightarrow> release_item option list \<Rightarrow> bytes \<Rightarrow>
   set_error option \<times> ReleaseSet \<times> registry" where
  "apply_all P now reg s [] pub = (None, s, reg)"
| "apply_all P now reg s (None # items) pub = apply_all P now reg s items pub"
| "apply_all P now reg s (Some item # items) pub =
     (case Apply P now reg s (Some item) pub of
        (Some e, s', reg') \<Rightarrow> (Some e, s', reg')
      | (None, s', reg') \<Rightarrow> apply_all P now reg' s' items pub)"

subsection \<open>Edge versions\<close>

text \<open>\<open>strings.FieldsFunc\<close>: the non-empty pieces between separators.\<close>

fun fields_func :: "(char \<Rightarrow> bool) \<Rightarrow> string \<Rightarrow> string \<Rightarrow> string list" where
  "fields_func sep cur [] = (if cur = [] then [] else [cur])"
| "fields_func sep cur (c # s) =
     (if sep c then (if cur = [] then [] else [cur]) @ fields_func sep [] s else fields_func sep (cur @ [c]) s)"

definition parse_version :: "string \<Rightarrow> int list option" where
  "parse_version raw =
     (let chunks = fields_func (\<lambda>c. c = CHR ''-'' \<or> c = CHR ''+'') [] raw in
      if chunks = [] then None
      else let parts = split_on (CHR ''.'') (hd chunks) in
        if length parts \<noteq> 3 then None
        else if list_all (\<lambda>p. case atoi p of None \<Rightarrow> False | Some v \<Rightarrow> v \<ge> 0) parts
          then Some (map (\<lambda>p. the (atoi p)) parts) else None)"

fun version_at_least :: "int list \<Rightarrow> int list \<Rightarrow> bool" where
  "version_at_least (a # as) (r # rs) = (if a \<noteq> r then a > r else version_at_least as rs)"
| "version_at_least _ _ = True"

definition edgeVersionCompatible :: "string \<Rightarrow> string \<Rightarrow> bool" where
  "edgeVersionCompatible actual0 required0 =
     (let actual = trim_prefix (trim_space actual0) ''v''; required = trim_prefix (trim_space required0) ''v'' in
      if required = ''dev'' then True
      else case (parse_version actual, parse_version required) of
        (Some a, Some r) \<Rightarrow> version_at_least a r
      | _ \<Rightarrow> actual = required)"

subsection \<open>Snapshots and generations\<close>

definition swapFrom :: "ReleaseSet \<Rightarrow> ReleaseSet \<Rightarrow> asset_generation option \<Rightarrow> ReleaseSet" where
  "swapFrom s next active =
     s\<lparr>rs_releases := rs_releases next, rs_inspectors := rs_inspectors next,
       rs_inspectorByRel := rs_inspectorByRel next, rs_mapper := rs_mapper next, rs_profile := rs_profile next,
       rs_digest := rs_digest next, rs_evidencePol := rs_evidencePol next, rs_forward := rs_forward next,
       rs_reviewPolicy := rs_reviewPolicy next, rs_reviewDigest := rs_reviewDigest next,
       rs_modelProfile := rs_modelProfile next, rs_modelDigest := rs_modelDigest next,
       rs_activeGen := (case active of None \<Rightarrow> rs_activeGen s | Some g \<Rightarrow> Some g),
       rs_counters := map (\<lambda>(i, r). (i, case map_of (rs_counters s) i of Some c \<Rightarrow> c | None \<Rightarrow> new_counter))
         (rs_releases next)\<rparr>"

definition fresh_set :: "ReleaseSet \<Rightarrow> ReleaseSet" where
  "fresh_set s = (NewReleaseSet [rs_edgeVersion s])\<lparr>rs_posture := rs_posture s, rs_listen := rs_listen s\<rparr>"

definition ApplySnapshot ::
  "payloadlib \<Rightarrow> instant \<Rightarrow> registry \<Rightarrow> ReleaseSet \<Rightarrow> release_item option list \<Rightarrow> bytes \<Rightarrow>
   set_error option \<times> ReleaseSet \<times> registry" where
  "ApplySnapshot P now reg s items pub =
     (case apply_all P now reg (fresh_set s) items pub of
        (Some e, next, reg') \<Rightarrow> (Some e, s, reg')
      | (None, next, reg') \<Rightarrow> (None, swapFrom s next None, reg'))"

fun manifest_digests :: "payloadlib \<Rightarrow> release_item option list \<Rightarrow> string list option" where
  "manifest_digests P [] = Some []"
| "manifest_digests P (m # ms) =
     (case (case m of None \<Rightarrow> None | Some item \<Rightarrow> item_artifact item) of
        None \<Rightarrow> manifest_digests P ms
      | Some a \<Rightarrow>
          if art_kind a = KIND_DETECTOR_MANIFEST then
            (case decode_manifest P (art_payload a) of
               None \<Rightarrow> None
             | Some man \<Rightarrow>
                 map_option (\<lambda>ds. if man_TarballSha256 man \<noteq> [] then man_TarballSha256 man # ds else ds)
                   (manifest_digests P ms))
          else manifest_digests P ms)"

definition profile_present :: "release_item option list \<Rightarrow> bool" where
  "profile_present ms \<longleftrightarrow>
     list_ex (\<lambda>m. case m of None \<Rightarrow> False
       | Some item \<Rightarrow> (case item_artifact item of None \<Rightarrow> False | Some a \<Rightarrow> art_kind a = KIND_NORMALIZER_PROFILE)) ms"

definition dependency_error ::
  "string list \<Rightarrow> string \<Rightarrow> asset_generation \<Rightarrow> managedRelease \<Rightarrow> set_error option" where
  "dependency_error manifestDigests profileDigest gen r =
     (case mr_policy r of
        None \<Rightarrow> None
      | Some pol \<Rightarrow>
          (case cand_Dependencies pol of
             None \<Rightarrow> Some (DependenciesIncomplete (mr_releaseID r))
           | Some deps \<Rightarrow>
               if dep_DetectorManifestDigest deps = [] \<or> dep_NormalizerProfileDigest deps = [] \<or>
                  dep_MinEdgeVersion deps = [] then Some (DependenciesIncomplete (mr_releaseID r))
               else if dep_DetectorManifestDigest deps \<notin> set manifestDigests
                 then Some (ManifestMismatch (mr_releaseID r))
               else if profileDigest = [] \<or> dep_NormalizerProfileDigest deps \<noteq> profileDigest
                 then Some (ProfileMismatch (mr_releaseID r))
               else if dep_MinEdgeVersion deps \<noteq> gen_min_edge_version gen
                 then Some (MinVersionMismatch (mr_releaseID r))
               else None))"

fun first_error :: "('a \<Rightarrow> 'e option) \<Rightarrow> 'a list \<Rightarrow> 'e option" where
  "first_error f [] = None"
| "first_error f (x # xs) = (case f x of Some e \<Rightarrow> Some e | None \<Rightarrow> first_error f xs)"

definition validateGenerationDependencies ::
  "payloadlib \<Rightarrow> asset_generation \<Rightarrow> ReleaseSet \<Rightarrow> set_error option" where
  "validateGenerationDependencies P gen next =
     (if gen_min_edge_version gen = [] then Some MinEdgeVersionRequired
      else if \<not> edgeVersionCompatible (rs_edgeVersion next) (gen_min_edge_version gen)
        then Some (EdgeVersionTooOld (rs_edgeVersion next) (gen_min_edge_version gen))
      else case manifest_digests P (gen_members gen) of
        None \<Rightarrow> Some ManifestDecode
      | Some digests \<Rightarrow>
          (let profileDigest = (if profile_present (gen_members gen) then
                 (case rs_profile next of
                    None \<Rightarrow> hex_encode (sha256 P []) \<comment> \<open>a nil message encodes to no bytes\<close>
                  | Some p \<Rightarrow> inspectionProfileDigest P p) else []) in
           first_error (dependency_error digests profileDigest gen) (map snd (rs_releases next))))"

definition ApplyGeneration ::
  "payloadlib \<Rightarrow> instant \<Rightarrow> registry \<Rightarrow> ReleaseSet \<Rightarrow> asset_generation option \<Rightarrow> bytes \<Rightarrow>
   (asset_generation option \<Rightarrow> asset_generation \<Rightarrow> string option) option \<Rightarrow>
   set_error option \<times> ReleaseSet \<times> registry" where
  "ApplyGeneration P now reg s arg pub persist =
     (case Load P now (empty_store\<lparr>gs_current := rs_activeGen s\<rparr>) arg pub of
        (store, Some e) \<Rightarrow> (Some (GenerationRejected e), s, reg)
      | (store, None) \<Rightarrow>
          (case arg of
             None \<Rightarrow> (None, s, reg) \<comment> \<open>not reached: loading nil fails\<close>
           | Some gen \<Rightarrow>
               (case apply_all P now reg (fresh_set s) (gen_members gen) pub of
                  (Some e, next, reg') \<Rightarrow> (Some e, s, reg')
                | (None, next, reg') \<Rightarrow>
                    (case validateGenerationDependencies P gen next of
                       Some e \<Rightarrow> (Some e, s, reg')
                     | None \<Rightarrow>
                         (case (case persist of None \<Rightarrow> None | Some f \<Rightarrow> f (rs_activeGen s) gen) of
                            Some e \<Rightarrow> (Some (PersistFailed e), s, reg')
                          | None \<Rightarrow> (None, swapFrom s next (Current store), reg'))))))"

subsection \<open>The unit listen plan\<close>

definition ApplyListenPlan ::
  "payloadlib \<Rightarrow> addrlib \<Rightarrow> ReleaseSet \<Rightarrow> unit_listen_plan option \<Rightarrow> bytes \<Rightarrow> string \<Rightarrow>
   (unit_listen_plan option \<Rightarrow> unit_listen_plan \<Rightarrow> string option) option \<Rightarrow> set_error option \<times> ReleaseSet" where
  "ApplyListenPlan P N s arg pub unitID persist =
     (case VerifyUnitListenPlan P arg pub of
        Some e \<Rightarrow> (Some (PlanVerify e), s)
      | None \<Rightarrow>
          (case ValidateUnitListenPlan N arg of
             Some e \<Rightarrow> (Some (PlanInvalid e), s)
           | None \<Rightarrow>
               (case arg of
                  None \<Rightarrow> (None, s) \<comment> \<open>not reached: a nil plan does not verify\<close>
                | Some plan \<Rightarrow>
                    if trim_space unitID = [] \<or> plan_unit_id plan \<noteq> unitID then (Some PlanTargetMismatch, s)
                    else
                      (let activate =
                         (case (case persist of None \<Rightarrow> None | Some f \<Rightarrow> f (rs_listen s) plan) of
                            Some e \<Rightarrow> (Some (PersistFailed e), s)
                          | None \<Rightarrow> (None, s\<lparr>rs_listen := Some plan, rs_posture := plan_posture plan\<rparr>)) in
                       case rs_listen s of
                         None \<Rightarrow> activate
                       | Some cur \<Rightarrow>
                           if plan_version plan = plan_version cur \<and> plan = cur then (None, s)
                           else if plan_version plan \<le> plan_version cur then (Some PlanVersionMustIncrease, s)
                           else if plan_version plan \<noteq> (plan_version cur + 1) mod 2 ^ 64 then (Some PlanVersionSkips, s)
                           else activate))))"

subsection \<open>Checking a request\<close>

definition live_releases :: "instant \<Rightarrow> ReleaseSet \<Rightarrow> managedRelease list" where
  "live_releases now s = map snd (filter (\<lambda>(i, r). mr_expiresAt r > now) (rs_releases s))"

definition set_Inspect :: "ReleaseSet \<Rightarrow> CanonicalView \<Rightarrow> Inspection" where
  "set_Inspect s view =
     inspectWith (rs_inspectors s) (rs_mapper s) \<lparr>in_View = view, in_ClientAddress = None\<rparr>"

text \<open>The request identifier of the code takes no part in the decision.\<close>

definition InspectThenGate ::
  "payloadlib \<Rightarrow> instant \<Rightarrow> ReleaseSet \<Rightarrow> Request \<Rightarrow> CanonicalView \<Rightarrow> Decision \<times> ReleaseSet" where
  "InspectThenGate P now s req view =
     (let insp = inspectWith (rs_inspectors s) (rs_mapper s)
            \<lparr>in_View = view, in_ClientAddress = req_ClientAddress req\<rparr>;
          (dec, counters) = gateWith P (live_releases now s) (ResolvePosture (rs_posture s)) req insp view (rs_counters s);
          dec = (case rs_activeGen s of
                   None \<Rightarrow> dec
                 | Some g \<Rightarrow> dec\<lparr>dec_GenerationID := gen_id g, dec_GenerationSeq := gen_seq g\<rparr>) in
      (dec, s\<lparr>rs_counters := counters\<rparr>))"

definition Check :: "payloadlib \<Rightarrow> instant \<Rightarrow> ReleaseSet \<Rightarrow> Request \<Rightarrow> Decision \<times> ReleaseSet" where
  "Check P now s req =
     InspectThenGate P now s req
       (Canonicalize P (req_Method req) (req_Path req) (req_Query req) (req_Headers req) (req_Body req)
          (Some (profileOrDefault s)))"

definition Replay :: "payloadlib \<Rightarrow> instant \<Rightarrow> ReleaseSet \<Rightarrow> CanonicalView \<Rightarrow> (Inspection \<times> Action) \<times> ReleaseSet" where
  "Replay P now s view =
     (let (dec, s') = InspectThenGate P now s (RequestFromView view) view in
      ((dec_Inspection dec, dec_Action dec), s'))"

definition set_Gate ::
  "payloadlib \<Rightarrow> instant \<Rightarrow> ReleaseSet \<Rightarrow> Request \<Rightarrow> Detection list \<Rightarrow> CanonicalView \<Rightarrow> Decision \<times> ReleaseSet" where
  "set_Gate P now s req found view =
     (let insp = \<lparr>insp_Detections = found, insp_Coverage = view_Coverage view, insp_Rejected = view_Rejected view\<rparr>;
          (dec, counters) = gateWith P (live_releases now s) (ResolvePosture (rs_posture s)) req insp view (rs_counters s) in
      (dec, s\<lparr>rs_counters := counters\<rparr>))"

subsection \<open>Counters\<close>

record ReleaseCounter =
  rc_ReleaseID :: string
  rc_ArtifactID :: string
  rc_Mode :: release_mode
  rc_RequestsTotal :: nat
  rc_BlocksTotal :: nat
  rc_ObserveTotal :: nat
  rc_CanarySelectedTotal :: nat
  rc_P99Micros :: nat

definition Counters :: "ReleaseSet \<Rightarrow> ReleaseCounter list" where
  "Counters s =
     concat (map (\<lambda>(i, r). case map_of (rs_counters s) i of
         None \<Rightarrow> []
       | Some c \<Rightarrow>
           [\<lparr>rc_ReleaseID = i, rc_ArtifactID = mr_artifactID r, rc_Mode = mr_mode r,
             rc_RequestsTotal = cnt_requests c, rc_BlocksTotal = cnt_blocks c, rc_ObserveTotal = cnt_observe c,
             rc_CanarySelectedTotal = cnt_canarySel c, rc_P99Micros = p99 c\<rparr>]) (rs_releases s))"

definition RecordLatency :: "ReleaseSet \<Rightarrow> string \<Rightarrow> nat \<Rightarrow> ReleaseSet" where
  "RecordLatency s releaseID micros =
     s\<lparr>rs_counters := AList.map_entry releaseID (record_latency micros) (rs_counters s)\<rparr>"

end
