(* ===== verification/Release_Set_Laws.thy ===== *)
theory Release_Set_Laws
  imports Release_Set
begin

text \<open>
  The invariant of a release set and that every operation keeps it, the history of its listen plan,
  and what a snapshot, a generation and a check do to the set.
\<close>

subsection \<open>Association lists\<close>

lemma map_of_split:
  assumes "map_of xs k = Some v" and "distinct (map fst xs)"
  obtains ys zs where "xs = ys @ (k, v) # zs" and "k \<notin> fst ` set ys" and "k \<notin> fst ` set zs"
proof -
  obtain ys zs where xs: "xs = ys @ (k, v) # zs"
    using split_list [OF map_of_SomeD [OF assms(1)]] by blast
  with assms(2) have "k \<notin> fst ` set ys" "k \<notin> fst ` set zs" by auto
  with xs that show thesis by blast
qed

lemma update_append: "k \<notin> fst ` set ys \<Longrightarrow> AList.update k w (ys @ zs) = ys @ AList.update k w zs"
  by (induction ys) auto

lemma update_fresh: "k \<notin> fst ` set ys \<Longrightarrow> AList.update k w ys = ys @ [(k, w)]"
  using update_append [of k ys w "[]"] by simp

lemma mset_snd_update:
  assumes "distinct (map fst xs)"
  shows "mset (map snd (AList.update k w xs)) =
    (case map_of xs k of None \<Rightarrow> mset (map snd xs) | Some v \<Rightarrow> mset (map snd xs) - {#v#}) + {#w#}"
proof (cases "map_of xs k")
  case None
  then have "k \<notin> fst ` set xs" by (simp add: map_of_eq_None_iff)
  with None show ?thesis by (simp add: update_fresh)
next
  case (Some v)
  then obtain ys zs where "xs = ys @ (k, v) # zs" "k \<notin> fst ` set ys"
    using assms by (rule map_of_split)
  with Some show ?thesis by (simp add: update_append)
qed

lemma mset_snd_delete:
  assumes "distinct (map fst xs)" and "map_of xs k = Some v"
  shows "mset (map snd (AList.delete k xs)) = mset (map snd xs) - {#v#}"
proof -
  obtain ys zs where xs: "xs = ys @ (k, v) # zs" and "k \<notin> fst ` set ys" "k \<notin> fst ` set zs"
    using assms(2,1) by (rule map_of_split)
  then have "AList.delete k xs = AList.delete k ys @ AList.delete k zs"
    by (simp add: AList.delete_eq)
  also have "\<dots> = ys @ zs"
    using \<open>k \<notin> fst ` set ys\<close> \<open>k \<notin> fst ` set zs\<close> by simp
  finally show ?thesis by (simp add: xs)
qed

lemma set_update_subset: "set (AList.update k w xs) \<subseteq> insert (k, w) (set xs)"
  by (induction xs) auto

lemma set_delete_subset: "set (AList.delete k xs) \<subseteq> set xs"
  by (auto simp: AList.delete_eq)

lemma keys_update: "fst ` set (AList.update k w xs) = insert k (fst ` set xs)"
  by (simp add: AList.dom_update)

lemma keys_delete: "fst ` set (AList.delete k xs) = fst ` set xs - {k}"
  by (auto simp: AList.delete_eq image_iff)

lemmas alist_laws = distinct_update distinct_delete keys_update keys_delete

subsection \<open>The invariant\<close>

text \<open>
  A managed release is certified when it was compiled from the payload of an artifact that verifies
  under the pinned key and carries that artifact's identity, and its canary share is in range.
\<close>

definition compiled_from :: "payloadlib \<Rightarrow> artifact \<Rightarrow> managedRelease \<Rightarrow> bool" where
  "compiled_from P a r \<longleftrightarrow>
     (case art_kind a of
        KIND_RULE \<Rightarrow>
          (\<exists>rules d. decode_rules P (art_payload a) = Some rules \<and> NewRuleDetector P (art_id a) rules = Inr d \<and>
             mr_detector r = Some d \<and> mr_policy r = None \<and> mr_shape r = None)
      | KIND_POLICY \<Rightarrow>
          (\<exists>cand. decode_policy P (art_payload a) = Some cand \<and>
             mr_policy r = Some cand \<and> mr_detector r = None \<and> mr_shape r = None)
      | KIND_SHAPE \<Rightarrow>
          (\<exists>src shape. parseShapeSource (decode_shape P) (unwrap_member P) (art_payload a) = Inr src \<and>
             compileShape (Some src) = Inr shape \<and>
             mr_shape r = Some shape \<and> mr_detector r = None \<and> mr_policy r = None)
      | _ \<Rightarrow> False)"

definition certified :: "payloadlib \<Rightarrow> bytes \<Rightarrow> managedRelease \<Rightarrow> bool" where
  "certified P pub r \<longleftrightarrow>
     (\<exists>a. VerifyArtifact P (Some a) pub = None \<and> art_id a = mr_artifactID r \<and> compiled_from P a r) \<and>
     (mr_mode r = RELEASE_MODE_CANARY \<longrightarrow>
        CanaryPercentMin \<le> mr_canaryPercent r \<and> mr_canaryPercent r \<le> CanaryPercentMax)"

definition releases_ok :: "payloadlib \<Rightarrow> bytes \<Rightarrow> (string \<times> managedRelease) list \<Rightarrow> bool" where
  "releases_ok P pub rs \<longleftrightarrow>
     distinct (map fst rs) \<and> (\<forall>(i, r) \<in> set rs. mr_releaseID r = i \<and> certified P pub r)"

definition counters_ok :: "(string \<times> managedRelease) list \<Rightarrow> (string \<times> counter) list \<Rightarrow> bool" where
  "counters_ok rs cs \<longleftrightarrow>
     distinct (map fst cs) \<and> fst ` set cs = fst ` set rs \<and>
     (\<forall>(i, c) \<in> set cs. length (cnt_latencies c) \<le> latencySampleCap)"

definition inspectors_ok :: "Inspector list \<Rightarrow> (string \<times> string) list \<Rightarrow> bool" where
  "inspectors_ok ins byRel \<longleftrightarrow>
     distinct (map fst byRel) \<and> mset (map ins_ID ins) = mset (map snd byRel)"

definition set_ok :: "payloadlib \<Rightarrow> bytes \<Rightarrow> ReleaseSet \<Rightarrow> bool" where
  "set_ok P pub s \<longleftrightarrow>
     releases_ok P pub (rs_releases s) \<and> counters_ok (rs_releases s) (rs_counters s) \<and>
     inspectors_ok (rs_inspectors s) (rs_inspectorByRel s)"

lemma mset_without_first: "mset (map ins_ID (without_first i ins)) = mset (map ins_ID ins) - {#i#}"
  by (induction ins) (auto simp: diff_add_mset_swap)

subsection \<open>Every operation keeps the invariant\<close>

lemma counters_ok_install:
  assumes "counters_ok rs cs"
  shows "counters_ok (AList.update k r rs)
    (case map_of cs k of None \<Rightarrow> AList.update k new_counter cs | Some c \<Rightarrow> cs)"
proof (cases "map_of cs k")
  case None
  have "\<forall>(i, c) \<in> set (AList.update k new_counter cs). length (cnt_latencies c) \<le> latencySampleCap"
    using assms set_update_subset [of k new_counter cs]
    by (fastforce simp: counters_ok_def new_counter_def)
  with None assms show ?thesis by (simp add: counters_ok_def alist_laws)
next
  case (Some c)
  then have "k \<in> fst ` set cs" by (metis domI dom_map_of_conv_image_fst)
  with Some assms show ?thesis by (auto simp: counters_ok_def keys_update)
qed

lemma releases_ok_update:
  "releases_ok P pub rs \<Longrightarrow> mr_releaseID r = k \<Longrightarrow> certified P pub r \<Longrightarrow> releases_ok P pub (AList.update k r rs)"
  using set_update_subset [of k r rs] by (fastforce simp: releases_ok_def distinct_update)

lemma releases_ok_delete: "releases_ok P pub rs \<Longrightarrow> releases_ok P pub (AList.delete k rs)"
  using set_delete_subset [of k rs] by (fastforce simp: releases_ok_def distinct_delete)

lemma counters_ok_delete: "counters_ok rs cs \<Longrightarrow> counters_ok (AList.delete k rs) (AList.delete k cs)"
  using set_delete_subset [of k cs] by (fastforce simp: counters_ok_def distinct_delete keys_delete)

lemma install_release_ok:
  assumes "set_ok P pub s" and "VerifyArtifact P (Some a) pub = None"
    and "\<And>r. mr_detector r = d \<Longrightarrow> mr_policy r = p \<Longrightarrow> mr_shape r = sh \<Longrightarrow> compiled_from P a r"
  shows "set_ok P pub (snd (install_release now s item a d p sh))"
proof (cases "fst (install_release now s item a d p sh)")
  case (Some e)
  then have "snd (install_release now s item a d p sh) = s"
    by (auto simp: install_release_def Let_def split: if_splits)
  with assms show ?thesis by simp
next
  case None
  let ?r = "new_release now item a d p sh"
  have "certified P pub ?r"
    using None assms(2) assms(3) [of ?r]
    by (auto simp: certified_def new_release_def install_release_def Let_def split: if_splits)
  moreover have "mr_releaseID ?r = item_release_id item" by (simp add: new_release_def)
  ultimately have "set_ok P pub (s\<lparr>rs_releases := AList.update (item_release_id item) ?r (rs_releases s),
      rs_counters := (case map_of (rs_counters s) (item_release_id item) of
        None \<Rightarrow> AList.update (item_release_id item) new_counter (rs_counters s) | Some c \<Rightarrow> rs_counters s)\<rparr>)"
    using assms(1) by (simp add: set_ok_def releases_ok_update counters_ok_install)
  with None show ?thesis by (auto simp: install_release_def Let_def split: if_splits)
qed

lemma inspectors_ok_install:
  assumes "inspectors_ok ins byRel"
  shows "inspectors_ok ((case map_of byRel k of None \<Rightarrow> ins | Some prev \<Rightarrow> without_first prev ins) @ [new])
    (AList.update k (ins_ID new) byRel)"
proof -
  have "distinct (map fst byRel)" using assms by (simp add: inspectors_ok_def)
  from mset_snd_update [OF this, of k "ins_ID new"] mset_without_first [of _ ins] assms show ?thesis
    by (cases "map_of byRel k") (simp_all add: inspectors_ok_def distinct_update)
qed

lemma inspectors_ok_remove:
  "inspectors_ok ins byRel \<Longrightarrow> map_of byRel k = Some i \<Longrightarrow> inspectors_ok (without_first i ins) (AList.delete k byRel)"
  using mset_snd_delete [of byRel k i] mset_without_first [of i ins]
  by (simp add: inspectors_ok_def distinct_delete)

lemma installManifest_ok:
  assumes "set_ok P pub s"
  shows "set_ok P pub (fst (snd (installManifest P reg s rid a)))"
proof -
  have "set_ok P pub (s\<lparr>rs_inspectors := (case map_of (rs_inspectorByRel s) rid of None \<Rightarrow> rs_inspectors s
        | Some prev \<Rightarrow> without_first prev (rs_inspectors s)) @ [ins],
      rs_inspectorByRel := AList.update rid (ins_ID ins) (rs_inspectorByRel s)\<rparr>)" for ins
    using assms by (simp add: set_ok_def inspectors_ok_install)
  with assms show ?thesis
    by (auto simp: installManifest_def removeInspectorLocked_def Let_def split: option.splits sum.splits prod.splits)
qed

lemma retire_release_ok:
  assumes "set_ok P pub s"
  shows "set_ok P pub (retire_release s rid)"
  using assms inspectors_ok_remove [of "rs_inspectors s" "rs_inspectorByRel s" rid]
  by (cases "map_of (rs_inspectorByRel s) rid")
     (simp_all add: retire_release_def removeInspectorLocked_def set_ok_def releases_ok_delete counters_ok_delete)

lemma set_ok_frame:
  "set_ok P pub s \<Longrightarrow> set_ok P pub (s\<lparr>rs_mapper := m\<rparr>)"
  "set_ok P pub s \<Longrightarrow> set_ok P pub (s\<lparr>rs_profile := f\<rparr>)"
  "set_ok P pub s \<Longrightarrow> set_ok P pub (s\<lparr>rs_evidencePol := e\<rparr>)"
  "set_ok P pub s \<Longrightarrow> set_ok P pub (s\<lparr>rs_digest := d\<rparr>)"
  "set_ok P pub s \<Longrightarrow> set_ok P pub (s\<lparr>rs_forward := w\<rparr>)"
  "set_ok P pub s \<Longrightarrow> set_ok P pub (s\<lparr>rs_reviewPolicy := v, rs_reviewDigest := i\<rparr>)"
  "set_ok P pub s \<Longrightarrow> set_ok P pub (s\<lparr>rs_modelProfile := q, rs_modelDigest := i\<rparr>)"
  "set_ok P pub s \<Longrightarrow> set_ok P pub (s\<lparr>rs_posture := g\<rparr>)"
  "set_ok P pub s \<Longrightarrow> set_ok P pub (s\<lparr>rs_listen := l, rs_posture := g\<rparr>)"
  by (simp_all add: set_ok_def)

lemma apply_gate_ok:
  assumes "set_ok P pub s" and "VerifyArtifact P (Some a) pub = None"
  shows "set_ok P pub (snd (apply_gate P now s item a))"
proof -
  note install = install_release_ok [OF assms, where now = now and item = item]
  have "set_ok P pub (snd (install_release now s item a (Some d) None None))"
    if "art_kind a = KIND_RULE" "decode_rules P (art_payload a) = Some rules" "NewRuleDetector P (art_id a) rules = Inr d"
    for rules d using that by (intro install) (simp add: compiled_from_def)
  moreover have "set_ok P pub (snd (install_release now s item a None (Some cand) None))"
    if "art_kind a = KIND_POLICY" "decode_policy P (art_payload a) = Some cand" for cand
    using that by (intro install) (simp add: compiled_from_def)
  moreover have "set_ok P pub (snd (install_release now s item a None None (Some shape)))"
    if "art_kind a = KIND_SHAPE" "parseShapeSource (decode_shape P) (unwrap_member P) (art_payload a) = Inr src"
      "compileShape (Some src) = Inr shape" for src shape
    using that by (intro install) (simp add: compiled_from_def)
  ultimately show ?thesis
    using assms(1)
    by (cases "art_kind a") (simp_all add: apply_gate_def Let_def split: option.split sum.split)
qed

lemma set_field_ok:
  "set_ok P pub s \<Longrightarrow> (\<And>v. set_ok P pub (put v)) \<Longrightarrow> set_ok P pub (snd (set_field rid a s decoded put))"
  by (simp add: set_field_def split: option.split)

lemma apply_setting_ok: "set_ok P pub s \<Longrightarrow> set_ok P pub (snd (apply_setting P s rid a))"
  by (cases "art_kind a") (simp_all add: apply_setting_def Let_def set_field_ok set_ok_frame split: option.split sum.split)

lemma applyMember_ok:
  assumes "set_ok P pub s" and "VerifyArtifact P (Some a) pub = None"
  shows "set_ok P pub (fst (snd (applyMember P now reg s item a)))"
  using assms(1) installManifest_ok [OF assms(1)] apply_gate_ok [OF assms] apply_setting_ok [OF assms(1)]
  by (auto simp: applyMember_def Let_def case_prod_beta)

lemma Apply_ok: "set_ok P pub s \<Longrightarrow> set_ok P pub (fst (snd (Apply P now reg s arg pub)))"
  by (simp add: Apply_def retire_release_ok applyMember_ok split: option.split)

lemma apply_all_ok: "set_ok P pub s \<Longrightarrow> set_ok P pub (fst (snd (apply_all P now reg s items pub)))"
proof (induction P now reg s items pub rule: apply_all.induct)
  case (3 P now reg s item items pub)
  obtain e s' reg' where A: "Apply P now reg s (Some item) pub = (e, s', reg')" by (metis prod_cases3)
  with Apply_ok [OF "3.prems", of now reg "Some item"] have "set_ok P pub s'" by simp
  with A "3.IH" show ?case by (cases e) auto
qed simp_all

lemma fresh_set_ok: "set_ok P pub (fresh_set s)"
  by (simp add: fresh_set_def NewReleaseSet_def set_ok_def releases_ok_def counters_ok_def inspectors_ok_def)

lemma swapFrom_ok:
  assumes "set_ok P pub s" and "set_ok P pub next"
  shows "set_ok P pub (swapFrom s next active)"
proof -
  let ?cs = "map (\<lambda>(i, r). (i, case map_of (rs_counters s) i of Some c \<Rightarrow> c | None \<Rightarrow> new_counter)) (rs_releases next)"
  have keys: "map fst ?cs = map fst (rs_releases next)" by (simp add: case_prod_beta comp_def)
  have "length (cnt_latencies (case map_of (rs_counters s) i of Some c \<Rightarrow> c | None \<Rightarrow> new_counter)) \<le> latencySampleCap" for i
    using assms(1) map_of_SomeD [of "rs_counters s" i]
    by (fastforce simp: set_ok_def counters_ok_def new_counter_def split: option.split)
  then have "\<forall>(i, c) \<in> set ?cs. length (cnt_latencies c) \<le> latencySampleCap" by auto
  moreover have "fst ` set ?cs = fst ` set (rs_releases next)" by (metis keys list.set_map)
  ultimately have "counters_ok (rs_releases next) ?cs"
    using assms(2) unfolding counters_ok_def keys by (simp add: set_ok_def releases_ok_def)
  with assms(2) show ?thesis by (simp add: set_ok_def swapFrom_def)
qed

lemma ApplySnapshot_ok:
  assumes "set_ok P pub s"
  shows "set_ok P pub (fst (snd (ApplySnapshot P now reg s items pub)))"
  using assms apply_all_ok [OF fresh_set_ok [of P pub s], of now reg items]
  by (auto simp: ApplySnapshot_def swapFrom_ok split: prod.split option.split)

lemma ApplyGeneration_ok:
  assumes "set_ok P pub s"
  shows "set_ok P pub (fst (snd (ApplyGeneration P now reg s arg pub persist)))"
proof -
  have "apply_all P now reg (fresh_set s) ms pub = (e, next, reg') \<Longrightarrow> set_ok P pub next" for ms e "next" reg'
    using apply_all_ok [OF fresh_set_ok [of P pub s], of now reg ms] by simp
  with assms show ?thesis
    by (auto simp: ApplyGeneration_def swapFrom_ok split: prod.split option.split)
qed

lemma ApplyListenPlan_ok: "set_ok P pub s \<Longrightarrow> set_ok P pub (snd (ApplyListenPlan P N s arg pub' unitID persist))"
  by (simp add: ApplyListenPlan_def Let_def set_ok_frame split: option.split)

lemma set_map_entry: "p \<in> set (AList.map_entry k f xs) \<Longrightarrow> p \<in> set xs \<or> (\<exists>v. (k, v) \<in> set xs \<and> p = (k, f v))"
  by (induction xs) (auto split: if_splits)

lemma counters_ok_map_entry:
  assumes "counters_ok rs cs"
    and "\<And>c. length (cnt_latencies c) \<le> latencySampleCap \<Longrightarrow> length (cnt_latencies (f c)) \<le> latencySampleCap"
  shows "counters_ok rs (AList.map_entry k f cs)"
proof -
  have bound: "length (cnt_latencies c) \<le> latencySampleCap" if "(i, c) \<in> set cs" for i c
    using assms(1) that by (auto simp: counters_ok_def)
  have "length (cnt_latencies c) \<le> latencySampleCap" if "(i, c) \<in> set (AList.map_entry k f cs)" for i c
    using set_map_entry [OF that] bound assms(2) by blast
  with assms(1) show ?thesis by (auto simp: counters_ok_def dom_map_entry distinct_map_entry)
qed

lemma gate_counters_ok:
  "counters_ok rs (acc_counters acc) \<Longrightarrow>
     counters_ok rs (acc_counters (foldl (gate_step L posture req insp view) acc rels))"
proof (induction rels arbitrary: acc)
  case (Cons r rels)
  have "counters_ok rs (acc_counters (gate_step L posture req insp view acc r))"
    using Cons.prems
    by (auto simp: gate_step_def Let_def accountRelease_def intro!: counters_ok_map_entry split: option.split)
  then show ?case by (simp add: Cons.IH)
qed simp

lemma gateWith_ok:
  "set_ok P pub s \<Longrightarrow> set_ok P pub (s\<lparr>rs_counters := snd (gateWith L rels posture req insp view (rs_counters s))\<rparr>)"
  by (simp add: set_ok_def gateWith_counters gate_counters_ok)

lemma InspectThenGate_state:
  "snd (InspectThenGate P now s req view) =
     s\<lparr>rs_counters := snd (gateWith P (live_releases now s) (ResolvePosture (rs_posture s)) req
        (inspectWith (rs_inspectors s) (rs_mapper s) \<lparr>in_View = view, in_ClientAddress = req_ClientAddress req\<rparr>)
        view (rs_counters s))\<rparr>"
  by (simp add: InspectThenGate_def Let_def case_prod_beta)

lemma RecordLatency_ok: "set_ok P pub s \<Longrightarrow> set_ok P pub (RecordLatency s rid micros)"
  by (simp add: set_ok_def RecordLatency_def counters_ok_map_entry record_latency_bound)

lemma Check_action:
  obtains insp view where "dec_Action (fst (Check P now s req)) =
    (if Observes (Posture s) then ActionAllow else gate_spec P (set (live_releases now s)) req insp view)"
proof -
  let ?view = "Canonicalize P (req_Method req) (req_Path req) (req_Query req) (req_Headers req) (req_Body req)
    (Some (profileOrDefault s))"
  let ?insp = "inspectWith (rs_inspectors s) (rs_mapper s) \<lparr>in_View = ?view, in_ClientAddress = req_ClientAddress req\<rparr>"
  have "dec_Action (fst (Check P now s req)) =
    (if Observes (Posture s) then ActionAllow else gate_spec P (set (live_releases now s)) req ?insp ?view)"
    by (simp add: Check_def InspectThenGate_def Let_def case_prod_beta gateWith_action Posture_def split: option.split)
  with that show thesis by blast
qed

subsection \<open>Histories of a release set\<close>

datatype set_event =
    ApplyItem instant "release_item option"
  | ApplySnapshotEvent instant "release_item option list"
  | ApplyGenerationEvent instant "asset_generation option"
      "(asset_generation option \<Rightarrow> asset_generation \<Rightarrow> string option) option"
  | ApplyPlan "unit_listen_plan option" "(unit_listen_plan option \<Rightarrow> unit_listen_plan \<Rightarrow> string option) option"
  | PostureSet ingress_posture
  | CheckRequest instant Request
  | LatencySample string nat

fun set_step ::
  "payloadlib \<Rightarrow> addrlib \<Rightarrow> bytes \<Rightarrow> string \<Rightarrow> ReleaseSet \<times> registry \<Rightarrow> set_event \<Rightarrow> ReleaseSet \<times> registry" where
  "set_step P N pub u (s, reg) (ApplyItem now item) = snd (Apply P now reg s item pub)"
| "set_step P N pub u (s, reg) (ApplySnapshotEvent now items) = snd (ApplySnapshot P now reg s items pub)"
| "set_step P N pub u (s, reg) (ApplyGenerationEvent now g persist) = snd (ApplyGeneration P now reg s g pub persist)"
| "set_step P N pub u (s, reg) (ApplyPlan plan persist) = (snd (ApplyListenPlan P N s plan pub u persist), reg)"
| "set_step P N pub u (s, reg) (PostureSet p) = (SetPosture s p, reg)"
| "set_step P N pub u (s, reg) (CheckRequest now req) = (snd (Check P now s req), reg)"
| "set_step P N pub u (s, reg) (LatencySample rid micros) = (RecordLatency s rid micros, reg)"

definition state_ok :: "payloadlib \<Rightarrow> bytes \<Rightarrow> ReleaseSet \<times> registry \<Rightarrow> bool" where
  "state_ok P pub st \<longleftrightarrow> set_ok P pub (fst st)"

interpretation set_machine: machine "set_step P N pub u" "state_ok P pub" for P N pub u
proof unfold_locales
  fix st e
  assume ok: "state_ok P pub st"
  obtain s reg where st: "st = (s, reg)" by fastforce
  with ok have "set_ok P pub s" by (simp add: state_ok_def)
  then show "state_ok P pub (set_step P N pub u st e)"
    by (cases e)
       (simp_all add: state_ok_def st Apply_ok ApplySnapshot_ok ApplyGeneration_ok ApplyListenPlan_ok
          SetPosture_def set_ok_frame Check_def InspectThenGate_state gateWith_ok RecordLatency_ok)
qed

lemma new_set_ok: "set_ok P pub (NewReleaseSet v)"
  by (simp add: NewReleaseSet_def set_ok_def releases_ok_def counters_ok_def inspectors_ok_def)

subsection \<open>The listen plan as a versioned slot\<close>

definition plan_valid :: "payloadlib \<Rightarrow> addrlib \<Rightarrow> bytes \<Rightarrow> string \<Rightarrow> unit_listen_plan \<Rightarrow> bool" where
  "plan_valid P N pub u p \<longleftrightarrow>
     VerifyUnitListenPlan P (Some p) pub = None \<and> ValidateUnitListenPlan N (Some p) = None \<and> plan_unit_id p = u"

definition plan_follows :: "unit_listen_plan \<Rightarrow> unit_listen_plan \<Rightarrow> bool" where
  "plan_follows v w \<longleftrightarrow> plan_version w = plan_version v + 1"

lemma ApplyListenPlan_follows:
  assumes "rs_listen s = Some v"
  shows "rs_listen (snd (ApplyListenPlan P N s arg pub u persist)) = Some v \<or>
    (\<exists>w. rs_listen (snd (ApplyListenPlan P N s arg pub u persist)) = Some w \<and> plan_valid P N pub u w \<and> plan_follows v w)"
proof -
  have succ: "w = (v + 1) mod 2 ^ 64 \<Longrightarrow> \<not> w \<le> v \<Longrightarrow> w = v + 1" for v w :: nat
    using mod_less_eq_dividend [of "v + 1" "2 ^ 64"] by linarith
  show ?thesis
    using assms
    by (auto simp: ApplyListenPlan_def Let_def plan_valid_def plan_follows_def succ split: option.splits if_splits)
qed

lemma apply_setting_listen: "rs_listen (snd (apply_setting P s rid a)) = rs_listen s"
  by (cases "art_kind a") (simp_all add: apply_setting_def set_field_def Let_def split: option.split sum.split)

lemma install_release_listen: "rs_listen (snd (install_release now s item a d p sh)) = rs_listen s"
  by (simp add: install_release_def Let_def)

lemma apply_gate_listen: "rs_listen (snd (apply_gate P now s item a)) = rs_listen s"
  by (cases "art_kind a") (simp_all add: apply_gate_def Let_def install_release_listen split: option.split sum.split)

lemma installManifest_listen: "rs_listen (fst (snd (installManifest P reg s rid a))) = rs_listen s"
  by (simp add: installManifest_def removeInspectorLocked_def Let_def split: option.split sum.split prod.split)

lemma Apply_listen: "rs_listen (fst (snd (Apply P now reg s arg pub))) = rs_listen s"
  using apply_setting_listen apply_gate_listen installManifest_listen
  by (auto simp: Apply_def applyMember_def retire_release_def removeInspectorLocked_def Let_def case_prod_beta
        split: option.split)

lemma swapFrom_listen [simp]: "rs_listen (swapFrom s next active) = rs_listen s"
  by (simp add: swapFrom_def)

lemma ApplySnapshot_listen: "rs_listen (fst (snd (ApplySnapshot P now reg s items pub))) = rs_listen s"
  by (simp add: ApplySnapshot_def split: prod.split option.split)

lemma ApplyGeneration_listen: "rs_listen (fst (snd (ApplyGeneration P now reg s arg pub persist))) = rs_listen s"
  by (auto simp: ApplyGeneration_def split: prod.split option.split)

lemma set_step_listen:
  assumes "rs_listen (fst st) = Some v" and "plan_valid P N pub u v"
  shows "\<exists>w. rs_listen (fst (set_step P N pub u st e)) = Some w \<and> plan_valid P N pub u w \<and> (w = v \<or> plan_follows v w)"
proof -
  obtain s reg where st: "st = (s, reg)" by fastforce
  show ?thesis
  proof (cases e)
    case (ApplyPlan arg persist)
    with assms st ApplyListenPlan_follows [of s v P N arg pub u persist] show ?thesis by auto
  qed (use assms st in \<open>simp_all add: Apply_listen ApplySnapshot_listen ApplyGeneration_listen SetPosture_def
      Check_def InspectThenGate_state RecordLatency_def\<close>)
qed

interpretation plan_slot: versioned_slot "set_step P N pub u" "\<lambda>st. rs_listen (fst st)" "plan_valid P N pub u"
  "\<lambda>_. True" plan_follows for P N pub u
  by unfold_locales (rule set_step_listen)

lemma plan_follows_rtranclp: "plan_follows\<^sup>*\<^sup>* v w \<Longrightarrow> plan_version v \<le> plan_version w"
  by (induction rule: rtranclp_induct) (auto simp: plan_follows_def)

subsection \<open>Generations\<close>

lemma first_error_None: "first_error f xs = None \<longleftrightarrow> (\<forall>x \<in> set xs. f x = None)"
  by (induction xs) (auto split: option.split)

lemma ApplyGeneration_success:
  assumes "ApplyGeneration P now reg s arg pub persist = (None, s', reg')"
  obtains gen "next" g where "arg = Some gen"
    and "snd (Load P now (empty_store\<lparr>gs_current := rs_activeGen s\<rparr>) arg pub) = None"
    and "gs_current (fst (Load P now (empty_store\<lparr>gs_current := rs_activeGen s\<rparr>) arg pub)) = g"
    and "apply_all P now reg (fresh_set s) (gen_members gen) pub = (None, next, reg')"
    and "validateGenerationDependencies P gen next = None" and "s' = swapFrom s next g"
proof (cases arg)
  case None
  with assms show ?thesis by (simp add: ApplyGeneration_def Load_def)
next
  case (Some gen)
  with assms that show ?thesis
    by (auto simp: ApplyGeneration_def Current_def split: prod.splits option.splits)
qed

lemma Load_success_current:
  assumes "snd (Load P now (empty_store\<lparr>gs_current := cur\<rparr>) (Some gen) pub) = None"
  shows "gs_current (fst (Load P now (empty_store\<lparr>gs_current := cur\<rparr>) (Some gen) pub)) =
    (case cur of None \<Rightarrow> Some gen | Some c \<Rightarrow> if gen_seq gen = gen_seq c then Some c else Some gen)"
  using assms
  by (simp add: Load_def empty_store_def split: option.split_asm if_split_asm)

text \<open>Counters survive a swap for the releases that stay; new releases start at zero.\<close>

definition kept_counter :: "ReleaseSet \<Rightarrow> string \<Rightarrow> counter" where
  "kept_counter s i = (case map_of (rs_counters s) i of Some c \<Rightarrow> c | None \<Rightarrow> new_counter)"

lemma swapFrom_counters:
  "map_of (rs_counters (swapFrom s next active)) i =
     (if i \<in> fst ` set (rs_releases next) then Some (kept_counter s i) else None)"
proof -
  have "rs_counters (swapFrom s next active) = map (\<lambda>(i, r). (i, kept_counter s i)) (rs_releases next)"
    by (simp add: swapFrom_def kept_counter_def)
  moreover have "map_of (map (\<lambda>(i, r). (i, kept_counter s i)) rs) i =
      (if i \<in> fst ` set rs then Some (kept_counter s i) else None)" for rs :: "(string \<times> managedRelease) list"
    by (induction rs) auto
  ultimately show ?thesis by simp
qed

subsection \<open>Properties\<close>



lemma manifest_digests_member:
  "manifest_digests P ms = Some ds \<Longrightarrow> d \<in> set ds \<Longrightarrow>
     \<exists>item a man. Some item \<in> set ms \<and> item_artifact item = Some a \<and> art_kind a = KIND_DETECTOR_MANIFEST \<and>
       decode_manifest P (art_payload a) = Some man \<and> man_TarballSha256 man = d"
proof (induction ms arbitrary: ds)
  case (Cons m ms)
  show ?case
  proof (cases "manifest_digests P ms")
    case None
    with Cons.prems show ?thesis by (auto split: option.splits if_splits)
  next
    case (Some ds')
    with Cons show ?thesis by (fastforce split: option.splits if_splits)
  qed
qed simp



subsection \<open>Witnesses\<close>

text \<open>
  A concrete library: every artifact encodes to the same bytes, every payload decodes to one rule, to
  a policy with complete dependencies, or to the manifest it depends on.
\<close>

definition set_deps :: PolicyDependencies where
  "set_deps = \<lparr>dep_DetectorManifestDigest = ''m'', dep_NormalizerProfileDigest = hex_encode (pad32 ''n''),
     dep_MinEdgeVersion = ''dev''\<rparr>"

definition demo_inspector :: Inspector where
  "demo_inspector = \<lparr>ins_ID = ''crs'', ins_Inspect = \<lambda>_. (demo_inspection, False)\<rparr>"

definition demo_registry :: registry where
  "demo_registry = \<lparr>inspectorFactories = [(''crs'', \<lambda>_. Inr demo_inspector)], inspectorCache = []\<rparr>"

definition set_lib :: payloadlib where
  "set_lib = inspectlib.extend
     (demo_inspectlib\<lparr>marshal_artifact := \<lambda>_. Some ''A'', marshal_generation := \<lambda>_. Some ''G'',
        marshal_plan := \<lambda>_. Some ''P'', marshal_profile := \<lambda>_. Some ''n'',
        regexp_compiles := \<lambda>_. True, regexp_match := \<lambda>_ _. True\<rparr>)
     \<lparr>decode_rules = \<lambda>_. Some [\<lparr>rule_ID = ''1'', rule_Pattern = ''x'', rule_Target = []\<rparr>],
      decode_policy = \<lambda>_. Some (demo_key_policy\<lparr>cand_Dependencies := Some set_deps\<rparr>),
      decode_manifest = \<lambda>_. Some \<lparr>man_DetectorId = ''crs'', man_Version = [], man_TarballSha256 = ''m'',
        man_GoModule = [], man_Paranoia = 1, man_IncludeFiles = []\<rparr>,
      decode_mapper = \<lambda>_. None, decode_profile = \<lambda>_. Some DefaultInspectionProfile,
      decode_evidence_policy = \<lambda>_. None, decode_digest = \<lambda>_. None, decode_forward = \<lambda>_. None,
      decode_review = \<lambda>_. None, decode_model_profile = \<lambda>_. None, decode_shape = \<lambda>_. None,
      unwrap_member = \<lambda>_ _. None\<rparr>"

lemma set_lib_simps [simp]:
  "sha256 set_lib = pad32" "ed25519_verify set_lib pub m sg \<longleftrightarrow> sg = pub @ pad32 m"
  "marshal_artifact set_lib a = Some ''A''" "marshal_generation set_lib g = Some ''G''"
  "marshal_plan set_lib p = Some ''P''" "marshal_profile set_lib f = Some ''n''"
  "regexp_compiles set_lib r" "regexp_match set_lib r t"
  "decode_rules set_lib b = Some [\<lparr>rule_ID = ''1'', rule_Pattern = ''x'', rule_Target = []\<rparr>]"
  "decode_policy set_lib b = Some (demo_key_policy\<lparr>cand_Dependencies := Some set_deps\<rparr>)"
  "decode_manifest set_lib b = Some \<lparr>man_DetectorId = ''crs'', man_Version = [], man_TarballSha256 = ''m'',
     man_GoModule = [], man_Paranoia = 1, man_IncludeFiles = []\<rparr>"
  "decode_profile set_lib b = Some DefaultInspectionProfile"
  by (simp_all add: set_lib_def inspectlib.extend_def demo_inspectlib_def protolib.extend_def demo_protolib_def)

definition set_signature :: "bytes \<Rightarrow> signature option" where
  "set_signature m = Some \<lparr>sig_key_id = [], sig_bytes = store_key @ pad32 m, sig_signed_at = 0\<rparr>"

definition set_artifact :: "artifact_kind \<Rightarrow> string \<Rightarrow> artifact" where
  "set_artifact kind schema = demo_artifact\<lparr>art_kind := kind, art_payload_schema := schema,
     art_id := ''sha256:'' @ hex_encode (pad32 ''A''), art_signature := set_signature ''A'',
     art_created_at := None, art_scope := None\<rparr>"

definition set_item :: "string \<Rightarrow> artifact_kind \<Rightarrow> string \<Rightarrow> release_item" where
  "set_item i kind schema = \<lparr>item_release_id = i, item_artifact = Some (set_artifact kind schema),
     item_asset_id = ''shop'', item_mode = RELEASE_MODE_ENFORCE, item_canary_percent = 0, item_retired = False,
     item_retire_reason = RETIRE_REASON_UNSPECIFIED, item_changed_at = None, item_generation_seq = 1\<rparr>"

lemma set_artifact_fields [simp]:
  "art_kind (set_artifact kind schema) = kind" "art_payload_schema (set_artifact kind schema) = schema"
  "art_created_at (set_artifact kind schema) = None" "art_scope (set_artifact kind schema) = None"
  by (simp_all add: set_artifact_def)

lemma set_artifact_verifies [simp]: "VerifyArtifact set_lib (Some (set_artifact kind schema)) store_key = None"
  by (simp add: VerifyArtifact_ok_iff canonicalBytes_def set_artifact_def set_signature_def store_key_def go_simps)

lemma set_item_fields [simp]:
  "item_release_id (set_item i kind schema) = i" "item_retired (set_item i kind schema) = False"
  "item_artifact (set_item i kind schema) = Some (set_artifact kind schema)"
  "item_mode (set_item i kind schema) = RELEASE_MODE_ENFORCE"
  by (simp_all add: set_item_def)

definition set_generation :: asset_generation where
  "set_generation = \<lparr>gen_id = ''g1'', gen_asset_id = ''shop'', gen_seq = 1, gen_parent_id = [],
     gen_members = [Some (set_item ''man'' KIND_DETECTOR_MANIFEST []), Some (set_item ''norm'' KIND_NORMALIZER_PROFILE []),
       Some (set_item ''pol'' KIND_POLICY PolicyPayloadSchema)],
     gen_min_edge_version = ''dev'', gen_not_before = None, gen_signature = set_signature ''G'', gen_rollback_of = 0\<rparr>"

lemma set_generation_loads:
  "Load set_lib 0 (empty_store\<lparr>gs_current := None\<rparr>) (Some set_generation) store_key =
     (empty_store\<lparr>gs_current := Some set_generation\<rparr>, None)"
proof -
  have "first_member_error set_lib store_key (gen_members set_generation) = None"
    by (simp add: set_generation_def member_error_def)
  moreover have "VerifyGeneration set_lib (Some set_generation) store_key = None"
    by (simp add: VerifyGeneration_def generationCanonical_def set_generation_def set_signature_def store_key_def go_simps)
  moreover have "gen_asset_id set_generation = ''shop''" "gen_seq set_generation = 1" "gen_not_before set_generation = None"
    by (simp_all add: set_generation_def)
  ultimately show ?thesis by (simp add: Load_def empty_store_def)
qed

definition demo_policy_release :: managedRelease where
  "demo_policy_release = new_release 0 (set_item ''pol'' KIND_POLICY PolicyPayloadSchema)
     (set_artifact KIND_POLICY PolicyPayloadSchema) None (Some (demo_key_policy\<lparr>cand_Dependencies := Some set_deps\<rparr>)) None"

lemma set_generation_members:
  "\<exists>next reg'. apply_all set_lib 0 demo_registry (fresh_set (NewReleaseSet [])) (gen_members set_generation) store_key =
      (None, next, reg') \<and> rs_releases next = [(''pol'', demo_policy_release)] \<and>
      rs_profile next = Some DefaultInspectionProfile \<and> rs_edgeVersion next = ''dev''"
proof -
  have ver: "rs_edgeVersion (fresh_set (NewReleaseSet [])) = ''dev''"
    by (simp add: fresh_set_def NewReleaseSet_def MinimumEdgeVersion_def trim_space_def is_space_def)
  have empty: "rs_releases (fresh_set (NewReleaseSet [])) = []" "rs_inspectorByRel (fresh_set (NewReleaseSet [])) = []"
    by (simp_all add: fresh_set_def NewReleaseSet_def)
  have keys: "cand_Predicate (demo_key_policy\<lparr>cand_Dependencies := d\<rparr>) = cand_Predicate demo_key_policy" for d
    by simp
  have "\<exists>pr k ks. cand_Predicate demo_key_policy = Some pr \<and> prd_DetectionKeys pr = k # ks"
    by (simp add: demo_key_policy_def)
  then obtain pr k ks where pr: "cand_Predicate demo_key_policy = Some pr" "prd_DetectionKeys pr = k # ks" by blast
  have "release_expiry 0 (set_artifact KIND_POLICY PolicyPayloadSchema) > 0"
    by (simp add: release_expiry_def defaultReleaseTTL_def Hour_def Minute_def Second_def Millisecond_def)
  then show ?thesis
    by (simp add: set_generation_def Apply_def applyMember_def Let_def schema_ok_def installManifest_def
          CompileInspector_def LookupInspector_def demo_registry_def apply_setting_def set_field_def apply_gate_def
          install_release_def pr ver empty demo_policy_release_def)
qed

lemma demo_generation_applies:
  "\<exists>s' reg'. ApplyGeneration set_lib 0 demo_registry (NewReleaseSet []) (Some set_generation) store_key None = (None, s', reg')
     \<and> rs_releases s' = [(''pol'', demo_policy_release)]"
proof -
  obtain "next" reg' where all: "apply_all set_lib 0 demo_registry (fresh_set (NewReleaseSet []))
        (gen_members set_generation) store_key = (None, next, reg')"
    and n: "rs_releases next = [(''pol'', demo_policy_release)]" "rs_profile next = Some DefaultInspectionProfile"
      "rs_edgeVersion next = ''dev''"
    using set_generation_members by blast
  have none: "rs_activeGen (NewReleaseSet []) = None" by (simp add: NewReleaseSet_def)
  have "edgeVersionCompatible ''dev'' ''dev''"
    by (simp add: edgeVersionCompatible_def Let_def trim_prefix_def has_prefix_def trim_space_def is_space_def)
  moreover have "hex_encode (pad32 ''n'') \<noteq> []"
    by (simp add: hex_encode_def pad32_def)
  ultimately have "validateGenerationDependencies set_lib set_generation next = None"
    by (simp add: validateGenerationDependencies_def n profile_present_def inspectionProfileDigest_def Let_def
          dependency_error_def demo_policy_release_def new_release_def set_deps_def set_generation_def)
  with all n none show ?thesis
    by (simp add: ApplyGeneration_def set_generation_loads) (simp add: swapFrom_def)
qed



definition set_plan :: unit_listen_plan where
  "set_plan = (demo_plan ''u1'' INGRESS_POSTURE_EXT_AUTHZ)
     \<lparr>plan_signature := Some \<lparr>sig_key_id = KeyID set_lib store_key, sig_bytes = store_key @ pad32 ''P'', sig_signed_at = 0\<rparr>\<rparr>"

lemma set_plan_valid: "plan_valid set_lib demo_addrlib store_key ''u1'' set_plan"
proof -
  have "VerifyUnitListenPlan set_lib (Some set_plan) store_key = None"
    by (simp add: VerifyUnitListenPlan_def unitListenPlanBytes_def set_plan_def store_key_def go_simps)
  moreover have "ValidateUnitListenPlan demo_addrlib (Some set_plan) = None"
    by (simp add: ValidateUnitListenPlan_def set_plan_def demo_plan_def demo_addrlib_def netlib.extend_def
        demo_netlib_def validateListenAddress_def
        trim_space_def is_space_def atoi_def digit_value_def NormalizeTrustedProxyCIDRs_def
        cleanTrustedProxyCIDRs_def TrustedProxyCIDRLimit_def NormalizeModelIngressWindow_def
        DefaultModelIngressWindow_def ModelIngressDefaultItems_def ModelIngressDefaultBytes_def
        ModelIngressDefaultAge_def ModelIngressAbsoluteMaxItems_def ModelIngressAbsoluteMinBytes_def
        ModelIngressAbsoluteMaxBytes_def ModelIngressAbsoluteMinAge_def ModelIngressAbsoluteMaxAge_def
        go_simps)
  ultimately show ?thesis by (simp add: plan_valid_def set_plan_def demo_plan_def)
qed


end
