(* ===== verification/Model_Traffic.thy ===== *)
theory Model_Traffic
  imports Listen
begin

text \<open>
  The traffic an edge hands to the model side: building it from a canonical view and its retained
  size (the second half of \<^verbatim>\<open>src/lib/edgecore/model_bypass.go\<close>). A Go slice whose capacity counts
  is a pair of its elements and its capacity; \<open>grow n\<close> is the capacity the runtime gives an
  append of \<open>n\<close> elements to a nil slice, and \<open>body_cap\<close> the capacity of the body's array.
\<close>

record 'a slice =
  sl_items :: "'a list"
  sl_cap :: nat

record StringValues =
  sv_Name :: string
  sv_Values :: "string slice"

record InspectionCoverage =
  ic_Target :: inspection_surface
  ic_Status :: coverage_status
  ic_InspectedBytes :: int
  ic_TotalBytesKnown :: int
  ic_ParserProfileDigest :: string

record NormalizedTraffic =
  nt_SchemaVersion :: string
  nt_RequestId :: string
  nt_UnitId :: string
  nt_AssetId :: string
  nt_GenerationId :: string
  nt_GenerationSeq :: int
  nt_ModelProfileId :: string
  nt_ModelProfileDigest :: string
  nt_Method :: string
  nt_Route :: string
  nt_Headers :: "StringValues slice"
  nt_QueryParameters :: "StringValues slice"
  nt_Body :: "char slice"
  nt_ContentType :: string
  nt_BodyLength :: int
  nt_BodyTruncated :: bool
  nt_Coverage :: "InspectionCoverage slice"
  nt_OccurredAt :: instant

definition NormalizedModelTrafficSchema :: string where
  "NormalizedModelTrafficSchema = ''normalized-http/v1''"

subsection \<open>Building traffic from a view\<close>

definition headerValuesFold :: "(string \<times> string list) list \<Rightarrow> string \<Rightarrow> string list" where
  "headerValuesFold hdrs name =
     (case find (\<lambda>(k, vs). equal_fold k name) hdrs of None \<Rightarrow> [] | Some (k, vs) \<Rightarrow> vs)"

definition firstHeaderValue :: "(string \<times> string list) list \<Rightarrow> string \<Rightarrow> string" where
  "firstHeaderValue hdrs name = (case headerValuesFold hdrs name of [] \<Rightarrow> [] | v # vs \<Rightarrow> v)"

definition allowedModelHeaders ::
  "(nat \<Rightarrow> nat) \<Rightarrow> (string \<times> string list) list \<Rightarrow> string list \<Rightarrow> StringValues slice" where
  "allowedModelHeaders grow hdrs allowed =
     (let names = sort allowed in
      \<lparr>sl_items = concat (map (\<lambda>name. let vs = headerValuesFold hdrs name in
           if vs = [] then []
           else [\<lparr>sv_Name = to_lower name, sv_Values = \<lparr>sl_items = vs, sl_cap = grow (length vs)\<rparr>\<rparr>]) names),
       sl_cap = length names\<rparr>)"

definition modelQueryParameters :: "(nat \<Rightarrow> nat) \<Rightarrow> CanonicalView \<Rightarrow> StringValues slice" where
  "modelQueryParameters grow view =
     (let names = sort (map fst (view_Query view)) in
      \<lparr>sl_items = map (\<lambda>name. let vs = (case map_of (view_Query view) name of None \<Rightarrow> [] | Some vs \<Rightarrow> vs) in
           \<lparr>sv_Name = name, sv_Values = \<lparr>sl_items = vs, sl_cap = grow (length vs)\<rparr>\<rparr>) names,
       sl_cap = length names\<rparr>)"

definition modelCoverage :: "CanonicalView \<Rightarrow> InspectionCoverage slice" where
  "modelCoverage view =
     \<lparr>sl_items = map (\<lambda>c. \<lparr>ic_Target = cov_Target c, ic_Status = cov_Status c, ic_InspectedBytes = cov_Inspected c,
         ic_TotalBytesKnown = cov_Total c, ic_ParserProfileDigest = view_ProfileDigest view\<rparr>) (view_Coverage view),
      sl_cap = length (view_Coverage view)\<rparr>"

definition modelBodyLength :: "CanonicalView \<Rightarrow> int" where
  "modelBodyLength view =
     (case find (\<lambda>c. cov_Target c = INSPECTION_SURFACE_BODY) (view_Coverage view) of
        None \<Rightarrow> int (length (view_Body view))
      | Some c \<Rightarrow> if cov_Total c > 0 then cov_Total c else int (length (view_Body view)))"

definition modelBodyPartial :: "CanonicalView \<Rightarrow> bool" where
  "modelBodyPartial view \<longleftrightarrow>
     list_ex (\<lambda>c. cov_Target c = INSPECTION_SURFACE_BODY \<and> cov_Status c = COVERAGE_STATUS_PARTIAL) (view_Coverage view)"

definition NewNormalizedModelTraffic ::
  "(nat \<Rightarrow> nat) \<Rightarrow> nat \<Rightarrow> string \<Rightarrow> string \<Rightarrow> string \<Rightarrow> string \<Rightarrow> int \<Rightarrow> ModelProfile option \<Rightarrow> string \<Rightarrow>
   CanonicalView \<Rightarrow> instant \<Rightarrow> (ModelProfile \<times> NormalizedTraffic) option" where
  "NewNormalizedModelTraffic grow body_cap requestID unitID assetID generationID generationSeq arg profileDigest view now =
     (case arg of
        None \<Rightarrow> None
      | Some profile \<Rightarrow>
          if trim_space profileDigest = [] \<or> trim_space generationID = [] \<or> generationSeq \<le> 0 then None
          else
            (let limit = mp_MaxBodyBytes profile;
                 cut = (limit > 0 \<and> int (length (view_Body view)) > limit);
                 body = (if cut then take (nat limit) (view_Body view) else view_Body view) in
             Some (profile,
               \<lparr>nt_SchemaVersion = NormalizedModelTrafficSchema, nt_RequestId = requestID, nt_UnitId = unitID,
                nt_AssetId = assetID, nt_GenerationId = generationID, nt_GenerationSeq = generationSeq,
                nt_ModelProfileId = mp_ProfileId profile, nt_ModelProfileDigest = profileDigest,
                nt_Method = to_upper (trim_space (view_Method view)), nt_Route = view_Path view,
                nt_Headers = allowedModelHeaders grow (view_Headers view) (mp_AllowedHeaders profile),
                nt_QueryParameters = modelQueryParameters grow view,
                nt_Body = \<lparr>sl_items = body, sl_cap = body_cap\<rparr>,
                nt_ContentType = firstHeaderValue (view_Headers view) ''content-type'',
                nt_BodyLength = modelBodyLength view, nt_BodyTruncated = (cut \<or> modelBodyPartial view),
                nt_Coverage = modelCoverage view, nt_OccurredAt = now\<rparr>)))"

subsection \<open>Retained bytes\<close>

definition modelIngressStringBytes :: "string list \<Rightarrow> nat" where
  "modelIngressStringBytes values = sum_list (map length values)"

definition modelIngressStringValuesRetainedBytes :: "StringValues \<Rightarrow> nat" where
  "modelIngressStringValuesRetainedBytes v =
     48 + length (sv_Name v) + sl_cap (sv_Values v) * 16 + sum_list (map length (sl_items (sv_Values v)))"

definition modelIngressTrafficRetainedBytes :: "NormalizedTraffic \<Rightarrow> nat" where
  "modelIngressTrafficRetainedBytes t =
     256 + sl_cap (nt_Body t)
     + modelIngressStringBytes [nt_SchemaVersion t, nt_RequestId t, nt_UnitId t, nt_AssetId t, nt_GenerationId t,
         nt_ModelProfileId t, nt_ModelProfileDigest t, nt_Method t, nt_Route t, nt_ContentType t]
     + (sl_cap (nt_Headers t) + sl_cap (nt_QueryParameters t) + sl_cap (nt_Coverage t)) * 8
     + sum_list (map modelIngressStringValuesRetainedBytes (sl_items (nt_Headers t)))
     + sum_list (map modelIngressStringValuesRetainedBytes (sl_items (nt_QueryParameters t)))
     + sum_list (map (\<lambda>c. 64 + length (ic_ParserProfileDigest c)) (sl_items (nt_Coverage t)))"

text \<open>The capacity of the profile's header list is the second argument.\<close>

definition modelIngressProfileRetainedBytes :: "ModelProfile \<Rightarrow> nat \<Rightarrow> nat" where
  "modelIngressProfileRetainedBytes p headers_cap =
     192 + modelIngressStringBytes [mp_ProfileId p, mp_ModelGroup p, mp_ModelType p, mp_ModelVersion p]
     + headers_cap * 16 + sum_list (map length (mp_AllowedHeaders p))"

subsection \<open>Lemmas\<close>

lemma find_Some_set: "find Q xs = Some x \<Longrightarrow> x \<in> set xs \<and> Q x"
  by (auto simp: find_Some_iff)

lemma allowedModelHeaders_sub:
  assumes "h \<in> set (sl_items (allowedModelHeaders grow hdrs allowed))"
  shows "\<exists>name \<in> set allowed. sv_Name h = to_lower name \<and>
    (\<exists>k. (k, sl_items (sv_Values h)) \<in> set hdrs \<and> equal_fold k name)"
proof -
  obtain name where name: "name \<in> set allowed" and h: "headerValuesFold hdrs name \<noteq> []"
      "sv_Name h = to_lower name" "sl_items (sv_Values h) = headerValuesFold hdrs name"
    using assms by (auto simp: allowedModelHeaders_def Let_def split: if_splits)
  then obtain k where "(k, headerValuesFold hdrs name) \<in> set hdrs" "equal_fold k name"
    by (auto simp: headerValuesFold_def split: option.splits dest!: find_Some_set)
  with name h show ?thesis by auto
qed

subsection \<open>Properties\<close>

text \<open>
  What leaves for the model side is bounded and filtered: the body is a prefix of the inspected
  body within the signed profile's limit and is marked truncated whenever bytes are missing, every
  header that leaves is on the signed allow list, and the traffic carries the digest of exactly
  that profile.
\<close>

theorem model_traffic_bounded:
  assumes "NewNormalizedModelTraffic grow cap req unit asset gen seq (Some profile) digest view now = Some (p, t)"
    and "0 < mp_MaxBodyBytes profile"
  shows "p = profile \<and> nt_ModelProfileDigest t = digest \<and> trim_space digest \<noteq> [] \<and>
    int (length (sl_items (nt_Body t))) \<le> mp_MaxBodyBytes profile \<and>
    (\<exists>rest. view_Body view = sl_items (nt_Body t) @ rest \<and> (rest \<noteq> [] \<longrightarrow> nt_BodyTruncated t)) \<and>
    (\<forall>h \<in> set (sl_items (nt_Headers t)). \<exists>name \<in> set (mp_AllowedHeaders profile). sv_Name h = to_lower name \<and>
       (\<exists>k. (k, sl_items (sv_Values h)) \<in> set (view_Headers view) \<and> equal_fold k name))"
proof -
  have d: "trim_space digest \<noteq> []" and p: "p = profile" and digest: "nt_ModelProfileDigest t = digest"
    and hdr: "nt_Headers t = allowedModelHeaders grow (view_Headers view) (mp_AllowedHeaders profile)"
    and body: "sl_items (nt_Body t) = (if int (length (view_Body view)) > mp_MaxBodyBytes profile
        then take (nat (mp_MaxBodyBytes profile)) (view_Body view) else view_Body view)"
    and trunc: "nt_BodyTruncated t \<longleftrightarrow> int (length (view_Body view)) > mp_MaxBodyBytes profile \<or> modelBodyPartial view"
    using assms by (auto simp: NewNormalizedModelTraffic_def Let_def split: if_splits)
  have "\<exists>rest. view_Body view = sl_items (nt_Body t) @ rest \<and> (rest \<noteq> [] \<longrightarrow> nt_BodyTruncated t)"
    using append_take_drop_id [of "nat (mp_MaxBodyBytes profile)" "view_Body view"] trunc body
    by (metis append_Nil2)
  moreover have "int (length (sl_items (nt_Body t))) \<le> mp_MaxBodyBytes profile"
    using body assms(2) by auto
  ultimately show ?thesis using p d digest allowedModelHeaders_sub hdr by auto
qed

theorem model_traffic_bounded_witness:
  "\<exists>t. NewNormalizedModelTraffic (\<lambda>n. n) 9 ''r'' ''u'' ''a'' ''g1'' 1 (Some (DefaultModelProfile\<lparr>mp_MaxBodyBytes := 2\<rparr>)) ''d''
     ((plain_view ''GET'' ''/'')\<lparr>view_Body := ''abcd''\<rparr>) 0 = Some (DefaultModelProfile\<lparr>mp_MaxBodyBytes := 2\<rparr>, t) \<and>
     int (length (sl_items (nt_Body t))) \<le> 2"
proof -
  obtain p t where n: "NewNormalizedModelTraffic (\<lambda>n. n) 9 ''r'' ''u'' ''a'' ''g1'' 1
      (Some (DefaultModelProfile\<lparr>mp_MaxBodyBytes := 2\<rparr>)) ''d''
     ((plain_view ''GET'' ''/'')\<lparr>view_Body := ''abcd''\<rparr>) 0 = Some (p, t)"
    by (simp add: NewNormalizedModelTraffic_def Let_def trim_space_def is_space_def)
  from model_traffic_bounded [OF n] n show ?thesis by simp
qed

end
