(* ===== verification/Model_Ingress.thy ===== *)
theory Model_Ingress
  imports Model_Traffic "HOL-Library.Multiset"
begin

text \<open>
  The bounded window between an edge and its model side (the queue of
  \<^verbatim>\<open>src/lib/edgecore/model_bypass.go\<close>): a ring of items with three budgets (items, retained bytes,
  age), reference-counted profiles and leased batches. The clock is an argument. Unsigned 64-bit
  subtraction wraps; byte sums stay far below the range. A nil dereference is the value \<open>None\<close>.
  The notification channel of capacity one is a flag.
\<close>

subsection \<open>State\<close>

record ModelIngressItem =
  mi_Profile :: ModelProfile
  mi_headers_cap :: nat
  mi_Traffic :: NormalizedTraffic
  mi_entryBytes :: nat
  mi_profileBytes :: nat
  mi_enqueuedAt :: instant

record modelIngressProfileRef =
  pr_queued :: nat
  pr_inFlight :: nat
  pr_bytes :: nat

record ModelIngressDropCounters =
  drop_EvictedOldest :: nat
  drop_Expired :: nat
  drop_ItemTooLarge :: nat
  drop_InFlightCapacity :: nat
  drop_TransportFailed :: nat
  drop_ModelsideRejected :: nat
  drop_AdmissionBudget :: nat

datatype degradation_reason = ReasonMaxItems | ReasonMaxRetainedBytes | ReasonMaxQueueAge

datatype window_state = WindowApplied | WindowDegraded | WindowConverging | WindowDisabled

record ModelIngressQueue =
  q_entries :: "ModelIngressItem option list"
  q_head :: nat
  q_count :: nat
  q_queuedBytes :: nat
  q_inFlightItems :: nat
  q_inFlightBytes :: nat
  q_profileBytes :: nat
  q_profiles :: "(string \<times> modelIngressProfileRef) list"
  q_desired :: model_ingress_window
  q_effective :: model_ingress_window
  q_hardLimit :: model_ingress_window
  q_reasons :: "degradation_reason list"
  q_drops :: ModelIngressDropCounters
  q_dropped :: nat
  q_notify :: bool

record ModelIngressBatch =
  b_Profile :: ModelProfile
  b_ProfileDigest :: string
  b_items :: "ModelIngressItem list"
  b_completed :: bool

definition usub :: "nat \<Rightarrow> nat \<Rightarrow> nat" where
  "usub a b = (if b \<le> a then a - b else 2 ^ 64 + a - b)"

definition win_age :: "model_ingress_window \<Rightarrow> duration" where
  "win_age w = (case win_max_queue_age w of None \<Rightarrow> 0 | Some d \<Rightarrow> d)"

definition item_digest :: "ModelIngressItem \<Rightarrow> string" where
  "item_digest it = nt_ModelProfileDigest (mi_Traffic it)"

definition modelIngressRequestPathEvictionLimit :: nat where "modelIngressRequestPathEvictionLimit = 32"

definition zero_drops :: ModelIngressDropCounters where
  "zero_drops = \<lparr>drop_EvictedOldest = 0, drop_Expired = 0, drop_ItemTooLarge = 0, drop_InFlightCapacity = 0,
     drop_TransportFailed = 0, drop_ModelsideRejected = 0, drop_AdmissionBudget = 0\<rparr>"

definition total_drops :: "ModelIngressDropCounters \<Rightarrow> nat" where
  "total_drops d = drop_EvictedOldest d + drop_Expired d + drop_ItemTooLarge d + drop_InFlightCapacity d
     + drop_TransportFailed d + drop_ModelsideRejected d + drop_AdmissionBudget d"

subsection \<open>Configuration\<close>

definition signalLocked :: "ModelIngressQueue \<Rightarrow> ModelIngressQueue" where
  "signalLocked q = q\<lparr>q_notify := True\<rparr>"

definition Configure :: "ModelIngressQueue \<Rightarrow> model_ingress_window option \<Rightarrow> window_error option \<times> ModelIngressQueue" where
  "Configure q desired =
     (case NormalizeModelIngressWindow desired of
        Inl e \<Rightarrow> (Some e, q)
      | Inr n \<Rightarrow>
          (let hard = q_hardLimit q in
           (None, signalLocked (q\<lparr>q_desired := n,
              q_effective := \<lparr>win_max_items = min (win_max_items n) (win_max_items hard),
                win_max_retained_bytes = min (win_max_retained_bytes n) (win_max_retained_bytes hard),
                win_max_queue_age = (if win_age hard < win_age n then win_max_queue_age hard else win_max_queue_age n)\<rparr>,
              q_reasons :=
                (if win_max_items n > win_max_items hard then [ReasonMaxItems] else []) @
                (if win_max_retained_bytes n > win_max_retained_bytes hard then [ReasonMaxRetainedBytes] else []) @
                (if win_age n > win_age hard then [ReasonMaxQueueAge] else [])\<rparr>))))"

definition NewModelIngressQueueWithHardLimit :: "model_ingress_window option \<Rightarrow> window_error + ModelIngressQueue" where
  "NewModelIngressQueueWithHardLimit hardLimit =
     (case NormalizeModelIngressWindow hardLimit of
        Inl e \<Rightarrow> Inl e
      | Inr n \<Rightarrow>
          (case Configure \<lparr>q_entries = replicate (win_max_items n) None, q_head = 0, q_count = 0, q_queuedBytes = 0,
              q_inFlightItems = 0, q_inFlightBytes = 0, q_profileBytes = 0, q_profiles = [], q_desired = n,
              q_effective = n, q_hardLimit = n, q_reasons = [], q_drops = zero_drops, q_dropped = 0,
              q_notify = False\<rparr> (Some DefaultModelIngressWindow) of
             (Some e, q) \<Rightarrow> Inl e
           | (None, q) \<Rightarrow> Inr q))"

subsection \<open>Ring, references and drops\<close>

definition front :: "ModelIngressQueue \<Rightarrow> ModelIngressItem" where
  "front q = the (q_entries q ! q_head q)"

definition pop :: "ModelIngressQueue \<Rightarrow> ModelIngressQueue" where
  "pop q = q\<lparr>q_entries := (q_entries q)[q_head q := None], q_head := (q_head q + 1) mod length (q_entries q),
     q_count := q_count q - 1\<rparr>"

definition push :: "ModelIngressItem \<Rightarrow> ModelIngressQueue \<Rightarrow> ModelIngressQueue" where
  "push it q = q\<lparr>q_entries := (q_entries q)[(q_head q + q_count q) mod length (q_entries q) := Some it],
     q_count := q_count q + 1\<rparr>"

text \<open>Changing a reference count and dropping the profile when nothing refers to it any more.\<close>

definition release_ref ::
  "string \<Rightarrow> (modelIngressProfileRef \<Rightarrow> modelIngressProfileRef) \<Rightarrow> ModelIngressQueue \<Rightarrow> ModelIngressQueue" where
  "release_ref digest f q =
     (case map_of (q_profiles q) digest of
        None \<Rightarrow> q
      | Some ref \<Rightarrow>
          (let ref = f ref in
           if pr_queued ref = 0 \<and> pr_inFlight ref = 0
           then q\<lparr>q_profileBytes := usub (q_profileBytes q) (pr_bytes ref), q_profiles := AList.delete digest (q_profiles q)\<rparr>
           else q\<lparr>q_profiles := AList.update digest ref (q_profiles q)\<rparr>))"

definition dec_queued :: "modelIngressProfileRef \<Rightarrow> modelIngressProfileRef" where
  "dec_queued ref = ref\<lparr>pr_queued := usub (pr_queued ref) 1\<rparr>"

definition dec_inFlight :: "modelIngressProfileRef \<Rightarrow> modelIngressProfileRef" where
  "dec_inFlight ref = ref\<lparr>pr_inFlight := usub (pr_inFlight ref) 1\<rparr>"

datatype drop_kind = EvictedOldest | Expired | ItemTooLarge | InFlightCapacity | TransportFailed | ModelsideRejected | AdmissionBudget

fun bump_drop :: "drop_kind \<Rightarrow> nat \<Rightarrow> ModelIngressDropCounters \<Rightarrow> ModelIngressDropCounters" where
  "bump_drop EvictedOldest n d = d\<lparr>drop_EvictedOldest := drop_EvictedOldest d + n\<rparr>"
| "bump_drop Expired n d = d\<lparr>drop_Expired := drop_Expired d + n\<rparr>"
| "bump_drop ItemTooLarge n d = d\<lparr>drop_ItemTooLarge := drop_ItemTooLarge d + n\<rparr>"
| "bump_drop InFlightCapacity n d = d\<lparr>drop_InFlightCapacity := drop_InFlightCapacity d + n\<rparr>"
| "bump_drop TransportFailed n d = d\<lparr>drop_TransportFailed := drop_TransportFailed d + n\<rparr>"
| "bump_drop ModelsideRejected n d = d\<lparr>drop_ModelsideRejected := drop_ModelsideRejected d + n\<rparr>"
| "bump_drop AdmissionBudget n d = d\<lparr>drop_AdmissionBudget := drop_AdmissionBudget d + n\<rparr>"

definition recordDropLocked :: "drop_kind \<Rightarrow> nat \<Rightarrow> ModelIngressQueue \<Rightarrow> ModelIngressQueue" where
  "recordDropLocked kind n q = q\<lparr>q_drops := bump_drop kind n (q_drops q), q_dropped := q_dropped q + n\<rparr>"

definition evictOldestLocked :: "drop_kind \<Rightarrow> ModelIngressQueue \<Rightarrow> ModelIngressQueue" where
  "evictOldestLocked kind q =
     (let it = front q; q = pop q;
          q = q\<lparr>q_queuedBytes := usub (q_queuedBytes q) (mi_entryBytes it)\<rparr>;
          q = release_ref (item_digest it) dec_queued q in
      recordDropLocked kind 1 q)"

definition totalBytesLocked :: "ModelIngressQueue \<Rightarrow> nat" where
  "totalBytesLocked q = q_queuedBytes q + q_inFlightBytes q + q_profileBytes q"

lemma release_ref_count [simp]: "q_count (release_ref d f q) = q_count q"
  by (simp add: release_ref_def Let_def split: option.split)

lemma evictOldest_count [simp]: "q_count (evictOldestLocked kind q) = q_count q - 1"
  by (simp add: evictOldestLocked_def Let_def recordDropLocked_def pop_def)

subsection \<open>Admission\<close>

definition fitsWindowLocked :: "ModelIngressQueue \<Rightarrow> ModelIngressItem \<Rightarrow> string \<Rightarrow> model_ingress_window \<Rightarrow> bool" where
  "fitsWindowLocked q it digest w \<longleftrightarrow>
     (if q_count q + q_inFlightItems q + 1 > win_max_items w then False
      else totalBytesLocked q + mi_entryBytes it
           + (if map_of (q_profiles q) digest = None then mi_profileBytes it else 0) \<le> win_max_retained_bytes w)"

definition fitsLocked :: "ModelIngressQueue \<Rightarrow> ModelIngressItem \<Rightarrow> string \<Rightarrow> bool" where
  "fitsLocked q it digest = fitsWindowLocked q it digest (q_effective q)"

definition exceedsEffectiveLocked :: "ModelIngressQueue \<Rightarrow> bool" where
  "exceedsEffectiveLocked q \<longleftrightarrow>
     q_count q + q_inFlightItems q > win_max_items (q_effective q) \<or>
     totalBytesLocked q > win_max_retained_bytes (q_effective q)"

definition head_age :: "instant \<Rightarrow> ModelIngressQueue \<Rightarrow> duration" where
  "head_age now q = now - mi_enqueuedAt (front q)"

function evictExpiredLocked :: "instant \<Rightarrow> nat \<Rightarrow> nat \<Rightarrow> ModelIngressQueue \<Rightarrow> nat \<times> ModelIngressQueue" where
  "evictExpiredLocked now limit evicted q =
     (if q_count q = 0 then (evicted, q)
      else if limit > 0 \<and> evicted \<ge> limit then (evicted, q)
      else if head_age now q \<le> win_age (q_effective q) then (evicted, q)
      else evictExpiredLocked now limit (evicted + 1) (evictOldestLocked Expired q))"
  by pat_completeness auto
termination
  by (relation "measure (\<lambda>(now, limit, evicted, q). q_count q)") simp_all

declare evictExpiredLocked.simps [simp del]

definition headExpiredLocked :: "instant \<Rightarrow> ModelIngressQueue \<Rightarrow> bool" where
  "headExpiredLocked now q \<longleftrightarrow> q_count q > 0 \<and> head_age now q > win_age (q_effective q)"

function make_room :: "ModelIngressItem \<Rightarrow> string \<Rightarrow> nat \<Rightarrow> ModelIngressQueue \<Rightarrow> ModelIngressQueue" where
  "make_room it digest evicted q =
     (if \<not> fitsLocked q it digest \<and> q_count q > 0 \<and> evicted < modelIngressRequestPathEvictionLimit
      then make_room it digest (evicted + 1) (evictOldestLocked EvictedOldest q) else q)"
  by pat_completeness auto
termination
  by (relation "measure (\<lambda>(it, digest, evicted, q). q_count q)") simp_all

declare make_room.simps [simp del]

definition retain_ref :: "string \<Rightarrow> nat \<Rightarrow> ModelIngressQueue \<Rightarrow> ModelIngressQueue" where
  "retain_ref digest bytes q =
     (case map_of (q_profiles q) digest of
        None \<Rightarrow> q\<lparr>q_profiles := AList.update digest \<lparr>pr_queued = 1, pr_inFlight = 0, pr_bytes = bytes\<rparr> (q_profiles q),
                  q_profileBytes := q_profileBytes q + bytes\<rparr>
      | Some ref \<Rightarrow> q\<lparr>q_profiles := AList.update digest (ref\<lparr>pr_queued := pr_queued ref + 1\<rparr>) (q_profiles q)\<rparr>)"

definition admit :: "ModelIngressItem \<Rightarrow> string \<Rightarrow> ModelIngressQueue \<Rightarrow> ModelIngressQueue" where
  "admit it digest q =
     (let q = push it q; q = q\<lparr>q_queuedBytes := q_queuedBytes q + mi_entryBytes it\<rparr> in
      signalLocked (retain_ref digest (mi_profileBytes it) q))"

definition stamp_item :: "instant \<Rightarrow> ModelIngressItem \<Rightarrow> ModelIngressItem" where
  "stamp_item now it = it\<lparr>mi_entryBytes := modelIngressTrafficRetainedBytes (mi_Traffic it),
     mi_profileBytes := modelIngressProfileRetainedBytes (mi_Profile it) (mi_headers_cap it), mi_enqueuedAt := now\<rparr>"

definition Offer :: "instant \<Rightarrow> ModelIngressItem \<Rightarrow> ModelIngressQueue \<Rightarrow> bool \<times> ModelIngressQueue" where
  "Offer now item q =
     (let digest = trim_space (item_digest item) in
      if digest = [] then (False, q)
      else
        let it = stamp_item now item;
            (evicted, q) = evictExpiredLocked now modelIngressRequestPathEvictionLimit 0 q in
        if mi_entryBytes it + mi_profileBytes it > win_max_retained_bytes (q_effective q)
          then (False, recordDropLocked ItemTooLarge 1 q)
        else let q = make_room it digest evicted q in
          if \<not> fitsLocked q it digest \<and>
             (q_count q = 0 \<or> \<not> exceedsEffectiveLocked q \<or> \<not> fitsWindowLocked q it digest (q_hardLimit q))
            then (False, recordDropLocked (if q_count q = 0 then InFlightCapacity else AdmissionBudget) 1 q)
          else (True, admit it digest q))"

subsection \<open>Leasing and completing batches\<close>

function drop_oversized :: "nat \<Rightarrow> ModelIngressQueue \<Rightarrow> ModelIngressQueue" where
  "drop_oversized maxBytes q =
     (if q_count q > 0 \<and> mi_profileBytes (front q) + mi_entryBytes (front q) > maxBytes
      then drop_oversized maxBytes (evictOldestLocked ItemTooLarge q) else q)"
  by pat_completeness auto
termination
  by (relation "measure (\<lambda>(maxBytes, q). q_count q)") simp_all

declare drop_oversized.simps [simp del]

definition lease_one :: "ModelIngressQueue \<Rightarrow> modelIngressProfileRef \<Rightarrow> ModelIngressQueue" where
  "lease_one q ref =
     (let it = front q; q = pop q in
      q\<lparr>q_queuedBytes := usub (q_queuedBytes q) (mi_entryBytes it), q_inFlightItems := q_inFlightItems q + 1,
        q_inFlightBytes := q_inFlightBytes q + mi_entryBytes it,
        q_profiles := AList.update (item_digest it)
          (ref\<lparr>pr_queued := usub (pr_queued ref) 1, pr_inFlight := pr_inFlight ref + 1\<rparr>) (q_profiles q)\<rparr>)"

function lease_loop ::
  "string \<Rightarrow> nat \<Rightarrow> nat \<Rightarrow> nat \<Rightarrow> ModelIngressItem list \<Rightarrow> ModelIngressQueue \<Rightarrow>
   (ModelIngressItem list \<times> ModelIngressQueue) option" where
  "lease_loop digest maxItems maxBytes bytes items q =
     (if q_count q > 0 \<and> length items < maxItems then
        let it = front q in
        if item_digest it \<noteq> digest \<or> (length items > 0 \<and> bytes + mi_entryBytes it > maxBytes) then Some (items, q)
        else case map_of (q_profiles q) digest of
          None \<Rightarrow> None
        | Some ref \<Rightarrow> lease_loop digest maxItems maxBytes (bytes + mi_entryBytes it) (items @ [it]) (lease_one q ref)
      else Some (items, q))"
  by pat_completeness auto
termination
  by (relation "measure (\<lambda>(digest, maxItems, maxBytes, bytes, items, q). q_count q)")
     (simp_all add: lease_one_def pop_def Let_def)

declare lease_loop.simps [simp del]

definition leaseBatchLocked ::
  "nat \<Rightarrow> nat \<Rightarrow> ModelIngressQueue \<Rightarrow> (ModelIngressBatch option \<times> ModelIngressQueue) option" where
  "leaseBatchLocked maxItems maxBytes q =
     (let q = drop_oversized maxBytes q in
      if q_count q = 0 then Some (None, q)
      else let first = front q in
        case lease_loop (item_digest first) maxItems maxBytes (mi_profileBytes first) [] q of
          None \<Rightarrow> None
        | Some (items, q') \<Rightarrow>
            Some (Some \<lparr>b_Profile = mi_Profile first, b_ProfileDigest = item_digest first, b_items = items,
                        b_completed = False\<rparr>, q'))"

definition complete_item :: "ModelIngressQueue \<Rightarrow> ModelIngressItem \<Rightarrow> ModelIngressQueue" where
  "complete_item q it =
     release_ref (item_digest it) dec_inFlight
       (q\<lparr>q_inFlightItems := usub (q_inFlightItems q) 1, q_inFlightBytes := usub (q_inFlightBytes q) (mi_entryBytes it)\<rparr>)"

definition CompleteBatch ::
  "ModelIngressQueue \<Rightarrow> ModelIngressBatch \<Rightarrow> nat \<Rightarrow> bool \<Rightarrow> ModelIngressQueue \<times> ModelIngressBatch" where
  "CompleteBatch q batch accepted transportFailed =
     (if b_completed batch then (q, batch)
      else
        let count = length (b_items batch);
            q = (if transportFailed then recordDropLocked TransportFailed count q
                 else if accepted < count then recordDropLocked ModelsideRejected (count - accepted) q else q);
            q = foldl complete_item q (b_items batch) in
        (signalLocked q, batch\<lparr>b_completed := True\<rparr>))"

subsection \<open>Waiting, snapshots and the remaining operations\<close>

lemma evictExpired_progress:
  "evictExpiredLocked now limit evicted q = (evicted', q') \<Longrightarrow>
     evicted' + q_count q' = evicted + q_count q \<and> (headExpiredLocked now q' \<longrightarrow> limit > 0 \<and> evicted' \<ge> limit)"
proof (induction now limit evicted q rule: evictExpiredLocked.induct)
  case (1 now limit evicted q)
  then show ?case
    by (subst (asm) (2) evictExpiredLocked.simps) (auto simp: headExpiredLocked_def split: if_splits)
qed

lemma evictExpired_decreases:
  "headExpiredLocked now (snd (evictExpiredLocked now modelIngressRequestPathEvictionLimit 0 q)) \<Longrightarrow>
     q_count (snd (evictExpiredLocked now modelIngressRequestPathEvictionLimit 0 q)) < q_count q"
  using evictExpired_progress [of now modelIngressRequestPathEvictionLimit 0 q]
  by (cases "evictExpiredLocked now modelIngressRequestPathEvictionLimit 0 q")
     (fastforce simp: modelIngressRequestPathEvictionLimit_def)

function cleanupExpired :: "instant \<Rightarrow> ModelIngressQueue \<Rightarrow> ModelIngressQueue" where
  "cleanupExpired now q =
     (let q' = snd (evictExpiredLocked now modelIngressRequestPathEvictionLimit 0 q) in
      if headExpiredLocked now q' then cleanupExpired now q' else q')"
  by pat_completeness auto
termination
  by (relation "measure (\<lambda>(now, q). q_count q)") (simp_all add: evictExpired_decreases)

declare cleanupExpired.simps [simp del]

text \<open>The \<open>index\<close>-th queued item.\<close>

definition queued_at :: "ModelIngressQueue \<Rightarrow> nat \<Rightarrow> ModelIngressItem" where
  "queued_at q i = the (q_entries q ! ((q_head q + i) mod length (q_entries q)))"

fun batch_ready_from ::
  "string \<Rightarrow> nat \<Rightarrow> nat \<Rightarrow> nat \<Rightarrow> nat \<Rightarrow> ModelIngressItem list \<Rightarrow> bool" where
  "batch_ready_from digest maxItems maxBytes bytes index [] = False"
| "batch_ready_from digest maxItems maxBytes bytes index (it # rest) =
     (if index \<ge> maxItems then False
      else if item_digest it \<noteq> digest then True
      else if bytes + mi_entryBytes it > maxBytes then True
      else if index + 1 = maxItems then True
      else batch_ready_from digest maxItems maxBytes (bytes + mi_entryBytes it) (index + 1) rest)"

definition batchReadyLocked :: "nat \<Rightarrow> nat \<Rightarrow> ModelIngressQueue \<Rightarrow> bool" where
  "batchReadyLocked maxItems maxBytes q =
     (if q_count q = 0 then False
      else batch_ready_from (item_digest (front q)) maxItems maxBytes (mi_profileBytes (front q)) 0
        (map (queued_at q) [0..<q_count q]))"

text \<open>
  One pass of the waiting loop of \<open>TakeBatch\<close>: it hands out a batch, waits with the deadline it has
  set, or fails on a nil reference. Between passes the code blocks on the notification, the timer
  or the context.
\<close>

datatype take_outcome = TakePanics | Taken "ModelIngressBatch option" | KeepWaiting "instant option"

definition lease_outcome :: "nat \<Rightarrow> nat \<Rightarrow> ModelIngressQueue \<Rightarrow> take_outcome \<times> ModelIngressQueue" where
  "lease_outcome maxItems maxBytes q =
     (case leaseBatchLocked maxItems maxBytes q of None \<Rightarrow> (TakePanics, q) | Some (b, q') \<Rightarrow> (Taken b, q'))"

definition TakeBatch ::
  "instant \<Rightarrow> nat \<Rightarrow> nat \<Rightarrow> duration \<Rightarrow> instant option \<Rightarrow> ModelIngressQueue \<Rightarrow> take_outcome \<times> ModelIngressQueue" where
  "TakeBatch now maxItems maxBytes maxWait deadline q =
     (if maxItems < 1 \<or> maxBytes = 0 then (Taken None, q)
      else let q = cleanupExpired now q in
        if q_count q > 0 then
          if maxWait \<le> 0 then lease_outcome maxItems maxBytes q
          else let due = (case deadline of None \<Rightarrow> now + maxWait | Some d \<Rightarrow> d) in
            if batchReadyLocked maxItems maxBytes q \<or> \<not> now < due then lease_outcome maxItems maxBytes q
            else (KeepWaiting (Some due), q)
        else (KeepWaiting deadline, q))"

definition DropOldest :: "ModelIngressQueue \<Rightarrow> ModelIngressQueue" where
  "DropOldest q = (if q_count q > 0 then evictOldestLocked EvictedOldest q else q)"

definition MarkDropped :: "ModelIngressQueue \<Rightarrow> ModelIngressQueue" where
  "MarkDropped q = recordDropLocked TransportFailed 1 q"

definition partitionedBytesLocked :: "ModelIngressQueue \<Rightarrow> nat \<times> nat" where
  "partitionedBytesLocked q =
     foldl (\<lambda>(queued, inFlight) (d, ref).
         if pr_queued ref > 0 then (queued + pr_bytes ref, inFlight) else (queued, inFlight + pr_bytes ref))
       (q_queuedBytes q, q_inFlightBytes q) (q_profiles q)"

definition stateLocked :: "instant \<Rightarrow> ModelIngressQueue \<Rightarrow> window_state" where
  "stateLocked now q =
     (if exceedsEffectiveLocked q then WindowConverging
      else if headExpiredLocked now q then WindowConverging
      else if length (q_reasons q) > 0 then WindowDegraded
      else WindowApplied)"

record ModelIngressSnapshot =
  snap_Desired :: model_ingress_window
  snap_Effective :: model_ingress_window
  snap_State :: window_state
  snap_DegradationReasons :: "degradation_reason list"
  snap_QueuedItems :: nat
  snap_QueuedBytes :: nat
  snap_InFlightItems :: nat
  snap_InFlightBytes :: nat
  snap_OldestAge :: duration
  snap_Drops :: ModelIngressDropCounters

definition Snapshot :: "instant \<Rightarrow> ModelIngressQueue \<Rightarrow> ModelIngressSnapshot \<times> ModelIngressQueue" where
  "Snapshot now q0 =
     (let q = cleanupExpired now q0; (queued, inFlight) = partitionedBytesLocked q in
      (\<lparr>snap_Desired = q_desired q, snap_Effective = q_effective q, snap_State = stateLocked now q,
        snap_DegradationReasons = q_reasons q, snap_QueuedItems = q_count q, snap_QueuedBytes = queued,
        snap_InFlightItems = q_inFlightItems q, snap_InFlightBytes = inFlight,
        snap_OldestAge = (if q_count q > 0 \<and> head_age now q > 0 then head_age now q else 0),
        snap_Drops = q_drops q\<rparr>, q))"

definition snapshot_Dropped :: "ModelIngressSnapshot \<Rightarrow> nat" where
  "snapshot_Dropped s = total_drops (snap_Drops s)"

definition NewModelIngressQueue :: "window_error + ModelIngressQueue" where
  "NewModelIngressQueue = NewModelIngressQueueWithHardLimit (Some DefaultModelIngressHardLimit)"

text \<open>One pass of \<open>Take\<close>: a batch of one item, completed at once.\<close>

definition Take :: "instant \<Rightarrow> ModelIngressQueue \<Rightarrow> take_outcome \<times> ModelIngressQueue" where
  "Take now q =
     (case TakeBatch now 1 ModelIngressBatchMaxBytes 0 None q of
        (Taken (Some b), q') \<Rightarrow> (Taken (Some b), fst (CompleteBatch q' b 1 False))
      | other \<Rightarrow> other)"

definition Depth :: "ModelIngressQueue \<Rightarrow> nat" where "Depth q = q_count q"

definition Dropped :: "ModelIngressQueue \<Rightarrow> nat" where "Dropped q = q_dropped q"

definition QueuedBodyBytes :: "instant \<Rightarrow> ModelIngressQueue \<Rightarrow> int \<times> ModelIngressQueue" where
  "QueuedBodyBytes now q = (let (s, q') = Snapshot now q in (to_int64 (int (snap_QueuedBytes s)), q'))"

end
