(* ===== verification/Model_Ingress_Laws.thy ===== *)
theory Model_Ingress_Laws
  imports Model_Ingress "HOL-Library.Sublist"
begin

text \<open>
  The laws of the model ingress queue. \<open>queue_items\<close> reads the ring as a list, \<open>accounts\<close> ties the
  byte counters and the profile references to the queued and leased items, and \<open>in_limits\<close> states the
  local hard limit. All are kept by every operation (\<open>ingress_step\<close>), for any interleaving with
  outstanding batches. With \<open>exact\<close> every offered digest is free of surrounding blanks; then
  the reference counts are exact and no lease fails.
\<close>

subsection \<open>The ring as a list\<close>

definition queue_items :: "ModelIngressQueue \<Rightarrow> ModelIngressItem list" where
  "queue_items q = map (queued_at q) [0..<q_count q]"

definition ring_ok :: "ModelIngressQueue \<Rightarrow> bool" where
  "ring_ok q \<longleftrightarrow> length (q_entries q) = win_max_items (q_hardLimit q) \<and> 0 < length (q_entries q)
     \<and> q_head q < length (q_entries q) \<and> q_count q \<le> length (q_entries q)"

lemma length_queue_items [simp]: "length (queue_items q) = q_count q"
  by (simp add: queue_items_def)

lemma mod_add_inj:
  fixes a i j n :: nat
  assumes "i < j" and "j < n"
  shows "(a + i) mod n \<noteq> (a + j) mod n"
proof
  assume "(a + i) mod n = (a + j) mod n"
  then have "n dvd (a + j) - (a + i)"
    using assms mod_eq_dvd_iff_nat [of "a + i" "a + j" n] by simp
  then show False using assms by (auto dest: dvd_imp_le)
qed

lemma pop_items:
  assumes "ring_ok q" and "0 < q_count q"
  shows "queue_items q = front q # queue_items (pop q)"
proof -
  let ?n = "length (q_entries q)"
  have "queued_at (pop q) i = queued_at q (Suc i)" if "Suc i < q_count q" for i
    using assms that mod_add_inj [of 0 "Suc i" ?n "q_head q"]
    by (auto simp: queued_at_def pop_def ring_ok_def nth_list_update mod_simps)
  then have "queue_items (pop q) = map (queued_at q) (map Suc [0..<q_count q - 1])"
    by (simp add: queue_items_def pop_def)
  moreover have "[0..<q_count q] = 0 # map Suc [0..<q_count q - 1]"
    using assms(2) by (simp add: map_Suc_upt upt_conv_Cons)
  moreover have "queued_at q 0 = front q"
    using assms(1) by (simp add: queued_at_def front_def ring_ok_def)
  ultimately show ?thesis by (simp add: queue_items_def)
qed

lemma push_items:
  assumes "ring_ok q" and "q_count q < length (q_entries q)"
  shows "queue_items (push it q) = queue_items q @ [it]"
proof -
  let ?n = "length (q_entries q)"
  have "queued_at (push it q) i = queued_at q i" if "i < q_count q" for i
    using assms that mod_add_inj [of i "q_count q" ?n "q_head q"]
    by (auto simp: queued_at_def push_def ring_ok_def nth_list_update)
  moreover have "queued_at (push it q) (q_count q) = it"
    using assms by (simp add: queued_at_def push_def ring_ok_def)
  moreover have "q_count (push it q) = Suc (q_count q)" by (simp add: push_def)
  ultimately show ?thesis by (simp add: queue_items_def)
qed

lemma queue_items_cong:
  "q_entries q' = q_entries q \<Longrightarrow> q_head q' = q_head q \<Longrightarrow> q_count q' = q_count q \<Longrightarrow> queue_items q' = queue_items q"
  by (simp add: queue_items_def queued_at_def [abs_def])

lemma ring_ok_cong:
  "q_entries q' = q_entries q \<Longrightarrow> q_head q' = q_head q \<Longrightarrow> q_count q' = q_count q \<Longrightarrow>
   q_hardLimit q' = q_hardLimit q \<Longrightarrow> ring_ok q' = ring_ok q"
  by (simp add: ring_ok_def)

lemma ring_ok_pop: "ring_ok q \<Longrightarrow> ring_ok (pop q)"
  by (auto simp: ring_ok_def pop_def)

lemma ring_ok_push: "ring_ok q \<Longrightarrow> q_count q < length (q_entries q) \<Longrightarrow> ring_ok (push it q)"
  by (simp add: ring_ok_def push_def)

subsection \<open>Accounting of bytes and references\<close>

definition occ :: "string \<Rightarrow> ModelIngressItem multiset \<Rightarrow> nat" where
  "occ d M = size (filter_mset (\<lambda>it. item_digest it = d) M)"

definition entry_bytes :: "ModelIngressItem multiset \<Rightarrow> nat" where
  "entry_bytes M = sum_mset (image_mset mi_entryBytes M)"

definition table_bytes :: "(string \<times> modelIngressProfileRef) list \<Rightarrow> nat" where
  "table_bytes ps = sum_list (map (pr_bytes \<circ> snd) ps)"

definition ref_ok :: "bool \<Rightarrow> string \<Rightarrow> modelIngressProfileRef option \<Rightarrow> nat \<Rightarrow> nat \<Rightarrow> bool" where
  "ref_ok exact d r queued leased =
     (case r of
        None \<Rightarrow> leased = 0 \<and> (exact \<or> trim_space d = d \<longrightarrow> queued = 0)
      | Some ref \<Rightarrow> trim_space d = d \<and> pr_inFlight ref = leased \<and> queued \<le> pr_queued ref \<and>
          (exact \<longrightarrow> queued = pr_queued ref) \<and> 0 < pr_queued ref + pr_inFlight ref)"

definition refs_ok ::
  "bool \<Rightarrow> (string \<times> modelIngressProfileRef) list \<Rightarrow> ModelIngressItem multiset \<Rightarrow> ModelIngressItem multiset \<Rightarrow> bool" where
  "refs_ok exact ps X Y \<longleftrightarrow> distinct (map fst ps) \<and> (\<forall>d. ref_ok exact d (map_of ps d) (occ d X) (occ d Y))"

definition accounts ::
  "bool \<Rightarrow> ModelIngressQueue \<Rightarrow> ModelIngressItem multiset \<Rightarrow> ModelIngressItem multiset \<Rightarrow> bool" where
  "accounts exact q X Y \<longleftrightarrow>
     q_queuedBytes q = entry_bytes X \<and> q_inFlightItems q = size Y \<and> q_inFlightBytes q = entry_bytes Y
     \<and> q_profileBytes q = table_bytes (q_profiles q) \<and> refs_ok exact (q_profiles q) X Y"

lemma occ_add [simp]: "occ d (add_mset it M) = (if item_digest it = d then Suc (occ d M) else occ d M)"
  by (simp add: occ_def)

lemma occ_empty [simp]: "occ d {#} = 0"
  by (simp add: occ_def)

lemma entry_bytes_add [simp]: "entry_bytes (add_mset it M) = mi_entryBytes it + entry_bytes M"
  by (simp add: entry_bytes_def)

lemma entry_bytes_empty [simp]: "entry_bytes {#} = 0"
  by (simp add: entry_bytes_def)

lemma accounts_ref: "accounts e q X Y \<Longrightarrow> ref_ok e d (map_of (q_profiles q) d) (occ d X) (occ d Y)"
  by (simp add: accounts_def refs_ok_def)

lemma usub_le [simp]: "b \<le> a \<Longrightarrow> usub a b = a - b"
  by (simp add: usub_def)

lemma table_bytes_new: "map_of ps d = None \<Longrightarrow> table_bytes (AList.update d r ps) = table_bytes ps + pr_bytes r"
  by (induction ps) (auto simp: table_bytes_def split: if_splits)

lemma table_bytes_same:
  "map_of ps d = Some r \<Longrightarrow> pr_bytes r' = pr_bytes r \<Longrightarrow> table_bytes (AList.update d r' ps) = table_bytes ps"
  by (induction ps) (auto simp: table_bytes_def split: if_splits)

lemma table_bytes_delete:
  "map_of ps d = Some r \<Longrightarrow> distinct (map fst ps) \<Longrightarrow> table_bytes ps = table_bytes (AList.delete d ps) + pr_bytes r"
proof (induction ps)
  case (Cons x ps)
  then show ?case
    by (cases x) (auto simp: table_bytes_def delete_idem split: if_splits)
qed simp

text \<open>Only the reference of one digest changes.\<close>

lemma refs_ok_update:
  assumes "refs_ok e ps X Y" and "ref_ok e d (Some r) (occ d X') (occ d Y')"
    and "\<And>d'. d' \<noteq> d \<Longrightarrow> occ d' X' = occ d' X \<and> occ d' Y' = occ d' Y"
  shows "refs_ok e (AList.update d r ps) X' Y'"
  using assms by (auto simp: refs_ok_def distinct_update update_conv')

lemma refs_ok_delete:
  assumes "refs_ok e ps X Y" and "ref_ok e d None (occ d X') (occ d Y')"
    and "\<And>d'. d' \<noteq> d \<Longrightarrow> occ d' X' = occ d' X \<and> occ d' Y' = occ d' Y"
  shows "refs_ok e (AList.delete d ps) X' Y'"
  using assms by (auto simp: refs_ok_def distinct_delete delete_conv')

lemma refs_ok_same:
  assumes "refs_ok e ps X Y" and "ref_ok e d (map_of ps d) (occ d X') (occ d Y')"
    and "\<And>d'. d' \<noteq> d \<Longrightarrow> occ d' X' = occ d' X \<and> occ d' Y' = occ d' Y"
  shows "refs_ok e ps X' Y'"
  using assms unfolding refs_ok_def by metis

lemma release_ref_ok:
  assumes acc: "refs_ok e (q_profiles q) X Y" and bytes: "q_profileBytes q = table_bytes (q_profiles q)"
    and same: "\<And>d'. d' \<noteq> d \<Longrightarrow> occ d' X' = occ d' X \<and> occ d' Y' = occ d' Y"
    and none: "map_of (q_profiles q) d = None \<Longrightarrow> ref_ok e d None (occ d X') (occ d Y')"
    and some: "\<And>r. map_of (q_profiles q) d = Some r \<Longrightarrow> pr_bytes (f r) = pr_bytes r \<and>
      ref_ok e d (if pr_queued (f r) = 0 \<and> pr_inFlight (f r) = 0 then None else Some (f r)) (occ d X') (occ d Y')"
  shows "refs_ok e (q_profiles (release_ref d f q)) X' Y' \<and>
    q_profileBytes (release_ref d f q) = table_bytes (q_profiles (release_ref d f q)) \<and>
    q_profileBytes (release_ref d f q) \<le> q_profileBytes q"
proof (cases "map_of (q_profiles q) d")
  case None
  then show ?thesis
    using refs_ok_same [where d = d, OF acc _ same] none bytes by (simp add: release_ref_def)
next
  case (Some r)
  have dist: "distinct (map fst (q_profiles q))" using acc by (simp add: refs_ok_def)
  show ?thesis
  proof (cases "pr_queued (f r) = 0 \<and> pr_inFlight (f r) = 0")
    case True
    then show ?thesis
      using Some some [OF Some] refs_ok_delete [where d = d, OF acc _ same] bytes table_bytes_delete [OF Some dist]
      by (simp add: release_ref_def Let_def)
  next
    case False
    then have "release_ref d f q = q\<lparr>q_profiles := AList.update d (f r) (q_profiles q)\<rparr>"
      using Some by (auto simp: release_ref_def Let_def)
    then show ?thesis
      using False some [OF Some] refs_ok_update [where d = d, OF acc _ same] bytes table_bytes_same [OF Some]
      by auto
  qed
qed

subsection \<open>The invariant and its preservation\<close>

definition in_limits :: "ModelIngressQueue \<Rightarrow> bool" where
  "in_limits q \<longleftrightarrow>
     q_count q + q_inFlightItems q \<le> win_max_items (q_hardLimit q) \<and>
     totalBytesLocked q \<le> win_max_retained_bytes (q_hardLimit q) \<and>
     win_max_items (q_effective q) \<le> win_max_items (q_hardLimit q) \<and>
     win_max_retained_bytes (q_effective q) \<le> win_max_retained_bytes (q_hardLimit q) \<and>
     q_dropped q = total_drops (q_drops q)"

definition queue_ok :: "bool \<Rightarrow> ModelIngressQueue \<Rightarrow> ModelIngressItem multiset \<Rightarrow> bool" where
  "queue_ok exact q Y \<longleftrightarrow> ring_ok q \<and> accounts exact q (mset (queue_items q)) Y \<and> in_limits q"

lemma total_bump [simp]: "total_drops (bump_drop k n d) = total_drops d + n"
  by (cases k) (simp_all add: total_drops_def)

lemma recordDrop_fields [simp]:
  "q_entries (recordDropLocked k n q) = q_entries q" "q_head (recordDropLocked k n q) = q_head q"
  "q_count (recordDropLocked k n q) = q_count q" "q_queuedBytes (recordDropLocked k n q) = q_queuedBytes q"
  "q_inFlightItems (recordDropLocked k n q) = q_inFlightItems q"
  "q_inFlightBytes (recordDropLocked k n q) = q_inFlightBytes q"
  "q_profileBytes (recordDropLocked k n q) = q_profileBytes q" "q_profiles (recordDropLocked k n q) = q_profiles q"
  "q_effective (recordDropLocked k n q) = q_effective q" "q_hardLimit (recordDropLocked k n q) = q_hardLimit q"
  "q_dropped (recordDropLocked k n q) = q_dropped q + n" "q_drops (recordDropLocked k n q) = bump_drop k n (q_drops q)"
  by (simp_all add: recordDropLocked_def)

lemma release_ref_fields [simp]:
  "q_entries (release_ref d f q) = q_entries q" "q_head (release_ref d f q) = q_head q"
  "q_queuedBytes (release_ref d f q) = q_queuedBytes q" "q_inFlightItems (release_ref d f q) = q_inFlightItems q"
  "q_inFlightBytes (release_ref d f q) = q_inFlightBytes q"
  "q_effective (release_ref d f q) = q_effective q" "q_hardLimit (release_ref d f q) = q_hardLimit q"
  "q_dropped (release_ref d f q) = q_dropped q" "q_drops (release_ref d f q) = q_drops q"
  by (simp_all add: release_ref_def Let_def split: option.split)

lemma pop_fields [simp]:
  "q_queuedBytes (pop q) = q_queuedBytes q" "q_inFlightItems (pop q) = q_inFlightItems q"
  "q_inFlightBytes (pop q) = q_inFlightBytes q" "q_profileBytes (pop q) = q_profileBytes q"
  "q_profiles (pop q) = q_profiles q" "q_effective (pop q) = q_effective q" "q_hardLimit (pop q) = q_hardLimit q"
  "q_dropped (pop q) = q_dropped q" "q_drops (pop q) = q_drops q" "q_count (pop q) = q_count q - 1"
  by (simp_all add: pop_def)

lemma record_keeps [simp]:
  "queue_items (recordDropLocked k n q) = queue_items q" "ring_ok (recordDropLocked k n q) = ring_ok q"
  "accounts e (recordDropLocked k n q) X Y = accounts e q X Y" "in_limits (recordDropLocked k n q) = in_limits q"
  by (simp_all add: queue_items_def queued_at_def [abs_def] ring_ok_def accounts_def in_limits_def totalBytesLocked_def)

lemma queue_ok_record [simp]: "queue_ok e (recordDropLocked k n q) Y = queue_ok e q Y"
  by (simp add: queue_ok_def)

text \<open>Evicting the head removes exactly the oldest item.\<close>

lemma evict_items:
  assumes "ring_ok q" and "0 < q_count q"
  shows "queue_items q = front q # queue_items (evictOldestLocked k q)"
proof -
  have "queue_items (evictOldestLocked k q) = queue_items (pop q)"
    by (rule queue_items_cong) (simp_all add: evictOldestLocked_def Let_def)
  then show ?thesis using pop_items [OF assms] by simp
qed

lemma dec_queued_ref_ok:
  "ref_ok e d (Some r) (Suc x) y \<Longrightarrow>
   ref_ok e d (if pr_queued (dec_queued r) = 0 \<and> pr_inFlight (dec_queued r) = 0 then None else Some (dec_queued r)) x y"
  by (auto simp: ref_ok_def dec_queued_def)

lemma evict_ok:
  assumes ok: "queue_ok e q Y" and ne: "0 < q_count q"
  shows "queue_ok e (evictOldestLocked k q) Y"
proof -
  let ?it = "front q" and ?X = "mset (queue_items (pop q))"
  let ?q1 = "(pop q)\<lparr>q_queuedBytes := usub (q_queuedBytes (pop q)) (mi_entryBytes (front q))\<rparr>"
  let ?q2 = "release_ref (item_digest ?it) dec_queued ?q1"
  have ring: "ring_ok q" and acc: "accounts e q (add_mset ?it ?X) Y" and w: "in_limits q"
    using ok pop_items [OF _ ne] by (auto simp: queue_ok_def)
  have eq: "evictOldestLocked k q = recordDropLocked k 1 ?q2" by (simp add: evictOldestLocked_def Let_def)
  have refs: "refs_ok e (q_profiles ?q2) ?X Y \<and> q_profileBytes ?q2 = table_bytes (q_profiles ?q2)
      \<and> q_profileBytes ?q2 \<le> q_profileBytes ?q1"
  proof (rule release_ref_ok [where X = "add_mset ?it ?X" and Y = Y])
    show "refs_ok e (q_profiles ?q1) (add_mset ?it ?X) Y" "q_profileBytes ?q1 = table_bytes (q_profiles ?q1)"
      using acc by (simp_all add: accounts_def)
    have ref: "ref_ok e (item_digest ?it) (map_of (q_profiles q) (item_digest ?it)) (Suc (occ (item_digest ?it) ?X)) (occ (item_digest ?it) Y)"
      using accounts_ref [OF acc, of "item_digest ?it"] by simp
    show "ref_ok e (item_digest ?it) None (occ (item_digest ?it) ?X) (occ (item_digest ?it) Y)"
      if "map_of (q_profiles ?q1) (item_digest ?it) = None"
      using ref that by (auto simp: ref_ok_def)
    show "pr_bytes (dec_queued r) = pr_bytes r \<and> ref_ok e (item_digest ?it)
        (if pr_queued (dec_queued r) = 0 \<and> pr_inFlight (dec_queued r) = 0 then None else Some (dec_queued r))
        (occ (item_digest ?it) ?X) (occ (item_digest ?it) Y)"
      if "map_of (q_profiles ?q1) (item_digest ?it) = Some r" for r
      using ref that dec_queued_ref_ok by (simp add: dec_queued_def)
  qed auto
  have items: "queue_items ?q2 = queue_items (pop q)" by (rule queue_items_cong) simp_all
  have "ring_ok ?q2" using ring_ok_pop [OF ring] by (rule ring_ok_cong [THEN iffD2, rotated -1]) simp_all
  moreover have "accounts e ?q2 ?X Y" using acc refs by (simp add: accounts_def)
  moreover have "in_limits ?q2"
    using w refs acc by (auto simp: in_limits_def totalBytesLocked_def accounts_def)
  ultimately show ?thesis unfolding eq queue_ok_record by (simp only: queue_ok_def items)
qed

text \<open>Dropping from the head, any number of times.\<close>

definition sheds :: "bool \<Rightarrow> ModelIngressItem multiset \<Rightarrow> ModelIngressQueue \<Rightarrow> ModelIngressQueue \<Rightarrow> bool" where
  "sheds e Y q q' \<longleftrightarrow> queue_ok e q' Y \<and> suffix (queue_items q') (queue_items q) \<and>
     q_hardLimit q' = q_hardLimit q \<and> q_effective q' = q_effective q"

lemma sheds_refl: "queue_ok e q Y \<Longrightarrow> sheds e Y q q"
  by (simp add: sheds_def)

lemma sheds_trans: "sheds e Y q q' \<Longrightarrow> sheds e Y q' q'' \<Longrightarrow> sheds e Y q q''"
  by (auto simp: sheds_def intro: suffix_order.trans)

lemma evict_sheds: "queue_ok e q Y \<Longrightarrow> 0 < q_count q \<Longrightarrow> sheds e Y q (evictOldestLocked k q)"
  using evict_ok [of e q Y k] evict_items [of q k]
  by (auto simp: sheds_def queue_ok_def suffix_Cons evictOldestLocked_def Let_def)

lemma evict_then: "queue_ok e q Y \<Longrightarrow> 0 < q_count q \<Longrightarrow> sheds e Y (evictOldestLocked k q) q' \<Longrightarrow> sheds e Y q q'"
  using evict_sheds sheds_trans by blast

lemma evictExpired_sheds: "queue_ok e q Y \<Longrightarrow> sheds e Y q (snd (evictExpiredLocked now limit evicted q))"
proof (induction now limit evicted q rule: evictExpiredLocked.induct)
  case (1 now limit evicted q)
  then show ?case
    using evict_then [of e q Y Expired] evict_ok [of e q Y Expired] sheds_refl [of e q Y]
    by (subst evictExpiredLocked.simps) auto
qed

lemma make_room_sheds: "queue_ok e q Y \<Longrightarrow> sheds e Y q (make_room it d evicted q)"
proof (induction it d evicted q rule: make_room.induct)
  case (1 it d evicted q)
  then show ?case
    using evict_then [of e q Y EvictedOldest] evict_ok [of e q Y EvictedOldest] sheds_refl [of e q Y]
    by (subst make_room.simps) auto
qed

lemma drop_oversized_sheds: "queue_ok e q Y \<Longrightarrow> sheds e Y q (drop_oversized maxBytes q)"
proof (induction maxBytes q rule: drop_oversized.induct)
  case (1 maxBytes q)
  then show ?case
    using evict_then [of e q Y ItemTooLarge] evict_ok [of e q Y ItemTooLarge] sheds_refl [of e q Y]
    by (subst drop_oversized.simps) auto
qed

lemma cleanup_sheds: "queue_ok e q Y \<Longrightarrow> sheds e Y q (cleanupExpired now q)"
proof (induction now q rule: cleanupExpired.induct)
  case (1 now q)
  let ?q = "snd (evictExpiredLocked now modelIngressRequestPathEvictionLimit 0 q)"
  have s: "sheds e Y q ?q" using 1(2) by (rule evictExpired_sheds)
  then have ok: "queue_ok e ?q Y" by (simp add: sheds_def)
  show ?case
    using s sheds_trans [OF s] 1(1) [OF refl _ ok] by (subst cleanupExpired.simps) (simp add: Let_def)
qed

lemma queue_ok_signal [simp]: "queue_ok e (signalLocked q) Y = queue_ok e q Y"
  by (simp add: queue_ok_def signalLocked_def ring_ok_def accounts_def in_limits_def totalBytesLocked_def
      queue_items_def queued_at_def [abs_def])

lemma signal_items [simp]: "queue_items (signalLocked q) = queue_items q"
  by (simp add: signalLocked_def queue_items_def queued_at_def [abs_def])

lemma drop_oversized_fits:
  "0 < q_count (drop_oversized maxBytes q) \<Longrightarrow>
   mi_profileBytes (front (drop_oversized maxBytes q)) + mi_entryBytes (front (drop_oversized maxBytes q)) \<le> maxBytes"
proof (induction maxBytes q rule: drop_oversized.induct)
  case (1 maxBytes q)
  then show ?case by (cases "q_count q > 0 \<and> mi_profileBytes (front q) + mi_entryBytes (front q) > maxBytes")
      (auto simp: drop_oversized.simps [of maxBytes q])
qed

lemma cleanup_fresh: "\<not> headExpiredLocked now (cleanupExpired now q)"
proof (induction now q rule: cleanupExpired.induct)
  case (1 now q)
  then show ?case by (subst cleanupExpired.simps) (simp add: Let_def)
qed

text \<open>Admission.\<close>

lemma retain_fields [simp]:
  "q_entries (retain_ref d b q) = q_entries q" "q_head (retain_ref d b q) = q_head q"
  "q_count (retain_ref d b q) = q_count q" "q_queuedBytes (retain_ref d b q) = q_queuedBytes q"
  "q_inFlightItems (retain_ref d b q) = q_inFlightItems q" "q_inFlightBytes (retain_ref d b q) = q_inFlightBytes q"
  "q_effective (retain_ref d b q) = q_effective q" "q_hardLimit (retain_ref d b q) = q_hardLimit q"
  "q_dropped (retain_ref d b q) = q_dropped q" "q_drops (retain_ref d b q) = q_drops q"
  by (simp_all add: retain_ref_def split: option.split)

lemma push_fields [simp]:
  "q_queuedBytes (push it q) = q_queuedBytes q" "q_inFlightItems (push it q) = q_inFlightItems q"
  "q_inFlightBytes (push it q) = q_inFlightBytes q" "q_profileBytes (push it q) = q_profileBytes q"
  "q_profiles (push it q) = q_profiles q" "q_effective (push it q) = q_effective q" "q_hardLimit (push it q) = q_hardLimit q"
  "q_dropped (push it q) = q_dropped q" "q_drops (push it q) = q_drops q" "q_count (push it q) = q_count q + 1"
  by (simp_all add: push_def)

lemma retain_table:
  assumes "q_profileBytes q = table_bytes (q_profiles q)"
  shows "q_profileBytes (retain_ref d b q) = table_bytes (q_profiles (retain_ref d b q))"
    and "q_profileBytes (retain_ref d b q) = q_profileBytes q + (if map_of (q_profiles q) d = None then b else 0)"
  using assms by (auto simp: retain_ref_def table_bytes_new table_bytes_same split: option.split)

lemma retain_refs_ok:
  assumes ok: "refs_ok e (q_profiles q) X Y" and d: "d = trim_space (item_digest it)"
    and e: "e \<Longrightarrow> item_digest it = d"
  shows "refs_ok e (q_profiles (retain_ref d b q)) (add_mset it X) Y"
proof -
  have td: "trim_space d = d" using d by simp
  have refs: "ref_ok e d' (map_of (q_profiles q) d') (occ d' X) (occ d' Y)" for d'
    using ok by (simp add: refs_ok_def)
  have "map_of (q_profiles (retain_ref d b q)) =
      (map_of (q_profiles q))(d \<mapsto> (case map_of (q_profiles q) d of None \<Rightarrow> \<lparr>pr_queued = 1, pr_inFlight = 0, pr_bytes = b\<rparr>
        | Some r \<Rightarrow> r\<lparr>pr_queued := pr_queued r + 1\<rparr>))"
    by (simp add: retain_ref_def update_conv' split: option.split)
  moreover have "ref_ok e d' (map_of (q_profiles q) d') (occ d' (add_mset it X)) (occ d' Y)" if "d' \<noteq> d" for d'
    using refs [of d'] that d e by (auto simp: ref_ok_def split: option.split_asm)
  moreover have "ref_ok e d (Some (case map_of (q_profiles q) d of None \<Rightarrow> \<lparr>pr_queued = 1, pr_inFlight = 0, pr_bytes = b\<rparr>
        | Some r \<Rightarrow> r\<lparr>pr_queued := pr_queued r + 1\<rparr>)) (occ d (add_mset it X)) (occ d Y)"
    using refs [of d] td e by (auto simp: ref_ok_def split: option.split_asm)
  moreover have "distinct (map fst (q_profiles (retain_ref d b q)))"
    using ok by (simp add: refs_ok_def retain_ref_def distinct_update split: option.split)
  ultimately show ?thesis unfolding refs_ok_def by (simp del: occ_add)
qed

lemma admit_ok:
  assumes ok: "queue_ok e q Y" and fits: "fitsWindowLocked q it d (q_hardLimit q)"
    and d: "d = trim_space (item_digest it)" and e: "e \<Longrightarrow> item_digest it = d"
  shows "queue_ok e (admit it d q) Y" and "queue_items (admit it d q) = queue_items q @ [it]"
proof -
  let ?q1 = "(push it q)\<lparr>q_queuedBytes := q_queuedBytes (push it q) + mi_entryBytes it\<rparr>"
  let ?q2 = "retain_ref d (mi_profileBytes it) ?q1"
  have ring: "ring_ok q" and acc: "accounts e q (mset (queue_items q)) Y" and w: "in_limits q"
    using ok by (auto simp: queue_ok_def)
  have room: "q_count q < length (q_entries q)"
    using fits ring by (auto simp: fitsWindowLocked_def ring_ok_def split: if_splits)
  have items: "queue_items ?q2 = queue_items q @ [it]"
    using push_items [OF ring room, of it] queue_items_cong [of ?q2 "push it q"] by simp
  have tb: "q_profileBytes ?q1 = table_bytes (q_profiles ?q1)" using acc by (simp add: accounts_def)
  have "ring_ok ?q2" using ring_ok_push [OF ring room] by (rule ring_ok_cong [THEN iffD2, rotated -1]) simp_all
  moreover have "refs_ok e (q_profiles ?q2) (add_mset it (mset (queue_items q))) Y"
    using acc by (intro retain_refs_ok d e) (simp_all add: accounts_def)
  then have "accounts e ?q2 (mset (queue_items q @ [it])) Y"
    using acc retain_table(1) [OF tb, of d "mi_profileBytes it"] by (simp add: accounts_def)
  moreover have "in_limits ?q2"
    using w fits retain_table(2) [OF tb, of d "mi_profileBytes it"]
    by (auto simp: in_limits_def fitsWindowLocked_def totalBytesLocked_def split: if_splits)
  ultimately have "queue_ok e ?q2 Y" by (simp only: queue_ok_def items)
  then show "queue_ok e (admit it d q) Y" "queue_items (admit it d q) = queue_items q @ [it]"
    using items by (simp_all add: admit_def Let_def)
qed

lemma Offer_ok:
  assumes ok: "queue_ok e q Y" and e: "e \<Longrightarrow> trim_space (item_digest it) = item_digest it"
  shows "queue_ok e (snd (Offer now it q)) Y \<and>
    (\<exists>kept. suffix kept (queue_items q) \<and>
       queue_items (snd (Offer now it q)) = (if fst (Offer now it q) then kept @ [stamp_item now it] else kept)) \<and>
    q_hardLimit (snd (Offer now it q)) = q_hardLimit q"
proof (cases "trim_space (item_digest it) = []")
  case True
  then show ?thesis using ok by (auto simp: Offer_def)
next
  case False
  define d where "d = trim_space (item_digest it)"
  define s where "s = stamp_item now it"
  obtain n q1 where ex: "evictExpiredLocked now modelIngressRequestPathEvictionLimit 0 q = (n, q1)" by fastforce
  define q2 where "q2 = make_room s d n q1"
  have sd: "item_digest s = item_digest it" by (simp add: s_def stamp_item_def item_digest_def)
  have s1: "sheds e Y q q1" using evictExpired_sheds [OF ok, of now modelIngressRequestPathEvictionLimit 0] by (simp add: ex)
  then have s2: "sheds e Y q q2"
    using make_room_sheds sheds_trans unfolding q2_def by (metis sheds_def)
  have off: "Offer now it q =
      (if mi_entryBytes s + mi_profileBytes s > win_max_retained_bytes (q_effective q1)
       then (False, recordDropLocked ItemTooLarge 1 q1)
       else if \<not> fitsLocked q2 s d \<and> (q_count q2 = 0 \<or> \<not> exceedsEffectiveLocked q2 \<or> \<not> fitsWindowLocked q2 s d (q_hardLimit q2))
       then (False, recordDropLocked (if q_count q2 = 0 then InFlightCapacity else AdmissionBudget) 1 q2)
       else (True, admit s d q2))"
    unfolding Offer_def q2_def using False by (simp add: ex Let_def d_def s_def)
  consider (large) "Offer now it q = (False, recordDropLocked ItemTooLarge 1 q1)"
    | (full) k where "Offer now it q = (False, recordDropLocked k 1 q2)"
    | (fits) "Offer now it q = (True, admit s d q2)" "fitsWindowLocked q2 s d (q_hardLimit q2) \<or> fitsLocked q2 s d"
    using off by (auto split: if_split_asm)
  then show ?thesis
  proof cases
    case large
    then show ?thesis using s1 by (auto simp: sheds_def)
  next
    case full
    then show ?thesis using s2 by (auto simp: sheds_def)
  next
    case fits
    have "in_limits q2" and ok2: "queue_ok e q2 Y" using s2 by (auto simp: sheds_def queue_ok_def)
    then have "fitsWindowLocked q2 s d (q_hardLimit q2)"
      using fits(2) by (auto simp: fitsLocked_def fitsWindowLocked_def in_limits_def split: if_splits)
    note adm = admit_ok [OF ok2 this]
    have "q_hardLimit (admit s d q2) = q_hardLimit q2" by (simp add: admit_def signalLocked_def)
    with s2 show ?thesis
      unfolding fits(1) using adm e sd by (auto simp: sheds_def d_def s_def [symmetric])
  qed
qed

text \<open>Leasing.\<close>

lemma lease_one_ok:
  assumes ok: "queue_ok e q Y" and ne: "0 < q_count q" and r: "map_of (q_profiles q) (item_digest (front q)) = Some r"
  shows "queue_ok e (lease_one q r) (add_mset (front q) Y)" and "queue_items q = front q # queue_items (lease_one q r)"
proof -
  let ?it = "front q" and ?X = "mset (queue_items (pop q))" and ?q = "lease_one q r"
  let ?r = "r\<lparr>pr_queued := usub (pr_queued r) 1, pr_inFlight := pr_inFlight r + 1\<rparr>"
  have ring: "ring_ok q" and acc: "accounts e q (add_mset ?it ?X) Y" and w: "in_limits q"
    using ok pop_items [OF _ ne] by (auto simp: queue_ok_def)
  have f: "q_queuedBytes ?q = usub (q_queuedBytes q) (mi_entryBytes ?it)" "q_inFlightItems ?q = q_inFlightItems q + 1"
    "q_inFlightBytes ?q = q_inFlightBytes q + mi_entryBytes ?it" "q_profileBytes ?q = q_profileBytes q"
    "q_profiles ?q = AList.update (item_digest ?it) ?r (q_profiles q)" "q_entries ?q = q_entries (pop q)"
    "q_head ?q = q_head (pop q)" "q_count ?q = q_count (pop q)" "q_hardLimit ?q = q_hardLimit q"
    "q_effective ?q = q_effective q" "q_dropped ?q = q_dropped q" "q_drops ?q = q_drops q"
    by (simp_all add: lease_one_def Let_def)
  have items: "queue_items ?q = queue_items (pop q)" using f by (intro queue_items_cong)
  then show "queue_items q = ?it # queue_items ?q" using pop_items [OF ring ne] by simp
  have "ref_ok e (item_digest ?it) (Some r) (Suc (occ (item_digest ?it) ?X)) (occ (item_digest ?it) Y)"
    using accounts_ref [OF acc, of "item_digest ?it"] r by simp
  then have "ref_ok e (item_digest ?it) (Some ?r) (occ (item_digest ?it) ?X) (occ (item_digest ?it) (add_mset ?it Y))"
    by (auto simp: ref_ok_def)
  then have "refs_ok e (q_profiles ?q) ?X (add_mset ?it Y)"
    unfolding f(5) using acc by (intro refs_ok_update [where X = "add_mset ?it ?X" and Y = Y]) (auto simp: accounts_def)
  then have "accounts e ?q ?X (add_mset ?it Y)"
    using acc table_bytes_same [OF r, of ?r] by (simp add: accounts_def f(1-4)) (simp add: f(5))
  moreover have "ring_ok ?q"
    using ring_ok_pop [OF ring] by (rule ring_ok_cong [THEN iffD2, rotated -1]) (simp_all add: f)
  moreover have "in_limits ?q"
    using w acc ne by (auto simp: in_limits_def totalBytesLocked_def accounts_def f(1-4) f(8-12))
  ultimately show "queue_ok e ?q (add_mset ?it Y)" by (simp only: queue_ok_def items)
qed

text \<open>What a lease loop started with \<open>items\<close> hands out on top of them.\<close>

definition lease_spec ::
  "string \<Rightarrow> nat \<Rightarrow> nat \<Rightarrow> nat \<Rightarrow> nat \<Rightarrow> ModelIngressItem list \<Rightarrow> bool" where
  "lease_spec d maxItems maxBytes bytes have_items taken \<longleftrightarrow>
     (\<forall>it \<in> set taken. item_digest it = d) \<and> (taken \<noteq> [] \<longrightarrow> have_items + length taken \<le> maxItems) \<and>
     (taken \<noteq> [] \<and> (0 < have_items \<or> bytes + mi_entryBytes (hd taken) \<le> maxBytes)
        \<longrightarrow> bytes + sum_list (map mi_entryBytes taken) \<le> maxBytes)"

lemma lease_spec_Cons:
  assumes "item_digest it = d" and "n < maxItems" and "0 < n \<longrightarrow> bytes + mi_entryBytes it \<le> maxBytes"
    and "lease_spec d maxItems maxBytes (bytes + mi_entryBytes it) (Suc n) taken"
  shows "lease_spec d maxItems maxBytes bytes n (it # taken)"
  using assms by (cases taken) (auto simp: lease_spec_def)

lemma lease_loop_ok:
  "queue_ok e q Y \<Longrightarrow> lease_loop d maxItems maxBytes bytes items q = Some (items', q') \<Longrightarrow>
   \<exists>taken. items' = items @ taken \<and> queue_ok e q' (Y + mset taken) \<and> queue_items q = taken @ queue_items q' \<and>
     lease_spec d maxItems maxBytes bytes (length items) taken"
proof (induction d maxItems maxBytes bytes items q arbitrary: Y rule: lease_loop.induct)
  case (1 d maxItems maxBytes bytes items q)
  let ?it = "front q"
  show ?case
  proof (cases "q_count q > 0 \<and> length items < maxItems \<and> item_digest ?it = d \<and>
      (length items > 0 \<longrightarrow> bytes + mi_entryBytes ?it \<le> maxBytes)")
    case False
    then have "items' = items" "q' = q"
      using 1(3) by (auto simp: lease_loop.simps [of d maxItems maxBytes bytes items q] Let_def split: if_splits option.splits)
    then show ?thesis using 1(2) by (auto simp: lease_spec_def)
  next
    case True
    then obtain r where r: "map_of (q_profiles q) d = Some r"
      and rest: "lease_loop d maxItems maxBytes (bytes + mi_entryBytes ?it) (items @ [?it]) (lease_one q r) = Some (items', q')"
      using 1(3) by (auto simp: lease_loop.simps [of d maxItems maxBytes bytes items q] Let_def split: if_splits option.splits)
    note one = lease_one_ok [OF 1(2), of r]
    obtain taken where "items' = (items @ [?it]) @ taken" "queue_ok e q' (add_mset ?it Y + mset taken)"
      "queue_items (lease_one q r) = taken @ queue_items q'"
      "lease_spec d maxItems maxBytes (bytes + mi_entryBytes ?it) (Suc (length items)) taken"
      using 1(1) [OF _ refl _ r one(1) rest] True r by auto
    then show ?thesis
      using True r one(2) lease_spec_Cons [of ?it d "length items" maxItems bytes maxBytes taken]
      by (intro exI [of _ "?it # taken"]) auto
  qed
qed

lemma lease_loop_returns:
  "queue_ok e q Y \<Longrightarrow> e \<or> trim_space d = d \<Longrightarrow> lease_loop d maxItems maxBytes bytes items q \<noteq> None"
proof (induction d maxItems maxBytes bytes items q arbitrary: Y rule: lease_loop.induct)
  case (1 d maxItems maxBytes bytes items q)
  have "\<exists>r. map_of (q_profiles q) d = Some r" if "0 < q_count q" "item_digest (front q) = d"
  proof -
    have "0 < occ d (mset (queue_items q))"
      using pop_items [of q] that 1(2) by (auto simp: queue_ok_def)
    moreover have "ref_ok e d (map_of (q_profiles q) d) (occ d (mset (queue_items q))) (occ d Y)"
      using 1(2) by (auto simp: queue_ok_def accounts_ref)
    ultimately show ?thesis using 1(3) by (auto simp: ref_ok_def split: option.split_asm)
  qed
  then show ?case
    using 1 lease_one_ok(1) [OF 1(2)]
    by (subst lease_loop.simps) (auto simp: Let_def split: option.split)
qed

lemma lease_loop_takes:
  assumes "lease_loop (item_digest (front q)) maxItems maxBytes bytes [] q = Some (items, q')"
    and "0 < q_count q" and "0 < maxItems" and "queue_ok e q Y"
  shows "items \<noteq> []"
proof -
  obtain r where "lease_loop (item_digest (front q)) maxItems maxBytes (bytes + mi_entryBytes (front q)) [front q] (lease_one q r)
      = Some (items, q')" and r: "map_of (q_profiles q) (item_digest (front q)) = Some r"
    using assms(1-3) by (auto simp: lease_loop.simps [of _ _ _ _ "[]"] Let_def split: option.splits)
  then show ?thesis
    using lease_loop_ok [OF lease_one_ok(1) [OF assms(4,2) r]] by fastforce
qed

text \<open>A leased batch: a run of the queue's head of one digest within the requested size.\<close>

lemma leaseBatch_ok:
  assumes ok: "queue_ok e q Y" and some: "leaseBatchLocked maxItems maxBytes q = Some (Some b, q')" and m: "0 < maxItems"
  shows "queue_ok e q' (Y + mset (b_items b)) \<and> \<not> b_completed b \<and>
    suffix (b_items b @ queue_items q') (queue_items q) \<and> b_items b \<noteq> [] \<and> length (b_items b) \<le> maxItems \<and>
    (\<forall>it \<in> set (b_items b). item_digest it = b_ProfileDigest b) \<and>
    mi_profileBytes (hd (b_items b)) + sum_list (map mi_entryBytes (b_items b)) \<le> maxBytes"
proof -
  let ?q = "drop_oversized maxBytes q"
  let ?first = "front ?q"
  have s: "sheds e Y q ?q" using ok by (rule drop_oversized_sheds)
  then have ok': "queue_ok e ?q Y" by (simp add: sheds_def)
  have ne: "0 < q_count ?q"
    and loop: "lease_loop (item_digest ?first) maxItems maxBytes (mi_profileBytes ?first) [] ?q = Some (b_items b, q')"
    and b: "b_ProfileDigest b = item_digest ?first" "\<not> b_completed b"
    using some by (auto simp: leaseBatchLocked_def Let_def split: if_splits option.splits prod.splits)
  have fits: "mi_profileBytes ?first + mi_entryBytes ?first \<le> maxBytes" using ne by (rule drop_oversized_fits)
  have items: "b_items b \<noteq> []" by (rule lease_loop_takes [OF loop ne m ok'])
  have spec: "queue_ok e q' (Y + mset (b_items b))" "queue_items ?q = b_items b @ queue_items q'"
    "lease_spec (item_digest ?first) maxItems maxBytes (mi_profileBytes ?first) 0 (b_items b)"
    using lease_loop_ok [OF ok' loop] by auto
  have "queue_items ?q = ?first # queue_items (pop ?q)"
    using ok' ne by (intro pop_items) (simp_all add: queue_ok_def)
  with spec(2) items have hd: "hd (b_items b) = ?first" by (cases "b_items b") auto
  show ?thesis using s b spec items fits hd by (auto simp: sheds_def lease_spec_def)
qed

lemma leaseBatch_none_ok:
  "queue_ok e q Y \<Longrightarrow> leaseBatchLocked maxItems maxBytes q = Some (None, q') \<Longrightarrow> sheds e Y q q'"
  using drop_oversized_sheds [of e q Y maxBytes]
  by (auto simp: leaseBatchLocked_def Let_def split: if_splits option.splits prod.splits)

lemma leaseBatch_returns:
  assumes "queue_ok True q Y"
  shows "leaseBatchLocked maxItems maxBytes q \<noteq> None"
proof -
  let ?q = "drop_oversized maxBytes q"
  have "queue_ok True ?q Y" using drop_oversized_sheds [OF assms] by (simp add: sheds_def)
  then have "lease_loop (item_digest (front ?q)) maxItems maxBytes (mi_profileBytes (front ?q)) [] ?q \<noteq> None"
    by (rule lease_loop_returns [where e = True, OF _ disjI1 [OF TrueI]])
  then show ?thesis by (auto simp: leaseBatchLocked_def Let_def)
qed

lemma dec_inFlight_ref_ok:
  "ref_ok e d (Some r) x (Suc y) \<Longrightarrow>
   ref_ok e d (if pr_queued (dec_inFlight r) = 0 \<and> pr_inFlight (dec_inFlight r) = 0 then None else Some (dec_inFlight r)) x y"
  by (auto simp: ref_ok_def dec_inFlight_def)

lemma complete_item_ok:
  assumes ok: "queue_ok e q (add_mset it Y)"
  shows "queue_ok e (complete_item q it) Y" and "queue_items (complete_item q it) = queue_items q"
proof -
  let ?d = "item_digest it" and ?X = "mset (queue_items q)"
  let ?q1 = "q\<lparr>q_inFlightItems := usub (q_inFlightItems q) 1, q_inFlightBytes := usub (q_inFlightBytes q) (mi_entryBytes it)\<rparr>"
  let ?q2 = "release_ref ?d dec_inFlight ?q1"
  have ring: "ring_ok q" and acc: "accounts e q ?X (add_mset it Y)" and w: "in_limits q"
    using ok by (auto simp: queue_ok_def)
  have ref: "ref_ok e ?d (map_of (q_profiles q) ?d) (occ ?d ?X) (Suc (occ ?d Y))"
    using accounts_ref [OF acc, of ?d] by simp
  have refs: "refs_ok e (q_profiles ?q2) ?X Y \<and> q_profileBytes ?q2 = table_bytes (q_profiles ?q2)
      \<and> q_profileBytes ?q2 \<le> q_profileBytes ?q1"
  proof (rule release_ref_ok [where X = ?X and Y = "add_mset it Y"])
    show "refs_ok e (q_profiles ?q1) ?X (add_mset it Y)" "q_profileBytes ?q1 = table_bytes (q_profiles ?q1)"
      using acc by (simp_all add: accounts_def)
    show "ref_ok e ?d None (occ ?d ?X) (occ ?d Y)" if "map_of (q_profiles ?q1) ?d = None"
      using ref that by (auto simp: ref_ok_def)
    show "pr_bytes (dec_inFlight r) = pr_bytes r \<and> ref_ok e ?d
        (if pr_queued (dec_inFlight r) = 0 \<and> pr_inFlight (dec_inFlight r) = 0 then None else Some (dec_inFlight r))
        (occ ?d ?X) (occ ?d Y)" if "map_of (q_profiles ?q1) ?d = Some r" for r
      using ref that dec_inFlight_ref_ok by (simp add: dec_inFlight_def)
  qed auto
  have items: "queue_items ?q2 = queue_items q" by (rule queue_items_cong) simp_all
  then show "queue_items (complete_item q it) = queue_items q" by (simp add: complete_item_def)
  have "ring_ok ?q2" using ring by (rule ring_ok_cong [THEN iffD2, rotated -1]) simp_all
  moreover have "accounts e ?q2 ?X Y" using acc refs by (simp add: accounts_def)
  moreover have "in_limits ?q2" using w refs acc by (auto simp: in_limits_def totalBytesLocked_def accounts_def)
  ultimately have "queue_ok e ?q2 Y" by (simp only: queue_ok_def items)
  then show "queue_ok e (complete_item q it) Y" by (simp add: complete_item_def)
qed

lemma complete_items_ok:
  "queue_ok e q (mset items + Y) \<Longrightarrow> queue_ok e (foldl complete_item q items) Y \<and>
     queue_items (foldl complete_item q items) = queue_items q"
  by (induction items arbitrary: q) (simp_all add: complete_item_ok)

subsection \<open>Interleavings\<close>

text \<open>
  The queue with the batches its workers hold. Any operation may come next; a batch may be completed
  in any order and more than once. A failed lease has no successor.
\<close>

inductive ingress_step ::
  "bool \<Rightarrow> ModelIngressQueue \<times> ModelIngressBatch list \<Rightarrow> ModelIngressQueue \<times> ModelIngressBatch list \<Rightarrow> bool"
  for exact :: bool where
  configure: "ingress_step exact (q, out) (snd (Configure q w), out)"
| offer: "(exact \<longrightarrow> trim_space (item_digest it) = item_digest it) \<Longrightarrow>
     ingress_step exact (q, out) (snd (Offer now it q), out)"
| lease: "TakeBatch now maxItems maxBytes maxWait deadline q = (Taken (Some b), q') \<Longrightarrow>
     ingress_step exact (q, out) (q', out @ [b])"
| idle: "TakeBatch now maxItems maxBytes maxWait deadline q = (oc, q') \<Longrightarrow> oc \<in> {Taken None} \<union> range KeepWaiting \<Longrightarrow>
     ingress_step exact (q, out) (q', out)"
| complete: "CompleteBatch q b accepted failed = (q', b') \<Longrightarrow>
     ingress_step exact (q, pre @ b # post) (q', pre @ b' # post)"
| drop: "ingress_step exact (q, out) (DropOldest q, out)"
| mark: "ingress_step exact (q, out) (MarkDropped q, out)"
| look: "ingress_step exact (q, out) (snd (Snapshot now q), out)"

inductive ingress_reachable ::
  "bool \<Rightarrow> model_ingress_window \<Rightarrow> ModelIngressQueue \<times> ModelIngressBatch list \<Rightarrow> bool"
  for exact :: bool and limit :: model_ingress_window where
  start: "NewModelIngressQueueWithHardLimit (Some limit) = Inr q \<Longrightarrow> ingress_reachable exact limit (q, [])"
| step: "ingress_reachable exact limit s \<Longrightarrow> ingress_step exact s s' \<Longrightarrow> ingress_reachable exact limit s'"

definition leased :: "ModelIngressBatch list \<Rightarrow> ModelIngressItem multiset" where
  "leased out = mset (concat (map b_items (filter (\<lambda>b. \<not> b_completed b) out)))"

lemma leased_append [simp]: "leased (out @ out') = leased out + leased out'"
  by (simp add: leased_def)

lemma leased_Cons [simp]: "leased (b # out) = (if b_completed b then {#} else mset (b_items b)) + leased out"
  by (simp add: leased_def)

lemma leased_Nil [simp]: "leased [] = {#}"
  by (simp add: leased_def)

lemma NormalizeModelIngressWindow_positive:
  "NormalizeModelIngressWindow (Some w) = Inr n \<Longrightarrow> n = w \<and> 0 < win_max_items n"
  by (auto simp: NormalizeModelIngressWindow_def split: if_splits option.splits)

lemma Configure_ok:
  "queue_ok e q Y \<Longrightarrow> queue_ok e (snd (Configure q w)) Y \<and> q_hardLimit (snd (Configure q w)) = q_hardLimit q"
  by (auto simp: Configure_def Let_def signalLocked_def queue_ok_def ring_ok_def accounts_def in_limits_def
      totalBytesLocked_def queue_items_def queued_at_def [abs_def] split: sum.split)

lemma New_ok:
  assumes "NewModelIngressQueueWithHardLimit (Some limit) = Inr q"
  shows "queue_ok e q {#}" and "q_hardLimit q = limit"
proof -
  obtain n q0 where n: "NormalizeModelIngressWindow (Some limit) = Inr n"
    and q: "q = snd (Configure q0 (Some DefaultModelIngressWindow))"
    and q0: "q0 = \<lparr>q_entries = replicate (win_max_items n) None, q_head = 0, q_count = 0, q_queuedBytes = 0,
              q_inFlightItems = 0, q_inFlightBytes = 0, q_profileBytes = 0, q_profiles = [], q_desired = n,
              q_effective = n, q_hardLimit = n, q_reasons = [], q_drops = zero_drops, q_dropped = 0,
              q_notify = False\<rparr>"
    using assms by (auto simp: NewModelIngressQueueWithHardLimit_def split: sum.splits prod.splits option.splits)
  have "n = limit" "0 < win_max_items n" using NormalizeModelIngressWindow_positive [OF n] by auto
  then have "queue_ok e q0 {#}" "q_hardLimit q0 = limit"
    by (auto simp: q0 queue_ok_def ring_ok_def accounts_def in_limits_def totalBytesLocked_def queue_items_def
        refs_ok_def ref_ok_def table_bytes_def zero_drops_def total_drops_def)
  with Configure_ok [of e q0] q show "queue_ok e q {#}" "q_hardLimit q = limit" by auto
qed

lemma lease_one_hardLimit [simp]: "q_hardLimit (lease_one q r) = q_hardLimit q"
  by (simp add: lease_one_def Let_def)

lemma lease_loop_hardLimit:
  "lease_loop d maxItems maxBytes bytes items q = Some (items', q') \<Longrightarrow> q_hardLimit q' = q_hardLimit q"
proof (induction d maxItems maxBytes bytes items q rule: lease_loop.induct)
  case (1 d maxItems maxBytes bytes items q)
  then show ?case
    by (subst (asm) (2) lease_loop.simps) (auto simp: Let_def split: if_splits option.splits)
qed

lemma leaseBatch_hardLimit:
  assumes "queue_ok e q Y" and "leaseBatchLocked maxItems maxBytes q = Some (b, q')"
  shows "q_hardLimit q' = q_hardLimit q"
  using assms(2) drop_oversized_sheds [OF assms(1), of maxBytes]
  by (auto simp: leaseBatchLocked_def Let_def sheds_def dest!: lease_loop_hardLimit split: if_splits option.splits prod.splits)

lemma complete_hardLimit [simp]: "q_hardLimit (foldl complete_item q items) = q_hardLimit q"
  by (induction items arbitrary: q) (simp_all add: complete_item_def)

text \<open>A pass of \<open>TakeBatch\<close> first sheds expired items and then leases or waits.\<close>

lemma TakeBatch_cases:
  assumes "TakeBatch now maxItems maxBytes maxWait deadline q = (oc, q')"
  obtains (refused) "oc = Taken None" "q' = q"
  | (waits) d where "oc = KeepWaiting d" "q' = cleanupExpired now q"
  | (panics) "oc = TakePanics" "leaseBatchLocked maxItems maxBytes (cleanupExpired now q) = None"
  | (leases) b where "oc = Taken b" "leaseBatchLocked maxItems maxBytes (cleanupExpired now q) = Some (b, q')" "0 < maxItems"
  using assms by (auto simp: TakeBatch_def Let_def lease_outcome_def split: if_splits option.splits)

lemma TakeBatch_leases:
  assumes ok: "queue_ok e q Y" and take: "TakeBatch now maxItems maxBytes maxWait deadline q = (Taken (Some b), q')"
  shows "queue_ok e q' (Y + mset (b_items b)) \<and> \<not> b_completed b \<and> q_hardLimit q' = q_hardLimit q \<and>
    suffix (b_items b @ queue_items q') (queue_items q) \<and> b_items b \<noteq> [] \<and> length (b_items b) \<le> maxItems \<and>
    (\<forall>it \<in> set (b_items b). item_digest it = b_ProfileDigest b) \<and>
    mi_profileBytes (hd (b_items b)) + sum_list (map mi_entryBytes (b_items b)) \<le> maxBytes"
proof -
  let ?q = "cleanupExpired now q"
  have s: "sheds e Y q ?q" using ok by (rule cleanup_sheds)
  then have ok': "queue_ok e ?q Y" by (simp add: sheds_def)
  have l: "leaseBatchLocked maxItems maxBytes ?q = Some (Some b, q')" and m: "0 < maxItems"
    using take by (auto elim: TakeBatch_cases)
  have "suffix (queue_items ?q) (queue_items q)" "q_hardLimit ?q = q_hardLimit q" using s by (simp_all add: sheds_def)
  with leaseBatch_ok [OF ok' l m] leaseBatch_hardLimit [OF ok' l] show ?thesis
    using suffix_order.trans by metis
qed

lemma TakeBatch_idles:
  assumes ok: "queue_ok e q Y" and take: "TakeBatch now maxItems maxBytes maxWait deadline q = (oc, q')"
    and oc: "oc \<in> {Taken None} \<union> range KeepWaiting"
  shows "sheds e Y q q'"
  using take
proof (cases rule: TakeBatch_cases)
  case (leases b)
  have "sheds e Y q (cleanupExpired now q)" using ok by (rule cleanup_sheds)
  moreover from this have "sheds e Y (cleanupExpired now q) q'"
    using leases oc by (intro leaseBatch_none_ok) (auto simp: sheds_def)
  ultimately show ?thesis by (rule sheds_trans)
qed (use ok oc sheds_refl cleanup_sheds in auto)

lemma CompleteBatch_ok:
  assumes ok: "queue_ok e q (leased (pre @ b # post))" and c: "CompleteBatch q b accepted failed = (q', b')"
  shows "queue_ok e q' (leased (pre @ b' # post)) \<and> q_hardLimit q' = q_hardLimit q"
proof (cases "b_completed b")
  case True
  then show ?thesis using assms by (simp add: CompleteBatch_def)
next
  case False
  then have ok': "queue_ok e q (mset (b_items b) + (leased pre + leased post))"
    using ok by (simp add: ac_simps)
  obtain q1 where q': "q' = signalLocked (foldl complete_item q1 (b_items b))" and b': "b_completed b'"
    and q1: "queue_ok e q1 (mset (b_items b) + (leased pre + leased post))" "q_hardLimit q1 = q_hardLimit q"
    using False c ok' by (auto simp: CompleteBatch_def Let_def split: if_splits)
  show ?thesis
    using complete_items_ok [OF q1(1)] q1(2) by (simp add: q' b' signalLocked_def [of "foldl _ _ _"])
      (simp add: signalLocked_def [symmetric])
qed

definition system_ok :: "bool \<Rightarrow> model_ingress_window \<Rightarrow> ModelIngressQueue \<times> ModelIngressBatch list \<Rightarrow> bool" where
  "system_ok exact limit s \<longleftrightarrow> queue_ok exact (fst s) (leased (snd s)) \<and> q_hardLimit (fst s) = limit"

lemma step_ok:
  assumes "ingress_step exact s s'" and "system_ok exact limit s"
  shows "system_ok exact limit s'"
  using assms
proof (induction rule: ingress_step.induct)
  case (configure q out w)
  then show ?case using Configure_ok [of exact q "leased out" w] by (simp add: system_ok_def)
next
  case (offer it q out now)
  then show ?case using Offer_ok [of exact q "leased out" it now] by (auto simp: system_ok_def)
next
  case (lease now maxItems maxBytes maxWait deadline q b q' out)
  then show ?case using TakeBatch_leases [of exact q "leased out"] by (fastforce simp: system_ok_def)
next
  case (idle now maxItems maxBytes maxWait deadline q oc q' out)
  then show ?case using TakeBatch_idles [of exact q "leased out"] by (fastforce simp: system_ok_def sheds_def)
next
  case (complete q b accepted failed q' b' pre post)
  then show ?case using CompleteBatch_ok [of exact q pre b post] by (auto simp: system_ok_def)
next
  case (drop q out)
  then show ?case using evict_sheds [of exact q "leased out"] by (auto simp: system_ok_def DropOldest_def sheds_def)
next
  case (mark q out)
  then show ?case by (simp add: system_ok_def MarkDropped_def)
next
  case (look q out now)
  then show ?case using cleanup_sheds [of exact q "leased out" now]
    by (auto simp: system_ok_def Snapshot_def Let_def sheds_def split: prod.split)
qed

lemma reachable_ok: "ingress_reachable exact limit s \<Longrightarrow> system_ok exact limit s"
proof (induction rule: ingress_reachable.induct)
  case (start q)
  then show ?case using New_ok [OF start] by (simp add: system_ok_def)
next
  case (step s s')
  then show ?case using step_ok by blast
qed

lemma reachable_queue_ok:
  assumes "ingress_reachable exact limit (q, out)"
  shows "queue_ok exact q (leased out)" and "q_hardLimit q = limit"
  using reachable_ok [OF assms] by (simp_all add: system_ok_def)

subsection \<open>A sample queue\<close>

definition demo_limit :: model_ingress_window where
  "demo_limit = \<lparr>win_max_items = 2, win_max_retained_bytes = ModelIngressAbsoluteMinBytes,
     win_max_queue_age = Some (2 * Second)\<rparr>"

definition demo_item :: "string \<Rightarrow> ModelIngressItem" where
  "demo_item digest =
     \<lparr>mi_Profile = DefaultModelProfile, mi_headers_cap = 0,
      mi_Traffic = \<lparr>nt_SchemaVersion = NormalizedModelTrafficSchema, nt_RequestId = ''r'', nt_UnitId = ''u'', nt_AssetId = ''a'',
        nt_GenerationId = ''g'', nt_GenerationSeq = 1, nt_ModelProfileId = ''p'', nt_ModelProfileDigest = digest,
        nt_Method = ''GET'', nt_Route = ''/'', nt_Headers = \<lparr>sl_items = [], sl_cap = 0\<rparr>,
        nt_QueryParameters = \<lparr>sl_items = [], sl_cap = 0\<rparr>, nt_Body = \<lparr>sl_items = [], sl_cap = 0\<rparr>,
        nt_ContentType = [], nt_BodyLength = 0, nt_BodyTruncated = False, nt_Coverage = \<lparr>sl_items = [], sl_cap = 0\<rparr>,
        nt_OccurredAt = 0\<rparr>,
      mi_entryBytes = 0, mi_profileBytes = 0, mi_enqueuedAt = 0\<rparr>"

definition demo_queue :: ModelIngressQueue where
  "demo_queue =
     \<lparr>q_entries = [None, None], q_head = 0, q_count = 0, q_queuedBytes = 0, q_inFlightItems = 0, q_inFlightBytes = 0,
      q_profileBytes = 0, q_profiles = [], q_desired = DefaultModelIngressWindow, q_effective = demo_limit,
      q_hardLimit = demo_limit, q_reasons = [ReasonMaxItems, ReasonMaxRetainedBytes], q_drops = zero_drops,
      q_dropped = 0, q_notify = True\<rparr>"

lemmas demo_window_defs = NormalizeModelIngressWindow_def demo_limit_def DefaultModelIngressWindow_def
  ModelIngressAbsoluteMaxItems_def ModelIngressAbsoluteMinBytes_def ModelIngressAbsoluteMaxBytes_def
  ModelIngressAbsoluteMinAge_def ModelIngressAbsoluteMaxAge_def ModelIngressDefaultItems_def
  ModelIngressDefaultBytes_def ModelIngressDefaultAge_def Second_def Minute_def Millisecond_def

lemma demo_queue_new: "NewModelIngressQueueWithHardLimit (Some demo_limit) = Inr demo_queue"
  by (simp add: NewModelIngressQueueWithHardLimit_def Configure_def Let_def demo_queue_def signalLocked_def win_age_def
      demo_window_defs numeral_2_eq_2)

lemma demo_item_bytes:
  "modelIngressTrafficRetainedBytes (mi_Traffic (demo_item d)) = 283 + length d"
  "modelIngressProfileRetainedBytes (mi_Profile (demo_item d)) (mi_headers_cap (demo_item d)) \<le> 1000"
  by (simp_all add: modelIngressTrafficRetainedBytes_def modelIngressProfileRetainedBytes_def modelIngressStringBytes_def
      demo_item_def NormalizedModelTrafficSchema_def DefaultModelProfile_def)

definition demo_held :: "string \<Rightarrow> ModelIngressQueue" where
  "demo_held d = admit (stamp_item 0 (demo_item d)) (trim_space d) demo_queue"

lemma demo_digest [simp]: "item_digest (demo_item d) = d" "item_digest (stamp_item now it) = item_digest it"
  by (simp_all add: item_digest_def demo_item_def stamp_item_def)

lemma demo_offer:
  assumes "trim_space d \<noteq> []" and "length d \<le> 100"
  shows "Offer 0 (demo_item d) demo_queue = (True, demo_held d)"
proof -
  have fits: "fitsLocked demo_queue (stamp_item 0 (demo_item d)) (trim_space d)"
    using assms(2) demo_item_bytes(2) [of d]
    by (simp add: fitsLocked_def fitsWindowLocked_def demo_queue_def totalBytesLocked_def stamp_item_def
        demo_item_bytes(1) demo_window_defs)
  have small: "mi_entryBytes (stamp_item 0 (demo_item d)) + mi_profileBytes (stamp_item 0 (demo_item d))
      \<le> win_max_retained_bytes (q_effective demo_queue)"
    using assms(2) demo_item_bytes(2) [of d]
    by (simp add: demo_queue_def stamp_item_def demo_item_bytes(1) demo_window_defs)
  have "evictExpiredLocked 0 modelIngressRequestPathEvictionLimit 0 demo_queue = (0, demo_queue)"
    by (subst evictExpiredLocked.simps) (simp add: demo_queue_def)
  moreover have "make_room (stamp_item 0 (demo_item d)) (trim_space d) 0 demo_queue = demo_queue"
    using fits by (subst make_room.simps) simp
  ultimately show ?thesis
    using assms(1) small fits by (simp add: Offer_def demo_held_def)
qed

lemma demo_held_reachable:
  assumes "trim_space d \<noteq> []" and "length d \<le> 100" and "e \<longrightarrow> trim_space d = d"
  shows "ingress_reachable e demo_limit (demo_held d, [])"
  using ingress_reachable.step [OF ingress_reachable.start [OF demo_queue_new]
      ingress_step.offer [of e "demo_item d" demo_queue "[]" 0]] demo_offer [OF assms(1,2)] assms(3) by simp

lemma demo_held_items: "queue_items (demo_held d) = [stamp_item 0 (demo_item d)]"
  by (simp add: queue_items_def queued_at_def demo_held_def admit_def Let_def signalLocked_def push_def demo_queue_def
      retain_ref_def)

lemma demo_held_count: "q_count (demo_held d) = 1"
  using length_queue_items [of "demo_held d"] by (simp add: demo_held_items)

text \<open>A pass over a fresh head that fits reaches the lease loop.\<close>

lemma TakeBatch_fresh:
  assumes "0 < q_count q" and "\<not> headExpiredLocked now q" and "0 < maxItems"
    and "mi_profileBytes (front q) + mi_entryBytes (front q) \<le> maxBytes" and "0 < maxBytes"
  shows "TakeBatch now maxItems maxBytes 0 None q =
    (case lease_loop (item_digest (front q)) maxItems maxBytes (mi_profileBytes (front q)) [] q of
       None \<Rightarrow> (TakePanics, q)
     | Some (items, q') \<Rightarrow> (Taken (Some \<lparr>b_Profile = mi_Profile (front q), b_ProfileDigest = item_digest (front q),
         b_items = items, b_completed = False\<rparr>), q'))"
proof -
  have "evictExpiredLocked now modelIngressRequestPathEvictionLimit 0 q = (0, q)"
    using assms(1,2) by (subst evictExpiredLocked.simps) (simp add: headExpiredLocked_def)
  then have "cleanupExpired now q = q" using assms(2) by (subst cleanupExpired.simps) simp
  moreover have "drop_oversized maxBytes q = q" using assms(4) by (subst drop_oversized.simps) simp
  ultimately show ?thesis
    using assms by (simp add: TakeBatch_def lease_outcome_def leaseBatchLocked_def Let_def split: option.split)
qed

lemma demo_held_front: "front (demo_held d) = stamp_item 0 (demo_item d)" "q_effective (demo_held d) = demo_limit"
  by (simp_all add: front_def demo_held_def admit_def Let_def signalLocked_def push_def demo_queue_def retain_ref_def)

lemma demo_held_fits:
  "length d \<le> 100 \<Longrightarrow> mi_profileBytes (front (demo_held d)) + mi_entryBytes (front (demo_held d)) \<le> 10000"
  "\<not> headExpiredLocked 0 (demo_held d)"
  using demo_item_bytes(2) [of d]
  by (simp_all add: headExpiredLocked_def head_age_def demo_held_front stamp_item_def demo_item_bytes(1)
      win_age_def demo_limit_def Second_def Millisecond_def)

subsection \<open>Properties\<close>





text \<open>
  C21: while every offered digest is free of surrounding blanks, the profile table holds exactly the
  digests of queued and leased items, with exact reference counts, and no call to \<open>TakeBatch\<close>
  dereferences a missing profile.
\<close>

theorem ingress_references_exact:
  assumes "ingress_reachable True limit (q, out)"
  shows "fst (TakeBatch now maxItems maxBytes maxWait deadline q) \<noteq> TakePanics \<and>
    dom (map_of (q_profiles q)) = item_digest ` (set (queue_items q) \<union> set_mset (leased out)) \<and>
    (\<forall>d ref. map_of (q_profiles q) d = Some ref \<longrightarrow>
       pr_queued ref = occ d (mset (queue_items q)) \<and> pr_inFlight ref = occ d (leased out))"
proof -
  have ok: "queue_ok True q (leased out)" using reachable_queue_ok [OF assms] by simp
  have occ0: "occ d M = 0 \<longleftrightarrow> d \<notin> item_digest ` set_mset M" for d M
    by (induction M) auto
  have ref: "ref_ok True d (map_of (q_profiles q) d) (occ d (mset (queue_items q))) (occ d (leased out))" for d
    using ok by (auto simp: queue_ok_def accounts_ref)
  have "d \<in> dom (map_of (q_profiles q)) \<longleftrightarrow> d \<in> item_digest ` (set (queue_items q) \<union> set_mset (leased out))" for d
    using ref [of d] occ0 [of d "mset (queue_items q)"] occ0 [of d "leased out"]
    by (auto simp: ref_ok_def image_Un split: option.split_asm)
  moreover have "leaseBatchLocked maxItems maxBytes (cleanupExpired now q) \<noteq> None"
    using cleanup_sheds [OF ok, of now] by (intro leaseBatch_returns [where Y = "leased out"]) (simp add: sheds_def)
  then have "fst (TakeBatch now maxItems maxBytes maxWait deadline q) \<noteq> TakePanics"
    using TakeBatch_cases [of now maxItems maxBytes maxWait deadline q] by (metis prod.collapse take_outcome.distinct(1,3))
  ultimately show ?thesis using ref by (fastforce simp: ref_ok_def split: option.split_asm)
qed

theorem ingress_references_exact_witness:
  "fst (TakeBatch 0 1 10000 0 None (demo_held ''d'')) \<noteq> TakePanics \<and> dom (map_of (q_profiles (demo_held ''d''))) = {''d''}"
proof -
  have "ingress_reachable True demo_limit (demo_held ''d'', [])"
    by (rule demo_held_reachable) (simp_all add: trim_space_def is_space_def)
  from ingress_references_exact [OF this] show ?thesis by (simp add: demo_held_items)
qed

text \<open>
  C38: \<open>Offer\<close> counts a profile under its trimmed digest while leasing looks it up untrimmed. In every
  reachable state whose oldest item carries a digest with surrounding blanks, taking that item
  dereferences a missing profile.
\<close>

theorem untrimmed_digest_panics:
  assumes "ingress_reachable False limit (q, out)" and "0 < q_count q"
    and "trim_space (item_digest (front q)) \<noteq> item_digest (front q)" and "\<not> headExpiredLocked now q"
    and "mi_profileBytes (front q) + mi_entryBytes (front q) \<le> maxBytes" and "0 < maxItems" and "0 < maxBytes"
  shows "fst (TakeBatch now maxItems maxBytes 0 None q) = TakePanics"
proof -
  have "ref_ok False d (map_of (q_profiles q) d) (occ d (mset (queue_items q))) (occ d (leased out))" for d
    using reachable_queue_ok(1) [OF assms(1)] by (auto simp: queue_ok_def accounts_ref)
  from this [of "item_digest (front q)"] have "map_of (q_profiles q) (item_digest (front q)) = None"
    using assms(3) by (auto simp: ref_ok_def split: option.split_asm)
  then have "lease_loop (item_digest (front q)) maxItems maxBytes (mi_profileBytes (front q)) [] q = None"
    using assms(2,6) by (subst lease_loop.simps) simp
  then show ?thesis using TakeBatch_fresh [OF assms(2,4,6,5,7)] by simp
qed

theorem untrimmed_digest_panics_witness:
  "Offer 0 (demo_item '' d'') demo_queue = (True, demo_held '' d'') \<and>
   fst (TakeBatch 0 1 10000 0 None (demo_held '' d'')) = TakePanics"
proof -
  have t: "trim_space '' d'' = ''d''" by (simp add: trim_space_def is_space_def)
  have r: "ingress_reachable False demo_limit (demo_held '' d'', [])"
    by (rule demo_held_reachable) (simp_all add: t)
  have "fst (TakeBatch 0 1 10000 0 None (demo_held '' d'')) = TakePanics"
    using demo_held_fits [of "'' d''"]
    by (intro untrimmed_digest_panics [OF r]) (simp_all add: demo_held_count demo_held_front t)
  then show ?thesis using demo_offer [of "'' d''"] by (simp add: t)
qed

end
