(* ===== verification/Audit_Ledger.thy ===== *)
theory Audit_Ledger
  imports Signer
begin

text \<open>
  The audit ledger of the brain (\<^verbatim>\<open>src/lib/brain/audit.go\<close>): appending a record to the hash chain,
  recomputing a range of it, reading its head and writing signed checkpoints. The table
  \<open>audit_entries\<close> is the list of its rows by ascending sequence; the identity column supplies the
  sequence, and the advisory lock makes an append one step. PostgreSQL's rendering of a stored
  \<open>jsonb\<close> value, JSON encoding and RFC 3339 formatting are parameters.
\<close>

record auditCoordinates =
  co_RunID :: string
  co_TurnID :: string
  co_LeaseEpoch :: int
  co_BudgetID :: string
  co_PayloadDigest :: string

record audit_entry =
  ae_sequence :: int
  ae_occurred_at :: instant
  ae_actor_type :: string
  ae_actor_id :: string
  ae_action :: string
  ae_object_type :: string
  ae_object_id :: string
  ae_details :: string
  ae_previous_hash :: string
  ae_entry_hash :: string
  ae_schema_version :: string
  ae_coordinates :: auditCoordinates

record auditlib = signlib +
  rfc3339_nano :: "instant \<Rightarrow> string"
  marshal_json :: "json \<Rightarrow> string"
  jsonb_text :: "string \<Rightarrow> string"

datatype audit_error =
    NoEntriesInRange | CheckpointSignerRequired | CheckpointPathRequired | CheckpointFailed kernel_error
  | EmptyCheckpointHash | CheckpointTooLong | CheckpointNumber | CheckpointRecordInvalid | CheckpointEmpty
  | AuditChainBreak | SignedCheckpointInvalid

definition auditSchemaVersion :: string where "auditSchemaVersion = ''audit/v2''"

definition no_coordinates :: auditCoordinates where
  "no_coordinates = \<lparr>co_RunID = [], co_TurnID = [], co_LeaseEpoch = 0, co_BudgetID = [], co_PayloadDigest = []\<rparr>"

subsection \<open>Hashing\<close>

text \<open>Decoding into \<open>any\<close> and encoding again; undecodable text counts as null.\<close>

definition canonical_details :: "'a auditlib_scheme \<Rightarrow> string \<Rightarrow> string" where
  "canonical_details P details = marshal_json P (case json_unmarshal P details of None \<Rightarrow> JNull | Some v \<Rightarrow> v)"

definition hash_v1_fields :: "'a auditlib_scheme \<Rightarrow> audit_entry \<Rightarrow> string list" where
  "hash_v1_fields P e =
     [rfc3339_nano P (ae_occurred_at e), ae_actor_type e, ae_actor_id e, ae_action e, ae_object_type e, ae_object_id e,
      canonical_details P (ae_details e), ae_previous_hash e]"

definition auditEntryHash :: "'a auditlib_scheme \<Rightarrow> audit_entry \<Rightarrow> string" where
  "auditEntryHash P e = hex_encode (sha256 P (join_with [CHR 0x0A] (hash_v1_fields P e)))"

definition hash_v2_fields :: "'a auditlib_scheme \<Rightarrow> audit_entry \<Rightarrow> string list" where
  "hash_v2_fields P e =
     (let c = ae_coordinates e in
      [auditSchemaVersion, rfc3339_nano P (ae_occurred_at e), ae_actor_type e, ae_actor_id e, ae_action e, ae_object_type e,
       ae_object_id e, co_RunID c, co_TurnID c, itoa (co_LeaseEpoch c), co_BudgetID c, co_PayloadDigest c,
       canonical_details P (ae_details e), ae_previous_hash e])"

definition auditEntryHashV2 :: "'a auditlib_scheme \<Rightarrow> audit_entry \<Rightarrow> string" where
  "auditEntryHashV2 P e = hex_encode (sha256 P (join_with [CHR 0x0A] (hash_v2_fields P e)))"

definition auditPayloadDigest :: "'a golib_scheme \<Rightarrow> string \<Rightarrow> string" where
  "auditPayloadDigest P raw =
     (let value = trim_space raw in
      if length value = length ''sha256:'' + 64 \<and> has_prefix value ''sha256:'' \<and>
         list_all (\<lambda>c. c \<in> set ''0123456789abcdefABCDEF'') (trim_prefix value ''sha256:'') then value
      else if value = [] then []
      else ''sha256:'' @ hex_encode (sha256 P value))"

subsection \<open>Appending\<close>

definition latest_hash :: "audit_entry list \<Rightarrow> string" where
  "latest_hash entries = (if entries = [] then [] else ae_entry_hash (last entries))"

definition appendAuditRecordTx ::
  "'a auditlib_scheme \<Rightarrow> int \<Rightarrow> instant \<Rightarrow> string \<Rightarrow> string \<Rightarrow> string \<Rightarrow> string \<Rightarrow> string \<Rightarrow> auditCoordinates \<Rightarrow> json \<Rightarrow>
   audit_entry list \<Rightarrow> audit_entry list" where
  "appendAuditRecordTx P seq now actorType actorID action objectType objectID coordinates details entries =
     (let prev = latest_hash entries;
          occurred = now - now mod 1000;
          detailJSON = marshal_json P details;
          e = \<lparr>ae_sequence = seq, ae_occurred_at = occurred, ae_actor_type = actorType, ae_actor_id = actorID, ae_action = action,
               ae_object_type = objectType, ae_object_id = objectID, ae_details = detailJSON, ae_previous_hash = prev,
               ae_entry_hash = [], ae_schema_version = auditSchemaVersion, ae_coordinates = coordinates\<rparr>;
          stored = e\<lparr>ae_details := jsonb_text P detailJSON, ae_entry_hash := auditEntryHashV2 P e\<rparr> in
      entries @ [stored])"

definition appendAuditTx ::
  "'a auditlib_scheme \<Rightarrow> int \<Rightarrow> instant \<Rightarrow> string \<Rightarrow> string \<Rightarrow> string \<Rightarrow> string \<Rightarrow> string \<Rightarrow> json \<Rightarrow>
   audit_entry list \<Rightarrow> audit_entry list" where
  "appendAuditTx P seq now actorType actorID action objectType objectID details entries =
     appendAuditRecordTx P seq now actorType actorID action objectType objectID no_coordinates details entries"

definition appendAgentAuditTx ::
  "'a auditlib_scheme \<Rightarrow> int \<Rightarrow> instant \<Rightarrow> string \<Rightarrow> string \<Rightarrow> string \<Rightarrow> string \<Rightarrow> string \<Rightarrow> auditCoordinates \<Rightarrow> json \<Rightarrow>
   audit_entry list \<Rightarrow> audit_entry list" where
  "appendAgentAuditTx P seq now actorType actorID action objectType objectID coordinates details entries =
     appendAuditRecordTx P seq now actorType actorID action objectType objectID coordinates details entries"

subsection \<open>Verifying a range\<close>

record anchor =
  an_partition :: string
  an_first_sequence :: int
  an_last_sequence :: int
  an_previous_hash :: string
  an_last_hash :: string
  an_checkpoint_signature :: bytes

record VerifyChainResponse =
  vc_Valid :: bool
  vc_StartHash :: string
  vc_EndHash :: string
  vc_EntriesChecked :: int

definition newest_anchor :: "anchor list \<Rightarrow> anchor option" where
  "newest_anchor anchors =
     (case anchors of [] \<Rightarrow> None
      | a # rest \<Rightarrow> Some (foldl (\<lambda>b c. if an_last_sequence c > an_last_sequence b then c else b) a rest))"

text \<open>The hash the chain should continue from: the newest row, else the newest anchor, before the start.\<close>

definition range_start_hash :: "anchor list \<Rightarrow> audit_entry list \<Rightarrow> int \<Rightarrow> string" where
  "range_start_hash anchors entries start =
     (let before = filter (\<lambda>e. ae_sequence e < start) entries in
      if before \<noteq> [] then ae_entry_hash (last before)
      else case newest_anchor (filter (\<lambda>a. an_last_sequence a < start) anchors) of
        None \<Rightarrow> []
      | Some a \<Rightarrow> an_last_hash a)"

definition expected_hash :: "'a auditlib_scheme \<Rightarrow> audit_entry \<Rightarrow> string" where
  "expected_hash P e = (if ae_schema_version e = auditSchemaVersion then auditEntryHashV2 P e else auditEntryHash P e)"

definition check_row :: "'a auditlib_scheme \<Rightarrow> bool \<times> string \<times> string \<times> int \<Rightarrow> audit_entry \<Rightarrow> bool \<times> string \<times> string \<times> int" where
  "check_row P st e =
     (case st of (valid, startHash, prev, checked) \<Rightarrow>
        (valid \<and> ae_previous_hash e = prev \<and> expected_hash P e = ae_entry_hash e,
         (if checked = 0 then ae_entry_hash e else startHash), ae_entry_hash e, to_int32 (checked + 1)))"

definition verifyAuditRange ::
  "'a auditlib_scheme \<Rightarrow> anchor list \<Rightarrow> audit_entry list \<Rightarrow> int \<Rightarrow> int \<Rightarrow> audit_error + VerifyChainResponse" where
  "verifyAuditRange P anchors entries start stop =
     (let rows = filter (\<lambda>e. start \<le> ae_sequence e \<and> ae_sequence e \<le> stop) entries in
      case foldl (check_row P) (True, [], range_start_hash anchors entries start, 0) rows of
        (valid, startHash, prev, checked) \<Rightarrow>
          if checked = 0 then Inl NoEntriesInRange
          else Inr \<lparr>vc_Valid = valid, vc_StartHash = startHash, vc_EndHash = prev, vc_EntriesChecked = checked\<rparr>)"

subsection \<open>Checkpoints\<close>

definition LatestAuditHead :: "audit_entry list \<Rightarrow> int \<times> string" where
  "LatestAuditHead entries =
     (if entries = [] then (0, []) else (ae_sequence (last entries), ae_entry_hash (last entries)))"

text \<open>The checkpoint file is its text. A record is a line; a line of 64 KiB or more stops the scanner.\<close>

definition WriteAuditCheckpoint :: "string \<Rightarrow> int \<Rightarrow> string \<Rightarrow> audit_error option \<times> string" where
  "WriteAuditCheckpoint file seq head =
     (if trim_space head = [] then (Some EmptyCheckpointHash, file)
      else (None, file @ itoa seq @ '' '' @ head @ [CHR 0x0A]))"

definition scan_lines :: "string \<Rightarrow> string list" where
  "scan_lines file =
     (let ls = split_on (CHR 0x0A) file in
      map (\<lambda>l. trim_suffix l [CHR 0x0D]) (if last ls = [] then butlast ls else ls))"

definition split_fields :: "string \<Rightarrow> string list" where
  "split_fields s = filter (\<lambda>f. f \<noteq> []) (split_on (CHR '' '') (map (\<lambda>c. if is_space c then CHR '' '' else c) s))"

fun checkpoint_records :: "int \<times> string \<Rightarrow> string list \<Rightarrow> audit_error + int \<times> string" where
  "checkpoint_records latest [] = Inr latest"
| "checkpoint_records latest (l # ls) =
     (if length l \<ge> 65536 then Inl CheckpointTooLong
      else if trim_space l = [] then checkpoint_records latest ls
      else case split_fields (trim_space l) of
        [seq, head] \<Rightarrow>
          (case atoi seq of None \<Rightarrow> Inl CheckpointNumber | Some n \<Rightarrow> checkpoint_records (n, head) ls)
      | _ \<Rightarrow> Inl CheckpointRecordInvalid)"

definition VerifyAuditCheckpoint :: "string \<Rightarrow> int \<Rightarrow> string \<Rightarrow> audit_error option" where
  "VerifyAuditCheckpoint file seq head =
     (case checkpoint_records (0, []) (scan_lines file) of
        Inl e \<Rightarrow> Some e
      | Inr (lastSeq, lastHead) \<Rightarrow>
          if lastHead = [] then Some CheckpointEmpty
          else if lastSeq \<noteq> seq \<or> lastHead \<noteq> head then Some AuditChainBreak
          else None)"

definition WriteSignedAuditCheckpoint ::
  "'a signlib_scheme \<Rightarrow> string \<Rightarrow> audit_checkpoint option \<Rightarrow> audit_error option \<times> string" where
  "WriteSignedAuditCheckpoint P file arg =
     (case arg of
        None \<Rightarrow> (Some SignedCheckpointInvalid, file)
      | Some c \<Rightarrow>
          if length (cp_signature c) \<noteq> 64 \<or> cp_key_id c = [] then (Some SignedCheckpointInvalid, file)
          else case encode_checkpoint P c of
            None \<Rightarrow> (Some (CheckpointFailed MarshalFailed), file)
          | Some raw \<Rightarrow> (None, file @ raw @ [CHR 0x0A]))"

definition sign_and_write ::
  "'a signlib_scheme \<Rightarrow> network \<Rightarrow> instant \<Rightarrow> int \<Rightarrow> string \<Rightarrow> signer \<Rightarrow> string \<Rightarrow> audit_error option \<times> bytes \<times> string" where
  "sign_and_write P net now seq head signer file =
     (case SignAuditCheckpointWithSigner P net now
             (Some \<lparr>cp_sequence = seq, cp_head = head, cp_created_at = Some now, cp_key_id = [], cp_signature = []\<rparr>) (Some signer) of
        (Some e, _) \<Rightarrow> (Some (CheckpointFailed e), [], file)
      | (None, c) \<Rightarrow>
          (let (err, file') = WriteSignedAuditCheckpoint P file c in
           (err, (case c of None \<Rightarrow> [] | Some c \<Rightarrow> cp_signature c), file')))"

definition appendAuditCheckpointFile ::
  "'a signlib_scheme \<Rightarrow> network \<Rightarrow> instant \<Rightarrow> string \<Rightarrow> signer option \<Rightarrow> audit_entry list \<Rightarrow> string \<Rightarrow> audit_error option \<times> string" where
  "appendAuditCheckpointFile P net now path signer entries file =
     (if trim_space path = [] then (Some CheckpointPathRequired, file)
      else let (seq, head) = LatestAuditHead entries in
        if head = [] then (None, file)
        else case signer of
          None \<Rightarrow> WriteAuditCheckpoint file seq head
        | Some s \<Rightarrow> (let (err, _, file') = sign_and_write P net now seq head s file in (err, file')))"

definition AppendSignedAuditCheckpointFile ::
  "'a signlib_scheme \<Rightarrow> network \<Rightarrow> instant \<Rightarrow> string \<Rightarrow> signer option \<Rightarrow> audit_entry list \<Rightarrow> string \<Rightarrow> audit_error option \<times> string" where
  "AppendSignedAuditCheckpointFile P net now path signer entries file =
     (if signer = None then (Some CheckpointSignerRequired, file)
      else appendAuditCheckpointFile P net now path signer entries file)"

subsection \<open>Retention\<close>

text \<open>
  Dropping one monthly partition (\<^verbatim>\<open>src/lib/brain/ledger_maintenance.go\<close>): its rows are those of the
  half-open time range \<open>lo\<close>, \<open>hi\<close>. A signed checkpoint is written and an anchor stored first.
\<close>

record ledger =
  led_entries :: "audit_entry list"
  led_anchors :: "anchor list"
  led_file :: string

definition put_anchor :: "anchor \<Rightarrow> anchor list \<Rightarrow> anchor list" where
  "put_anchor a anchors = filter (\<lambda>b. an_partition b \<noteq> an_partition a) anchors @ [a]"

definition checkpointAndDropAuditPartition ::
  "'a signlib_scheme \<Rightarrow> network \<Rightarrow> instant \<Rightarrow> signer \<Rightarrow> string \<Rightarrow> instant \<Rightarrow> instant \<Rightarrow> ledger \<Rightarrow>
   (audit_error + nat) \<times> ledger" where
  "checkpointAndDropAuditPartition P net now signer name lo hi L =
     (let inside = (\<lambda>e. lo \<le> ae_occurred_at e \<and> ae_occurred_at e < hi); rows = filter inside (led_entries L) in
      if rows = [] then (Inr 0, L)
      else let last_row = last rows in
        case sign_and_write P net now (ae_sequence last_row) (ae_entry_hash last_row) signer (led_file L) of
          (Some e, _, file) \<Rightarrow> (Inl e, L\<lparr>led_file := file\<rparr>)
        | (None, sig, file) \<Rightarrow>
            (Inr (length rows),
             L\<lparr>led_entries := filter (\<lambda>e. \<not> inside e) (led_entries L),
               led_anchors := put_anchor \<lparr>an_partition = name, an_first_sequence = ae_sequence (hd rows),
                 an_last_sequence = ae_sequence last_row, an_previous_hash = ae_previous_hash (hd rows),
                 an_last_hash = ae_entry_hash last_row, an_checkpoint_signature = sig\<rparr> (led_anchors L),
               led_file := file\<rparr>))"

end
