(* ===== verification/Saga.thy ===== *)
theory Saga
  imports Audit_Ledger
begin

text \<open>
  The durable saga of a run, brain side (\<^verbatim>\<open>src/lib/brain/agent_run_saga.go\<close>) with its wire mapping
  (\<^verbatim>\<open>src/agents/runtime/saga_proto.go\<close>) and the saga part of cancelling a run
  (\<^verbatim>\<open>src/lib/brain/agent_run.go\<close>). The rows of one run in \<open>run_sagas\<close> and \<open>run_saga_steps\<close> are a record;
  a transaction is a function that returns an error and leaves the record, or returns the new one.
  The audit entry each change appends is part of the record.
\<close>

subsection \<open>Policies, phases and rows\<close>

datatype ReplayPolicy = ReplaySafe | ReplayIdempotent | ReplayNever | ReplayOther string

datatype SagaPhase =
    PhaseNone | PhaseActionIntent | PhaseActionEffect | PhaseActionSucceeded | PhaseActionFailed
  | PhaseCompensationIntent | PhaseCompensationEffect | PhaseCompensated | PhaseCompensationFailed | PhaseOutcomeUnknown

datatype action_phase = APending | AIntent | AEffect | ASucceeded | AFailed | AUnknown

datatype comp_phase = CPending | CIntent | CEffect | CCompensated | CFailed | CUnknown

datatype saga_state = SPending | SRunning | SCompensating | SCancelling | SReady | SCompensated | SUnknown

record SagaStepPlan =
  sp_Sequence :: int
  sp_StepKey :: string
  sp_ActionReplay :: ReplayPolicy
  sp_HasCompensation :: bool
  sp_CompensationReplay :: ReplayPolicy

record SagaPlan =
  pl_SchemaVersion :: string
  pl_Steps :: "SagaStepPlan list"
  pl_PlanDigest :: string

record SagaReceipt =
  rc_Sequence :: int
  rc_StepKey :: string
  rc_Phase :: SagaPhase
  rc_GuardDigest :: string
  rc_ReceiptRef :: string
  rc_Error :: string

record saga_row =
  row_plan :: SagaStepPlan
  row_action :: action_phase
  row_comp :: comp_phase
  row_guard :: string
  row_action_receipt :: string
  row_comp_receipt :: string
  row_error :: string
  row_effect_started :: bool

record run_saga =
  sg_state :: saga_state
  sg_plan_digest :: string
  sg_cancel_requested :: bool
  sg_cause :: string
  sg_rows :: "saga_row list"
  sg_audit :: "audit_entry list"

record sagalib = auditlib +
  marshal_saga :: "string \<Rightarrow> SagaStepPlan list \<Rightarrow> bytes"

text \<open>What the brain knows about the run when it writes an audit entry: coordinates and worker.\<close>

record run_context =
  rx_run_id :: string
  rx_coordinates :: auditCoordinates
  rx_worker_id :: string
  rx_seq :: int
  rx_now :: instant

datatype saga_error =
    PlanInvalid | PlanSteps | PlanReplay | PlanDigestMismatch | PlanRebound
  | ReceiptInvalid | ReceiptTooLarge | PlanNotBound | StepNotInPlan | StepKeyMismatch | GuardChanged
  | InvalidTransition | SagaNotReady | SagaNotSettled saga_state

definition runSagaSchemaVersion :: string where "runSagaSchemaVersion = ''run-saga/v1''"

definition runSagaPlanDigest :: "'a sagalib_scheme \<Rightarrow> SagaPlan \<Rightarrow> string" where
  "runSagaPlanDigest P plan = ''sha256:'' @ hex_encode (sha256 P (marshal_saga P (pl_SchemaVersion plan) (pl_Steps plan)))"

text \<open>\<open>replayName\<close>: only the three policies have a name.\<close>

fun replayName :: "ReplayPolicy \<Rightarrow> string" where
  "replayName ReplaySafe = ''safe''"
| "replayName ReplayIdempotent = ''idempotent''"
| "replayName ReplayNever = ''never_replay''"
| "replayName (ReplayOther s) = []"

text \<open>Stored phases as the executor sees them; a pending phase maps to the empty one.\<close>

fun action_phaseProto :: "action_phase \<Rightarrow> SagaPhase" where
  "action_phaseProto APending = PhaseNone"
| "action_phaseProto AIntent = PhaseActionIntent"
| "action_phaseProto AEffect = PhaseActionEffect"
| "action_phaseProto ASucceeded = PhaseActionSucceeded"
| "action_phaseProto AFailed = PhaseActionFailed"
| "action_phaseProto AUnknown = PhaseOutcomeUnknown"

fun comp_phaseProto :: "comp_phase \<Rightarrow> SagaPhase" where
  "comp_phaseProto CPending = PhaseNone"
| "comp_phaseProto CIntent = PhaseCompensationIntent"
| "comp_phaseProto CEffect = PhaseCompensationEffect"
| "comp_phaseProto CCompensated = PhaseCompensated"
| "comp_phaseProto CFailed = PhaseCompensationFailed"
| "comp_phaseProto CUnknown = PhaseOutcomeUnknown"

fun currentPhaseMatches :: "SagaPhase \<Rightarrow> action_phase \<Rightarrow> comp_phase \<Rightarrow> bool" where
  "currentPhaseMatches PhaseActionIntent a c = (a = AIntent)"
| "currentPhaseMatches PhaseActionEffect a c = (a = AEffect)"
| "currentPhaseMatches PhaseActionSucceeded a c = (a = ASucceeded)"
| "currentPhaseMatches PhaseActionFailed a c = (a = AFailed)"
| "currentPhaseMatches PhaseCompensationIntent a c = (c = CIntent)"
| "currentPhaseMatches PhaseCompensationEffect a c = (c = CEffect)"
| "currentPhaseMatches PhaseCompensated a c = (c = CCompensated)"
| "currentPhaseMatches PhaseCompensationFailed a c = (c = CFailed)"
| "currentPhaseMatches PhaseOutcomeUnknown a c = (a = AUnknown \<or> c = CUnknown)"
| "currentPhaseMatches PhaseNone a c = False"

subsection \<open>Binding a plan\<close>

definition appendRunSagaAudit ::
  "'a sagalib_scheme \<Rightarrow> run_context \<Rightarrow> string \<Rightarrow> string \<Rightarrow> json \<Rightarrow> run_saga \<Rightarrow> run_saga" where
  "appendRunSagaAudit P X kind payloadDigest details S =
     (let coordinates = (rx_coordinates X)\<lparr>co_PayloadDigest := auditPayloadDigest P payloadDigest\<rparr>;
          workerID = (if rx_worker_id X = [] then ''brain'' else rx_worker_id X) in
      S\<lparr>sg_audit := appendAgentAuditTx P (rx_seq X) (rx_now X) ''worker'' workerID (''run.'' @ kind) ''run'' (rx_run_id X)
          coordinates details (sg_audit S)\<rparr>)"

definition fresh_row :: "SagaStepPlan \<Rightarrow> saga_row" where
  "fresh_row p = \<lparr>row_plan = p, row_action = APending, row_comp = CPending, row_guard = [], row_action_receipt = [],
     row_comp_receipt = [], row_error = [], row_effect_started = False\<rparr>"

fun plan_steps_error :: "nat \<Rightarrow> string list \<Rightarrow> SagaStepPlan list \<Rightarrow> saga_error option" where
  "plan_steps_error i seen [] = None"
| "plan_steps_error i seen (p # ps) =
     (if sp_Sequence p \<noteq> int (i + 1) \<or> trim_space (sp_StepKey p) = [] \<or> length (sp_StepKey p) > 128 \<or> sp_StepKey p \<in> set seen
      then Some PlanSteps
      else if replayName (sp_ActionReplay p) = [] \<or> replayName (sp_CompensationReplay p) = [] then Some PlanReplay
      else plan_steps_error (i + 1) (sp_StepKey p # seen) ps)"

definition bindRunSaga :: "'a sagalib_scheme \<Rightarrow> run_context \<Rightarrow> SagaPlan \<Rightarrow> run_saga \<Rightarrow> saga_error + run_saga" where
  "bindRunSaga P X plan S =
     (if pl_SchemaVersion plan \<noteq> runSagaSchemaVersion \<or> pl_Steps plan = [] \<or> length (pl_Steps plan) > 128 then Inl PlanInvalid
      else case plan_steps_error 0 [] (pl_Steps plan) of
        Some e \<Rightarrow> Inl e
      | None \<Rightarrow>
          (let digest = runSagaPlanDigest P plan in
           if pl_PlanDigest plan \<noteq> digest then Inl PlanDigestMismatch
           else if sg_plan_digest S \<noteq> [] \<and> sg_plan_digest S \<noteq> digest then Inl PlanRebound
           else if sg_plan_digest S = [] then
             Inr (appendRunSagaAudit P X ''saga_plan_bound'' digest
               (JObj [(''plan_digest'', JStr digest), (''step_count'', JNum (itoa (int (length (pl_Steps plan)))))])
               (S\<lparr>sg_rows := map fresh_row (pl_Steps plan), sg_plan_digest := digest, sg_state := SRunning\<rparr>))
           else Inr S))"

subsection \<open>Recording a receipt\<close>

definition never :: "ReplayPolicy \<Rightarrow> bool" where "never r \<longleftrightarrow> r = ReplayNever"

text \<open>The transition table: the next action and compensation phase, or none.\<close>

definition saga_transition :: "SagaPhase \<Rightarrow> saga_row \<Rightarrow> (action_phase \<times> comp_phase) option" where
  "saga_transition phase row =
     (let a = row_action row; c = row_comp row; ar = sp_ActionReplay (row_plan row); cr = sp_CompensationReplay (row_plan row) in
      case phase of
        PhaseActionIntent \<Rightarrow> if a \<noteq> APending then None else Some (AIntent, c)
      | PhaseActionEffect \<Rightarrow> if a \<noteq> AIntent \<and> (a \<noteq> AEffect \<or> never ar) then None else Some (AEffect, c)
      | PhaseActionSucceeded \<Rightarrow> if a \<noteq> AEffect then None else Some (ASucceeded, c)
      | PhaseActionFailed \<Rightarrow> if a \<noteq> AIntent \<and> a \<noteq> AEffect then None else Some (AFailed, c)
      | PhaseCompensationIntent \<Rightarrow>
          if \<not> sp_HasCompensation (row_plan row) \<or> \<not> row_effect_started row \<or> (a \<noteq> AEffect \<and> a \<noteq> ASucceeded \<and> a \<noteq> AFailed) then None
          else if c \<noteq> CPending \<and> (c \<noteq> CFailed \<or> never cr) then None
          else Some (a, CIntent)
      | PhaseCompensationEffect \<Rightarrow> if c \<noteq> CIntent \<and> (c \<noteq> CEffect \<or> never cr) then None else Some (a, CEffect)
      | PhaseCompensated \<Rightarrow> if c \<noteq> CEffect then None else Some (a, CCompensated)
      | PhaseCompensationFailed \<Rightarrow> if c \<noteq> CEffect then None else Some (a, CFailed)
      | PhaseOutcomeUnknown \<Rightarrow>
          if (a \<noteq> AEffect \<or> \<not> never ar) \<and> (c \<noteq> CEffect \<and> c \<noteq> CFailed \<or> \<not> never cr) then None
          else if c = CEffect \<or> c = CFailed then Some (a, CUnknown)
          else Some (AUnknown, c)
      | PhaseNone \<Rightarrow> None)"

definition needs_compensation :: "saga_row \<Rightarrow> bool" where
  "needs_compensation r \<longleftrightarrow> sp_HasCompensation (row_plan r) \<and> row_effect_started r"

definition refreshRunSagaState :: "bool \<Rightarrow> string \<Rightarrow> run_saga \<Rightarrow> run_saga" where
  "refreshRunSagaState cancelRequested cause S =
     (let rows = sg_rows S;
          allSucceeded = list_all (\<lambda>r. row_action r = ASucceeded) rows;
          failed = list_ex (\<lambda>r. row_action r = AFailed) rows;
          needed = list_ex needs_compensation rows;
          complete = list_all (\<lambda>r. needs_compensation r \<longrightarrow> row_comp r = CCompensated) rows;
          state = (if cancelRequested \<and> (\<not> needed \<or> complete) then SCompensated
                   else if cancelRequested then SCancelling
                   else if failed \<and> (\<not> needed \<or> complete) then SCompensated
                   else if failed then SCompensating
                   else if allSucceeded then SReady
                   else SRunning) in
      S\<lparr>sg_state := state, sg_cause := (if cause \<noteq> [] then cause else sg_cause S)\<rparr>)"

definition apply_receipt :: "SagaReceipt \<Rightarrow> action_phase \<times> comp_phase \<Rightarrow> saga_row \<Rightarrow> saga_row" where
  "apply_receipt rc ac row =
     row\<lparr>row_action := fst ac, row_comp := snd ac,
       row_guard := (if row_guard row = [] then rc_GuardDigest rc else row_guard row),
       row_action_receipt := (if rc_Phase rc = PhaseActionSucceeded \<and> rc_ReceiptRef rc \<noteq> [] then rc_ReceiptRef rc else row_action_receipt row),
       row_comp_receipt := (if rc_Phase rc = PhaseCompensated \<and> rc_ReceiptRef rc \<noteq> [] then rc_ReceiptRef rc else row_comp_receipt row),
       row_error := (if rc_Error rc \<noteq> [] then rc_Error rc else row_error row),
       row_effect_started := (row_effect_started row \<or> rc_Phase rc = PhaseActionEffect)\<rparr>"

fun phase_name :: "SagaPhase \<Rightarrow> string" where
  "phase_name PhaseNone = ''unspecified''"
| "phase_name PhaseActionIntent = ''action_intent_recorded''"
| "phase_name PhaseActionEffect = ''action_effect_started''"
| "phase_name PhaseActionSucceeded = ''action_succeeded''"
| "phase_name PhaseActionFailed = ''action_failed''"
| "phase_name PhaseCompensationIntent = ''compensation_intent_recorded''"
| "phase_name PhaseCompensationEffect = ''compensation_effect_started''"
| "phase_name PhaseCompensated = ''compensated''"
| "phase_name PhaseCompensationFailed = ''compensation_failed''"
| "phase_name PhaseOutcomeUnknown = ''outcome_unknown''"

definition receipt_audit :: "'a sagalib_scheme \<Rightarrow> run_context \<Rightarrow> SagaReceipt \<Rightarrow> string \<Rightarrow> run_saga \<Rightarrow> run_saga" where
  "receipt_audit P X rc stepKey S =
     (let receiptDigest = auditPayloadDigest P (rc_ReceiptRef rc);
          errorDigest = auditPayloadDigest P (rc_Error rc);
          guardDigest = auditPayloadDigest P (rc_GuardDigest rc);
          name = phase_name (rc_Phase rc);
          payload = (if receiptDigest \<noteq> [] then receiptDigest else if errorDigest \<noteq> [] then errorDigest else guardDigest) in
      appendRunSagaAudit P X (''run_step_phase_'' @ name) payload
        (JObj [(''step_sequence'', JNum (itoa (rc_Sequence rc))), (''step_key_digest'', JStr (auditPayloadDigest P stepKey)),
          (''phase'', JStr (to_upper (''run_step_phase_'' @ name))), (''guard_digest'', JStr guardDigest),
          (''receipt_digest'', JStr receiptDigest), (''error_digest'', JStr errorDigest)]) S)"

text \<open>The row of a sequence number; sequences start at one and are contiguous.\<close>

definition row_index :: "int \<Rightarrow> run_saga \<Rightarrow> nat option" where
  "row_index seq S = (if 1 \<le> seq \<and> nat seq \<le> length (sg_rows S) then Some (nat seq - 1) else None)"

definition recordRunSaga :: "'a sagalib_scheme \<Rightarrow> run_context \<Rightarrow> SagaReceipt \<Rightarrow> run_saga \<Rightarrow> saga_error + run_saga" where
  "recordRunSaga P X rc S =
     (if rc_Sequence rc \<le> 0 \<or> trim_space (rc_StepKey rc) = [] \<or> rc_Phase rc = PhaseNone then Inl ReceiptInvalid
      else if length (rc_GuardDigest rc) > 128 \<or> length (rc_ReceiptRef rc) > 2048 \<or> length (rc_Error rc) > 2048 then Inl ReceiptTooLarge
      else if sg_plan_digest S = [] then Inl PlanNotBound
      else if sg_state S = SUnknown then Inr S
      else case row_index (rc_Sequence rc) S of
        None \<Rightarrow> Inl StepNotInPlan
      | Some i \<Rightarrow>
          (let row = sg_rows S ! i in
           if sp_StepKey (row_plan row) \<noteq> rc_StepKey rc then Inl StepKeyMismatch
           else if row_guard row \<noteq> [] \<and> rc_GuardDigest rc \<noteq> [] \<and> row_guard row \<noteq> rc_GuardDigest rc then Inl GuardChanged
           else if currentPhaseMatches (rc_Phase rc) (row_action row) (row_comp row) then Inr S
           else case saga_transition (rc_Phase rc) row of
             None \<Rightarrow> Inl InvalidTransition
           | Some ac \<Rightarrow>
               (let S1 = S\<lparr>sg_rows := (sg_rows S)[i := apply_receipt rc ac row]\<rparr>;
                    S2 = (if rc_Phase rc = PhaseOutcomeUnknown then S1\<lparr>sg_state := SUnknown, sg_cause := rc_Error rc\<rparr>
                          else refreshRunSagaState (sg_cancel_requested S) (rc_Error rc) S1) in
                Inr (receipt_audit P X rc (sp_StepKey (row_plan row)) S2))))"

subsection \<open>Settling and cancelling\<close>

definition ensureRunSagaTerminal :: "bool \<Rightarrow> run_saga \<Rightarrow> (saga_error + saga_state \<times> bool) \<times> run_saga" where
  "ensureRunSagaTerminal completing S =
     (if completing then
        if sg_state S \<noteq> SReady \<or> sg_cancel_requested S then (Inl SagaNotReady, S)
        else (Inr (sg_state S, sg_cancel_requested S), S)
      else if sg_state S = SPending \<and> sg_plan_digest S = [] then
        (Inr (SCompensated, sg_cancel_requested S), S\<lparr>sg_state := SCompensated\<rparr>)
      else if sg_state S \<noteq> SCompensated \<and> sg_state S \<noteq> SUnknown then (Inl (SagaNotSettled (sg_state S)), S)
      else (Inr (sg_state S, sg_cancel_requested S), S))"

text \<open>The saga part of \<open>CancelRun\<close>; \<open>modelEffects\<close> tells whether a model call of the run has taken effect.\<close>

definition cancel_saga :: "bool \<Rightarrow> run_saga \<Rightarrow> run_saga" where
  "cancel_saga modelEffects S =
     (let hasSagaEffects = list_ex (\<lambda>r. row_effect_started r \<or> row_action r = AUnknown) (sg_rows S) in
      S\<lparr>sg_cancel_requested := True,
        sg_state := (if hasSagaEffects \<or> modelEffects then SCancelling else SCompensated)\<rparr>)"

definition new_saga :: "audit_entry list \<Rightarrow> run_saga" where
  "new_saga entries = \<lparr>sg_state = SPending, sg_plan_digest = [], sg_cancel_requested = False, sg_cause = [], sg_rows = [],
     sg_audit = entries\<rparr>"

end
