(* ===== verification/Saga_Executor.thy ===== *)
theory Saga_Executor
  imports Saga
begin

text \<open>
  The executor of a run's steps (\<^verbatim>\<open>src/agents/runtime/saga.go\<close>, \<^verbatim>\<open>run.go\<close>, \<^verbatim>\<open>hatch.go\<close>). Every call that leaves
  the process, a journal request or the run of a step or of its compensation, happens at a tick of a
  clock; an environment says what happens at that tick: the process dies, the request or the reply of
  the journal is lost, the run is cancelled by a user, the step returns an error. The journal is the
  brain's durable saga, so an attempt of the executor changes the record of \<open>Saga\<close>, and the record
  survives a crash while the executor's own state does not.
\<close>

subsection \<open>Steps, limits and budgets\<close>

record ResourceLimit =
  rl_MemoryBytes :: "64 word"
  rl_CPUSeconds :: "64 word"
  rl_Files :: "64 word"

text \<open>A step: \<open>st_Budget\<close> is the address of a shared budget, \<open>st_Run\<close> and \<open>st_Compensate\<close> say that the function is not nil.\<close>

record Step =
  st_Name :: string
  st_Dangerous :: bool
  st_Fail :: bool
  st_Replay :: ReplayPolicy
  st_CompensationReplay :: ReplayPolicy
  st_Budget :: "nat option"
  st_MemBytes :: "64 word"
  st_Compensate :: bool
  st_Run :: bool

record execlib = sagalib +
  marshal_guard :: "bool \<Rightarrow> bool \<Rightarrow> 64 word \<Rightarrow> bool \<Rightarrow> ResourceLimit \<Rightarrow> bytes"

type_synonym call_budgets = "nat \<Rightarrow> int"

definition Consume :: "nat option \<Rightarrow> call_budgets \<Rightarrow> string option \<times> call_budgets" where
  "Consume b B = (case b of
       None \<Rightarrow> (None, B)
     | Some a \<Rightarrow> if B a \<le> 0 then (Some ''resource_exhausted'', B) else (None, B(a := B a - 1)))"

definition ExceedsLimit :: "64 word \<Rightarrow> 64 word \<Rightarrow> bool" where
  "ExceedsLimit used limit \<longleftrightarrow> limit > 0 \<and> used > limit"

definition normalizeReplay :: "ReplayPolicy \<Rightarrow> ReplayPolicy" where
  "normalizeReplay policy = (case policy of ReplayOther s \<Rightarrow> ReplayNever | p \<Rightarrow> p)"

definition stepGuardDigest :: "'a execlib_scheme \<Rightarrow> Step \<Rightarrow> bool \<Rightarrow> ResourceLimit \<Rightarrow> string" where
  "stepGuardDigest P step sandbox limits =
     ''sha256:'' @ hex_encode (sha256 P (marshal_guard P (st_Dangerous step) (st_Fail step) (st_MemBytes step) sandbox limits))"

definition validateStepGuard :: "Step \<Rightarrow> bool \<Rightarrow> ResourceLimit \<Rightarrow> call_budgets \<Rightarrow> string option \<times> call_budgets" where
  "validateStepGuard step sandbox limits B =
     (if st_Dangerous step \<and> \<not> sandbox then (Some (''dangerous step '' @ st_Name step @ '': failed_precondition''), B)
      else if ExceedsLimit (st_MemBytes step) (rl_MemoryBytes limits) then (Some ''resource_exhausted'', B)
      else Consume (st_Budget step) B)"

subsection \<open>Plans and snapshots\<close>

fun plan_step_list :: "nat \<Rightarrow> string list \<Rightarrow> Step list \<Rightarrow> SagaStepPlan list option" where
  "plan_step_list i seen [] = Some []"
| "plan_step_list i seen (step # steps) =
     (if st_Name step = [] \<or> st_Name step \<in> set seen then None
      else case plan_step_list (i + 1) (st_Name step # seen) steps of
        None \<Rightarrow> None
      | Some ps \<Rightarrow> Some (\<lparr>sp_Sequence = int (i + 1), sp_StepKey = st_Name step, sp_ActionReplay = normalizeReplay (st_Replay step),
            sp_HasCompensation = st_Compensate step, sp_CompensationReplay = normalizeReplay (st_CompensationReplay step)\<rparr> # ps))"

definition buildSagaPlan :: "'a execlib_scheme \<Rightarrow> Step list \<Rightarrow> SagaPlan option" where
  "buildSagaPlan P steps = (case plan_step_list 0 [] steps of
       None \<Rightarrow> None
     | Some ps \<Rightarrow>
         (let plan = \<lparr>pl_SchemaVersion = runSagaSchemaVersion, pl_Steps = ps, pl_PlanDigest = []\<rparr> in
          Some (plan\<lparr>pl_PlanDigest := ''sha256:'' @ hex_encode (sha256 P (marshal_saga P (pl_SchemaVersion plan) (pl_Steps plan)))\<rparr>)))"

record SagaStepSnapshot =
  ss_Plan :: SagaStepPlan
  ss_ActionPhase :: SagaPhase
  ss_CompensationPhase :: SagaPhase
  ss_GuardDigest :: string
  ss_ActionReceiptRef :: string
  ss_CompensationReceiptRef :: string
  ss_Error :: string
  ss_ActionEffectStarted :: bool

record SagaSnapshot =
  sn_State :: saga_state
  sn_PlanDigest :: string
  sn_CancelRequested :: bool
  sn_Steps :: "SagaStepSnapshot list"
  sn_Cause :: string

definition loadRunSagaSnapshot :: "run_saga \<Rightarrow> SagaSnapshot" where
  "loadRunSagaSnapshot S =
     \<lparr>sn_State = sg_state S, sn_PlanDigest = sg_plan_digest S, sn_CancelRequested = sg_cancel_requested S,
       sn_Steps = map (\<lambda>r. \<lparr>ss_Plan = row_plan r, ss_ActionPhase = action_phaseProto (row_action r),
         ss_CompensationPhase = comp_phaseProto (row_comp r), ss_GuardDigest = row_guard r,
         ss_ActionReceiptRef = row_action_receipt r, ss_CompensationReceiptRef = row_comp_receipt r, ss_Error = row_error r,
         ss_ActionEffectStarted = row_effect_started r\<rparr>) (sg_rows S), sn_Cause = sg_cause S\<rparr>"

subsection \<open>The world of an attempt\<close>

datatype journal_error = JournalUnavailable | JournalRejected saga_error

datatype run_error =
    OutcomeUnknown
  | InvalidStepKey
  | PlanDigestDiffers
  | SnapshotIncomplete
  | SnapshotMismatch
  | GuardDigestChanged string
  | ContextDone string
  | StepError string
  | JournalError string journal_error
  | CompensationRecordError run_error journal_error
  | CompensateError run_error string string

datatype attempt_result = Crashed | Returned "run_error option"

text \<open>A call to the outside: the run of a step's action or of its compensation.\<close>

datatype effect = RunEffect string | CompensateEffect string

datatype effect_outcome = EffectOk | EffectError string | EffectDies

datatype fault = Works | RequestLost | ReplyLost | Dies

record saga_env =
  en_context :: "nat \<Rightarrow> run_context"
  en_cancel :: "nat \<Rightarrow> bool option"
  en_fault :: "nat \<Rightarrow> fault"
  en_effect :: "nat \<Rightarrow> effect \<Rightarrow> effect_outcome"
  en_ctx_err :: "nat \<Rightarrow> string option"

record saga_world =
  w_db :: run_saga
  w_clock :: nat
  w_budgets :: call_budgets
  w_events :: "string list"
  w_effects :: "effect list"

definition log_event :: "string \<Rightarrow> saga_world \<Rightarrow> saga_world" where
  "log_event e w = w\<lparr>w_events := w_events w @ [e]\<rparr>"

text \<open>A user's \<open>CancelRun\<close> may commit before any request; the request itself is one transaction of the brain.\<close>

definition cancels :: "saga_env \<Rightarrow> saga_world \<Rightarrow> run_saga" where
  "cancels E w = (case en_cancel E (w_clock w) of None \<Rightarrow> w_db w | Some modelEffects \<Rightarrow> cancel_saga modelEffects (w_db w))"

definition journal_call ::
  "saga_env \<Rightarrow> (run_context \<Rightarrow> run_saga \<Rightarrow> saga_error + run_saga) \<Rightarrow> saga_world \<Rightarrow> (journal_error + SagaSnapshot) option \<times> saga_world"
where
  "journal_call E request w =
     (let t = w_clock w; db = cancels E w; w1 = w\<lparr>w_db := db, w_clock := t + 1\<rparr> in
      case en_fault E t of
        Dies \<Rightarrow> (None, w1)
      | RequestLost \<Rightarrow> (Some (Inl JournalUnavailable), w1)
      | Works \<Rightarrow>
          (case request (en_context E t) db of
             Inl e \<Rightarrow> (Some (Inl (JournalRejected e)), w1)
           | Inr db' \<Rightarrow> (Some (Inr (loadRunSagaSnapshot db')), w1\<lparr>w_db := db'\<rparr>))
      | ReplyLost \<Rightarrow>
          (case request (en_context E t) db of
             Inl e \<Rightarrow> (Some (Inl JournalUnavailable), w1)
           | Inr db' \<Rightarrow> (Some (Inl JournalUnavailable), w1\<lparr>w_db := db'\<rparr>)))"

text \<open>A request whose error ends the attempt with \<open>fail\<close>, and whose snapshot the rest of the attempt continues with.\<close>

definition with_journal ::
  "saga_env \<Rightarrow> (run_context \<Rightarrow> run_saga \<Rightarrow> saga_error + run_saga) \<Rightarrow> (journal_error \<Rightarrow> run_error) \<Rightarrow>
   (SagaSnapshot \<Rightarrow> saga_world \<Rightarrow> attempt_result \<times> saga_world) \<Rightarrow> saga_world \<Rightarrow> attempt_result \<times> saga_world"
where
  "with_journal E request fail k w = (case journal_call E request w of
       (None, w') \<Rightarrow> (Crashed, w')
     | (Some (Inl e), w') \<Rightarrow> (Returned (Some (fail e)), w')
     | (Some (Inr snapshot), w') \<Rightarrow> k snapshot w')"

definition with_effect ::
  "saga_env \<Rightarrow> effect \<Rightarrow> (string option \<Rightarrow> saga_world \<Rightarrow> attempt_result \<times> saga_world) \<Rightarrow> saga_world \<Rightarrow> attempt_result \<times> saga_world"
where
  "with_effect E eff k w =
     (let w1 = w\<lparr>w_clock := w_clock w + 1, w_effects := w_effects w @ [eff]\<rparr> in
      case en_effect E (w_clock w) eff of
        EffectDies \<Rightarrow> (Crashed, w1)
      | EffectOk \<Rightarrow> k None w1
      | EffectError e \<Rightarrow> k (Some e) w1)"

definition receipt_of :: "nat \<Rightarrow> string \<Rightarrow> SagaPhase \<Rightarrow> string \<Rightarrow> string \<Rightarrow> string \<Rightarrow> SagaReceipt" where
  "receipt_of i name phase guard ref err =
     \<lparr>rc_Sequence = int (i + 1), rc_StepKey = name, rc_Phase = phase, rc_GuardDigest = guard, rc_ReceiptRef = ref, rc_Error = err\<rparr>"

subsection \<open>The executor\<close>

definition sagaStepAt :: "SagaSnapshot \<Rightarrow> nat \<Rightarrow> string \<Rightarrow> run_error + SagaStepSnapshot" where
  "sagaStepAt snapshot index name =
     (if index \<ge> length (sn_Steps snapshot) then Inl SnapshotIncomplete
      else let step = sn_Steps snapshot ! index in
        if sp_Sequence (ss_Plan step) \<noteq> int (index + 1) \<or> sp_StepKey (ss_Plan step) \<noteq> name then Inl SnapshotMismatch
        else Inr step)"

definition markOutcomeUnknown :: "'a execlib_scheme \<Rightarrow> saga_env \<Rightarrow> SagaStepPlan \<Rightarrow> string \<Rightarrow> saga_world \<Rightarrow> attempt_result \<times> saga_world" where
  "markOutcomeUnknown P E step reason w =
     with_journal E
       (\<lambda>X. recordRunSaga P X \<lparr>rc_Sequence = sp_Sequence step, rc_StepKey = sp_StepKey step, rc_Phase = PhaseOutcomeUnknown,
          rc_GuardDigest = [], rc_ReceiptRef = [], rc_Error = reason\<rparr>)
       (JournalError ''record outcome unknown'') (\<lambda>_ w'. (Returned (Some OutcomeUnknown), w')) w"

text \<open>One iteration of the compensation loop after its checks: intent, boundary, the call, its settlement.\<close>

definition when_journal ::
  "bool \<Rightarrow> saga_env \<Rightarrow> (run_context \<Rightarrow> run_saga \<Rightarrow> saga_error + run_saga) \<Rightarrow> (journal_error \<Rightarrow> run_error) \<Rightarrow> SagaSnapshot \<Rightarrow>
   (SagaSnapshot \<Rightarrow> saga_world \<Rightarrow> attempt_result \<times> saga_world) \<Rightarrow> saga_world \<Rightarrow> attempt_result \<times> saga_world"
where
  "when_journal needed E request fail snapshot k w = (if needed then with_journal E request fail k w else k snapshot w)"

definition settle_compensation ::
  "'a execlib_scheme \<Rightarrow> saga_env \<Rightarrow> run_error \<Rightarrow> nat \<Rightarrow> string \<Rightarrow> SagaStepPlan \<Rightarrow>
   (SagaSnapshot \<Rightarrow> saga_world \<Rightarrow> attempt_result \<times> saga_world) \<Rightarrow> string option \<Rightarrow> saga_world \<Rightarrow> attempt_result \<times> saga_world"
where
  "settle_compensation P E cause i name plan k err w = (case err of
       Some e \<Rightarrow>
         with_journal E (\<lambda>X. recordRunSaga P X (receipt_of i name PhaseCompensationFailed [] [] e)) (CompensationRecordError cause)
           (\<lambda>_ w'. if sp_CompensationReplay plan = ReplayNever then markOutcomeUnknown P E plan e w'
              else (Returned (Some (CompensateError cause name e)), w')) w
     | None \<Rightarrow>
         with_journal E (\<lambda>X. recordRunSaga P X (receipt_of i name PhaseCompensated [] ''ok'' []))
           (JournalError ''record compensation settlement'') k w)"

definition compensate_step ::
  "'a execlib_scheme \<Rightarrow> saga_env \<Rightarrow> run_error \<Rightarrow> nat \<Rightarrow> string \<Rightarrow> SagaSnapshot \<Rightarrow> SagaStepSnapshot \<Rightarrow>
   (SagaSnapshot \<Rightarrow> saga_world \<Rightarrow> attempt_result \<times> saga_world) \<Rightarrow> saga_world \<Rightarrow> attempt_result \<times> saga_world"
where
  "compensate_step P E cause i name snapshot state k =
     when_journal (ss_CompensationPhase state = PhaseNone \<or> ss_CompensationPhase state = PhaseCompensationFailed) E
       (\<lambda>X. recordRunSaga P X (receipt_of i name PhaseCompensationIntent [] [] [])) (JournalError ''record compensation intent'') snapshot
    (\<lambda>_. when_journal (ss_CompensationPhase state \<noteq> PhaseCompensationEffect) E
       (\<lambda>X. recordRunSaga P X (receipt_of i name PhaseCompensationEffect [] [] []))
       (JournalError ''record compensation effect boundary'') snapshot
    (\<lambda>_ w. with_effect E (CompensateEffect name) (settle_compensation P E cause i name (ss_Plan state) k)
       (log_event (''compensate:'' @ name) w)))"

text \<open>The compensation loop over the indexes below \<open>n\<close>, downwards.\<close>

primrec compensateRecoverable ::
  "nat \<Rightarrow> 'a execlib_scheme \<Rightarrow> saga_env \<Rightarrow> Step list \<Rightarrow> run_error \<Rightarrow> SagaSnapshot \<Rightarrow> saga_world \<Rightarrow> attempt_result \<times> saga_world"
where
  "compensateRecoverable 0 P E steps cause snapshot w = (Returned (Some cause), w)"
| "compensateRecoverable (Suc i) P E steps cause snapshot w =
     (let step = steps ! i in
      case sagaStepAt snapshot i (st_Name step) of
        Inl e \<Rightarrow> (Returned (Some e), w)
      | Inr state \<Rightarrow>
          if \<not> st_Compensate step \<or> \<not> ss_ActionEffectStarted state then compensateRecoverable i P E steps cause snapshot w
          else if ss_ActionPhase state = PhaseActionEffect \<and> sp_ActionReplay (ss_Plan state) = ReplayNever then
            markOutcomeUnknown P E (ss_Plan state) ''action settlement missing after effect started'' w
          else if ss_CompensationPhase state = PhaseCompensated then compensateRecoverable i P E steps cause snapshot w
          else if ss_CompensationPhase state = PhaseOutcomeUnknown then (Returned (Some OutcomeUnknown), w)
          else if (ss_CompensationPhase state = PhaseCompensationEffect \<or> ss_CompensationPhase state = PhaseCompensationFailed) \<and>
                  sp_CompensationReplay (ss_Plan state) = ReplayNever then
            markOutcomeUnknown P E (ss_Plan state) ''compensation settlement missing or failed after effect started'' w
          else compensate_step P E cause i (st_Name step) snapshot state (\<lambda>snap. compensateRecoverable i P E steps cause snap) w)"

text \<open>
  The action of step \<open>i\<close> from its guard on. \<open>failed\<close> compensates, given how many of the steps, after
  the failure or the cancellation has been recorded; \<open>k\<close> is the rest of the loop.
\<close>

definition settle_action ::
  "'a execlib_scheme \<Rightarrow> saga_env \<Rightarrow> nat \<Rightarrow> string \<Rightarrow> string \<Rightarrow>
   (nat \<Rightarrow> run_error \<Rightarrow> SagaSnapshot \<Rightarrow> saga_world \<Rightarrow> attempt_result \<times> saga_world) \<Rightarrow>
   (SagaSnapshot \<Rightarrow> saga_world \<Rightarrow> attempt_result \<times> saga_world) \<Rightarrow> string option \<Rightarrow> saga_world \<Rightarrow> attempt_result \<times> saga_world"
where
  "settle_action P E i name guardDigest failed k err w = (case err of
       Some e \<Rightarrow>
         with_journal E (\<lambda>X. recordRunSaga P X (receipt_of i name PhaseActionFailed guardDigest [] e))
           (JournalError ''record action failure'') (failed (i + 1) (StepError e)) (log_event (''fail:'' @ name) w)
     | None \<Rightarrow>
         with_journal E (\<lambda>X. recordRunSaga P X (receipt_of i name PhaseActionSucceeded guardDigest ''ok'' []))
           (JournalError ''record action settlement'')
           (\<lambda>snap w'. if sn_CancelRequested snap then failed (i + 1) (ContextDone ''context canceled'') snap w' else k snap w')
           (log_event (''ok:'' @ name) w))"

definition run_action ::
  "'a execlib_scheme \<Rightarrow> saga_env \<Rightarrow> bool \<Rightarrow> ResourceLimit \<Rightarrow> nat \<Rightarrow> Step \<Rightarrow> SagaStepSnapshot \<Rightarrow> SagaSnapshot \<Rightarrow>
   (nat \<Rightarrow> run_error \<Rightarrow> SagaSnapshot \<Rightarrow> saga_world \<Rightarrow> attempt_result \<times> saga_world) \<Rightarrow>
   (SagaSnapshot \<Rightarrow> saga_world \<Rightarrow> attempt_result \<times> saga_world) \<Rightarrow> saga_world \<Rightarrow> attempt_result \<times> saga_world"
where
  "run_action P E sandbox limits i step state snapshot failed k w =
     (let name = st_Name step; guardDigest = stepGuardDigest P step sandbox limits;
          (guardErr, budgets) = validateStepGuard step sandbox limits (w_budgets w);
          w1 = w\<lparr>w_budgets := budgets\<rparr> in
      case guardErr of
        Some e \<Rightarrow>
          with_journal E (\<lambda>X. recordRunSaga P X (receipt_of i name PhaseActionFailed guardDigest [] e))
            (JournalError ''record guard failure'') (failed i (StepError e)) (log_event (''reject:'' @ name) w1)
      | None \<Rightarrow>
          when_journal (ss_ActionPhase state \<noteq> PhaseActionEffect) E
            (\<lambda>X. recordRunSaga P X (receipt_of i name PhaseActionEffect guardDigest [] []))
            (JournalError ''record action effect boundary'') snapshot
            (\<lambda>_ w2. let settle = settle_action P E i name guardDigest failed k; w3 = log_event (''start:'' @ name) w2 in
               if st_Fail step then settle (Some (''step '' @ name @ '' failed'')) w3
               else if st_Run step then with_effect E (RunEffect name) settle w3
               else settle None w3) w1)"

primrec run_steps ::
  "Step list \<Rightarrow> 'a execlib_scheme \<Rightarrow> saga_env \<Rightarrow> Step list \<Rightarrow> bool \<Rightarrow> ResourceLimit \<Rightarrow> nat \<Rightarrow> SagaSnapshot \<Rightarrow> saga_world \<Rightarrow>
   attempt_result \<times> saga_world"
where
  "run_steps [] P E steps sandbox limits i snapshot w = (Returned None, w)"
| "run_steps (step # rest) P E steps sandbox limits i snapshot w =
     (case sagaStepAt snapshot i (st_Name step) of
        Inl e \<Rightarrow> (Returned (Some e), w)
      | Inr state \<Rightarrow>
          (let guardDigest = stepGuardDigest P step sandbox limits;
               failed = (\<lambda>n cause. compensateRecoverable n P E steps cause) in
           if ss_ActionPhase state = PhaseActionSucceeded then run_steps rest P E steps sandbox limits (i + 1) snapshot w
           else if ss_ActionPhase state = PhaseActionFailed then
             failed (if ss_ActionEffectStarted state then i + 1 else i)
               (StepError (if ss_Error state \<noteq> [] then ss_Error state else ''step failed'')) snapshot w
           else if ss_ActionPhase state = PhaseOutcomeUnknown then (Returned (Some OutcomeUnknown), w)
           else if ss_ActionPhase state = PhaseActionEffect \<and> sp_ActionReplay (ss_Plan state) = ReplayNever then
             markOutcomeUnknown P E (ss_Plan state) ''action settlement missing after effect started'' w
           else if ss_GuardDigest state \<noteq> [] \<and> ss_GuardDigest state \<noteq> guardDigest then
             (Returned (Some (GuardDigestChanged (st_Name step))), w)
           else case en_ctx_err E (w_clock w) of
             Some e \<Rightarrow> failed i (ContextDone e) snapshot w
           | None \<Rightarrow>
               when_journal (ss_ActionPhase state = PhaseNone) E
                 (\<lambda>X. recordRunSaga P X (receipt_of i (st_Name step) PhaseActionIntent guardDigest [] []))
                 (JournalError ''record action intent'') snapshot (\<lambda>snap w1.
               if ss_ActionPhase state = PhaseNone \<and> sn_CancelRequested snap then failed i (ContextDone ''context canceled'') snap w1
               else run_action P E sandbox limits i step state snap failed
                 (run_steps rest P E steps sandbox limits (i + 1)) w1) w))"

definition ExecuteRecoverable ::
  "'a execlib_scheme \<Rightarrow> saga_env \<Rightarrow> Step list \<Rightarrow> bool \<Rightarrow> ResourceLimit \<Rightarrow> saga_world \<Rightarrow> attempt_result \<times> saga_world" where
  "ExecuteRecoverable P E steps sandbox limits w =
     (case buildSagaPlan P steps of
        None \<Rightarrow> (Returned (Some InvalidStepKey), w)
      | Some plan \<Rightarrow>
          with_journal E (\<lambda>X. bindRunSaga P X plan) (JournalError ''bind saga plan'') (\<lambda>snapshot w1.
            if sn_PlanDigest snapshot \<noteq> pl_PlanDigest plan then (Returned (Some PlanDigestDiffers), w1)
            else if sn_State snapshot = SUnknown then (Returned (Some OutcomeUnknown), w1)
            else if sn_CancelRequested snapshot then
              compensateRecoverable (length steps) P E steps (ContextDone ''context canceled'') snapshot w1
            else run_steps steps P E steps sandbox limits 0 snapshot w1) w)"

text \<open>
  Attempts of one run: each starts a fresh process, whose budgets and events are new, on the durable
  saga the earlier ones left. The clock and the effects go on.
\<close>

definition attempt :: "'a execlib_scheme \<Rightarrow> saga_env \<Rightarrow> Step list \<Rightarrow> bool \<Rightarrow> ResourceLimit \<Rightarrow> call_budgets \<Rightarrow> saga_world \<Rightarrow> attempt_result \<times> saga_world" where
  "attempt P E steps sandbox limits budgets w =
     ExecuteRecoverable P E steps sandbox limits (w\<lparr>w_budgets := budgets, w_events := []\<rparr>)"

end
