(* ===== verification/Text_Laws.thy ===== *)
theory Text_Laws
  imports Prelude
begin

text \<open>
  Inverses of the text encodings: hexadecimal digits, decimal numbers and separated fields. The
  ledger and the collectors rest on them to tell apart what they hash.
\<close>

lemma hex_digit_inj:
  assumes "hex_digit m = hex_digit n" and "m < 16" and "n < 16"
  shows "m = n"
proof -
  have val: "(of_char (hex_digit k) :: nat) = (if k < 10 then 48 + k else 87 + k)" if "k < 16" for k
    using that by (simp add: hex_digit_def of_char_of)
  from assms(1) have "(of_char (hex_digit m) :: nat) = of_char (hex_digit n)" by simp
  then show ?thesis unfolding val [OF assms(2)] val [OF assms(3)] using assms(2,3) by (auto split: if_splits)
qed

lemma div_mod_16_inj:
  fixes m n :: nat
  shows "m div 16 = n div 16 \<Longrightarrow> m mod 16 = n mod 16 \<Longrightarrow> m = n"
  by (metis div_mult_mod_eq)

lemma hex_byte_inj:
  assumes "hex_digit (of_char c div 16) = hex_digit (of_char d div 16)"
    and "hex_digit (of_char c mod 16) = hex_digit (of_char d mod 16)"
  shows "c = d"
proof -
  have lt: "(of_char x :: nat) div 16 < 16" for x
    by (rule less_mult_imp_div_less) (use of_char_less_256 [of x] in simp)
  have "of_char c div 16 = (of_char d div 16 :: nat)" by (rule hex_digit_inj [OF assms(1) lt lt])
  moreover have "of_char c mod 16 = (of_char d mod 16 :: nat)"
    by (rule hex_digit_inj [OF assms(2)]) (rule mod_less_divisor, rule zero_less_numeral)+
  ultimately have "(of_char c :: nat) = of_char d" by (rule div_mod_16_inj)
  then show ?thesis by (simp only: of_char_eq_iff)
qed

lemma hex_encode_simps:
  "hex_encode [] = []"
  "hex_encode (c # s) = hex_digit (of_char c div 16) # hex_digit (of_char c mod 16) # hex_encode s"
  by (simp_all add: hex_encode_def)

lemma hex_encode_inj: "hex_encode a = hex_encode b \<Longrightarrow> a = b"
proof (induction a arbitrary: b)
  case Nil
  then show ?case by (cases b) (simp_all only: hex_encode_simps list.distinct)
next
  case (Cons c a)
  then obtain d b' where b: "b = d # b'" by (cases b) (simp_all only: hex_encode_simps list.distinct)
  with Cons.prems have *: "hex_digit (of_char c div 16) = hex_digit (of_char d div 16)"
    "hex_digit (of_char c mod 16) = hex_digit (of_char d mod 16)" "hex_encode a = hex_encode b'"
    by (simp_all only: hex_encode_simps list.inject)
  from hex_byte_inj [OF *(1,2)] Cons.IH [OF *(3)] b show ?case by simp
qed

lemma hex_encode_Nil [simp]: "hex_encode bs = [] \<longleftrightarrow> bs = []"
  by (cases bs) (simp_all add: hex_encode_simps)

text \<open>Decimal numbers.\<close>

lemma digit_value_digit: "n < 10 \<Longrightarrow> digit_value (char_of (48 + n)) = Some n"
  by (simp add: digit_value_def of_char_of)

lemma parse_digits_append:
  "parse_digits acc (s @ t) = (case parse_digits acc s of None \<Rightarrow> None | Some n \<Rightarrow> parse_digits n t)"
  by (induction s arbitrary: acc) (auto split: option.split)

lemma parse_nat_digits: "parse_digits 0 (nat_digits n) = Some n"
proof (induction n rule: nat_digits.induct)
  case (1 n)
  show ?case
  proof (cases "n < 10")
    case True
    then show ?thesis by (subst nat_digits.simps) (simp add: digit_value_digit)
  next
    case False
    then show ?thesis
      using 1 by (subst nat_digits.simps) (simp add: parse_digits_append digit_value_digit)
  qed
qed

lemma digit_chars: "c \<in> set (nat_digits n) \<Longrightarrow> 48 \<le> (of_char c :: nat) \<and> (of_char c :: nat) \<le> 57"
proof (induction n rule: nat_digits.induct)
  case (1 n)
  have d: "48 \<le> (of_char (char_of (48 + m) :: char) :: nat) \<and> (of_char (char_of (48 + m) :: char) :: nat) \<le> 57"
    if "m < 10" for m :: nat
    using that by (simp add: of_char_of)
  show ?case
  proof (cases "n < 10")
    case True
    then show ?thesis using 1(2) d [of n] by (simp add: nat_digits.simps [of n])
  next
    case False
    then have "c \<in> set (nat_digits (n div 10)) \<or> c = char_of (48 + n mod 10)"
      using 1(2) by (auto simp: nat_digits.simps [of n])
    then show ?thesis using 1(1) [OF False] d [of "n mod 10"] by auto
  qed
qed

lemma nat_digits_not_Nil [simp]: "nat_digits n \<noteq> []"
  by (subst nat_digits.simps) simp

lemma atoi_itoa:
  assumes "- (2 ^ 63) \<le> i" and "i < 2 ^ 63"
  shows "atoi (itoa i) = Some i"
proof (cases "i < 0")
  case True
  then show ?thesis using assms by (simp add: itoa_def atoi_def Let_def parse_nat_digits)
next
  case False
  have "hd (nat_digits (nat i)) \<in> set (nat_digits (nat i))" by simp
  from digit_chars [OF this] have "hd (nat_digits (nat i)) \<noteq> CHR ''-''" "hd (nat_digits (nat i)) \<noteq> CHR ''+''" by auto
  then show ?thesis using assms False by (simp add: itoa_def atoi_def Let_def parse_nat_digits)
qed

lemma itoa_inj: "itoa i = itoa j \<Longrightarrow> i = j"
proof -
  assume eq: "itoa i = itoa j"
  have "nat_digits n \<noteq> CHR ''-'' # s" for n s
    using digit_chars [of "CHR ''-''" n] by auto
  note no_sign = this this [symmetric]
  have inj: "nat_digits m = nat_digits n \<Longrightarrow> m = n" for m n by (metis option.inject parse_nat_digits)
  show "i = j"
  proof (cases "i < 0"; cases "j < 0")
    assume "i < 0" "j < 0"
    then have "nat (- i) = nat (- j)" using eq by (intro inj) (simp add: itoa_def)
    with \<open>i < 0\<close> \<open>j < 0\<close> show ?thesis by simp
  next
    assume "\<not> i < 0" "\<not> j < 0"
    then have "nat i = nat j" using eq by (intro inj) (simp add: itoa_def)
    with \<open>\<not> i < 0\<close> \<open>\<not> j < 0\<close> show ?thesis by simp
  qed (use eq no_sign in \<open>auto simp: itoa_def\<close>)
qed

text \<open>Fields without the separator can be read back from the joined text.\<close>

lemma join_with_inj:
  assumes "join_with [sep] ps = join_with [sep] qs" and "ps \<noteq> []" and "qs \<noteq> []"
    and "\<And>p. p \<in> set ps \<Longrightarrow> sep \<notin> set p" and "\<And>q. q \<in> set qs \<Longrightarrow> sep \<notin> set q"
  shows "ps = qs"
proof -
  have "ps = split_on sep (join_with [sep] ps)" by (rule split_join [OF assms(2,4), symmetric])
  also have "\<dots> = split_on sep (join_with [sep] qs)" by (simp only: assms(1))
  also have "\<dots> = qs" by (rule split_join [OF assms(3,5)])
  finally show ?thesis .
qed

text \<open>A separator inside a field moves the boundary without changing the text.\<close>

lemma join_with_Cons: "ps \<noteq> [] \<Longrightarrow> join_with sep (p # ps) = p @ sep @ join_with sep ps"
  by (cases ps) simp_all

lemma join_with_nested:
  "join_with sep (ps @ (a @ sep @ b) # c # qs) = join_with sep (ps @ a # (b @ sep @ c) # qs)"
proof (induction ps)
  case Nil
  show ?case by (cases qs) (simp_all add: join_with_Cons)
next
  case (Cons p ps)
  then show ?case by (simp only: append_Cons join_with_Cons list.distinct append_is_Nil_conv simp_thms)
qed

end
