(* ===== verification/Audit_Laws.thy ===== *)
theory Audit_Laws
  imports Audit_Ledger Text_Laws
begin

text \<open>
  The laws of the audit ledger: every history of appends and retention runs verifies, the head binds
  the whole log, and the two ways in which the chain is weaker than it looks.
\<close>

subsection \<open>The chain as a predicate\<close>

primrec chain_from :: "'a auditlib_scheme \<Rightarrow> string \<Rightarrow> audit_entry list \<Rightarrow> bool" where
  "chain_from P prev [] = True"
| "chain_from P prev (e # es) \<longleftrightarrow>
     ae_previous_hash e = prev \<and> expected_hash P e = ae_entry_hash e \<and> chain_from P (ae_entry_hash e) es"

definition end_hash :: "string \<Rightarrow> audit_entry list \<Rightarrow> string" where
  "end_hash prev es = (if es = [] then prev else ae_entry_hash (last es))"

lemma end_hash_simps [simp]:
  "end_hash prev [] = prev" "end_hash prev (e # es) = end_hash (ae_entry_hash e) es"
  "end_hash prev (es @ fs) = end_hash (end_hash prev es) fs"
  by (auto simp: end_hash_def)

lemma latest_hash_end [simp]: "latest_hash es = end_hash [] es"
  by (simp add: latest_hash_def end_hash_def)

lemma chain_from_append [simp]:
  "chain_from P prev (es @ fs) \<longleftrightarrow> chain_from P prev es \<and> chain_from P (end_hash prev es) fs"
  by (induction es arbitrary: prev) auto

lemma check_rows:
  "foldl (check_row P) (v, sh, prev, c) es =
     (v \<and> chain_from P prev es,
      fst (snd (foldl (check_row P) (v, sh, prev, c) es)),
      end_hash prev es,
      snd (snd (snd (foldl (check_row P) (v, sh, prev, c) es))))"
proof (induction es arbitrary: v sh prev c)
  case (Cons e es)
  show ?case
    using Cons [of "v \<and> ae_previous_hash e = prev \<and> expected_hash P e = ae_entry_hash e"
        "if c = 0 then ae_entry_hash e else sh" "ae_entry_hash e" "to_int32 (c + 1)"]
    by (auto simp: check_row_def)
qed simp

lemma rows_counted:
  "0 \<le> c \<Longrightarrow> c + int (length es) < 2 ^ 31 \<Longrightarrow>
   snd (snd (snd (foldl (check_row P) (v, sh, prev, c) es))) = c + int (length es)"
proof (induction es arbitrary: v sh prev c)
  case (Cons e es)
  then have "to_int32 (c + 1) = c + 1" by (intro to_int32_id) auto
  with Cons show ?case by (auto simp: check_row_def)
qed simp

definition rows_between :: "int \<Rightarrow> int \<Rightarrow> audit_entry list \<Rightarrow> audit_entry list" where
  "rows_between start stop es = filter (\<lambda>e. start \<le> ae_sequence e \<and> ae_sequence e \<le> stop) es"

lemma verifyAuditRange_valid:
  assumes ne: "rows_between start stop es \<noteq> []" and len: "length (rows_between start stop es) < 2 ^ 31"
  obtains sh where "verifyAuditRange P anchors es start stop =
    Inr \<lparr>vc_Valid = chain_from P (range_start_hash anchors es start) (rows_between start stop es), vc_StartHash = sh,
      vc_EndHash = end_hash [] (rows_between start stop es), vc_EntriesChecked = int (length (rows_between start stop es))\<rparr>"
proof -
  let ?rows = "rows_between start stop es" and ?p = "range_start_hash anchors es start"
  let ?f = "foldl (check_row P) (True, [], ?p, 0) ?rows"
  have count: "snd (snd (snd ?f)) = int (length ?rows)"
    using rows_counted [of 0 ?rows] len by simp
  have hash: "end_hash ?p ?rows = end_hash [] ?rows" using ne by (simp add: end_hash_def)
  have f: "?f = (chain_from P ?p ?rows, fst (snd ?f), end_hash [] ?rows, int (length ?rows))"
    using check_rows [of P True "[]" ?p 0 ?rows] unfolding count hash by simp
  have "verifyAuditRange P anchors es start stop =
      (case ?f of (valid, startHash, prev, checked) \<Rightarrow>
          if checked = 0 then Inl NoEntriesInRange
          else Inr \<lparr>vc_Valid = valid, vc_StartHash = startHash, vc_EndHash = prev, vc_EntriesChecked = checked\<rparr>)"
    by (simp add: verifyAuditRange_def Let_def rows_between_def)
  also have "\<dots> = Inr \<lparr>vc_Valid = chain_from P ?p ?rows, vc_StartHash = fst (snd ?f), vc_EndHash = end_hash [] ?rows,
      vc_EntriesChecked = int (length ?rows)\<rparr>"
    by (subst f) (use ne in simp)
  finally show ?thesis by (rule that)
qed

subsection \<open>Appending and retention keep the chain\<close>

definition jsonb_faithful :: "'a auditlib_scheme \<Rightarrow> bool" where
  "jsonb_faithful P \<longleftrightarrow> (\<forall>d. canonical_details P (jsonb_text P (marshal_json P d)) = canonical_details P (marshal_json P d))"

lemma append_chain:
  assumes "jsonb_faithful P" and "chain_from P h es" and "end_hash [] es = end_hash h es"
  shows "chain_from P h (appendAuditRecordTx P seq now actorType actorID action objectType objectID coordinates details es)"
  using assms by (auto simp: appendAuditRecordTx_def Let_def jsonb_faithful_def expected_hash_def auditEntryHashV2_def
      hash_v2_fields_def)

text \<open>
  The ledger grows by appends in the order of the identity column and the clock, and shrinks by its
  oldest partition, as long as retention leaves a row behind.
\<close>

inductive ledger_reach :: "'a auditlib_scheme \<Rightarrow> network \<Rightarrow> ledger \<Rightarrow> bool" for P :: "'a auditlib_scheme" and net :: network where
  empty: "ledger_reach P net \<lparr>led_entries = [], led_anchors = [], led_file = file\<rparr>"
| append: "ledger_reach P net L \<Longrightarrow>
     \<forall>e \<in> set (led_entries L). ae_sequence e < seq \<and> ae_occurred_at e \<le> now - now mod 1000 \<Longrightarrow>
     \<forall>a \<in> set (led_anchors L). an_last_sequence a < seq \<Longrightarrow>
     ledger_reach P net (L\<lparr>led_entries := appendAuditRecordTx P seq now actorType actorID action objectType objectID
       coordinates details (led_entries L)\<rparr>)"
| retain: "ledger_reach P net L \<Longrightarrow> \<forall>e \<in> set (led_entries L). lo \<le> ae_occurred_at e \<Longrightarrow>
     checkpointAndDropAuditPartition P net now signer name lo hi L = (res, L') \<Longrightarrow> led_entries L' \<noteq> [] \<or> led_entries L = [] \<Longrightarrow>
     ledger_reach P net L'"

definition base_hash :: "anchor list \<Rightarrow> string" where
  "base_hash anchors = (case newest_anchor anchors of None \<Rightarrow> [] | Some a \<Rightarrow> an_last_hash a)"

definition ledger_ok :: "'a auditlib_scheme \<Rightarrow> ledger \<Rightarrow> bool" where
  "ledger_ok P L \<longleftrightarrow>
     chain_from P (base_hash (led_anchors L)) (led_entries L) \<and>
     sorted_wrt (\<lambda>e f. ae_sequence e < ae_sequence f \<and> ae_occurred_at e \<le> ae_occurred_at f) (led_entries L) \<and>
     (\<forall>a \<in> set (led_anchors L). \<forall>e \<in> set (led_entries L). an_last_sequence a < ae_sequence e) \<and>
     (led_entries L = [] \<longrightarrow> led_anchors L = [])"

lemma newest_foldl:
  fixes x a :: anchor
  assumes "\<forall>b \<in> set (x # as). an_last_sequence b < an_last_sequence a"
  shows "foldl (\<lambda>b c. if an_last_sequence c > an_last_sequence b then c else b) x (as @ [a]) = a"
proof -
  have "foldl (\<lambda>b c. if an_last_sequence c > an_last_sequence b then c else b) x as \<in> set (x # as)"
    by (induction as arbitrary: x) auto
  with assms show ?thesis by auto
qed

lemma newest_anchor_snoc:
  "\<forall>b \<in> set as. an_last_sequence b < an_last_sequence a \<Longrightarrow> newest_anchor (as @ [a]) = Some a"
  using newest_foldl [of "hd as" "tl as" a]
  by (cases as) (auto simp: newest_anchor_def)

lemma filter_split:
  "sorted_wrt (\<lambda>x y. Q y \<longrightarrow> Q x) xs \<Longrightarrow> xs = filter Q xs @ filter (\<lambda>x. \<not> Q x) xs"
proof (induction xs)
  case (Cons x xs)
  then show ?case by (cases "Q x") (auto simp: filter_empty_conv intro!: filter_True [symmetric])
qed simp

lemma drop_shape:
  assumes "checkpointAndDropAuditPartition P net now signer name lo hi L = (res, L')"
    and "\<not> (led_entries L' = led_entries L \<and> led_anchors L' = led_anchors L)"
  obtains a where "filter (\<lambda>e. lo \<le> ae_occurred_at e \<and> ae_occurred_at e < hi) (led_entries L) \<noteq> []"
    and "led_entries L' = filter (\<lambda>e. \<not> (lo \<le> ae_occurred_at e \<and> ae_occurred_at e < hi)) (led_entries L)"
    and "led_anchors L' = put_anchor a (led_anchors L)"
    and "an_last_sequence a = ae_sequence (last (filter (\<lambda>e. lo \<le> ae_occurred_at e \<and> ae_occurred_at e < hi) (led_entries L)))"
    and "an_last_hash a = ae_entry_hash (last (filter (\<lambda>e. lo \<le> ae_occurred_at e \<and> ae_occurred_at e < hi) (led_entries L)))"
  using assms
  by (auto simp: checkpointAndDropAuditPartition_def Let_def split: if_splits prod.splits option.splits)

lemma drop_ok:
  assumes ok: "ledger_ok P L" and lo: "\<forall>e \<in> set (led_entries L). lo \<le> ae_occurred_at e"
    and drop: "checkpointAndDropAuditPartition P net now signer name lo hi L = (res, L')"
    and keeps: "led_entries L' \<noteq> [] \<or> led_entries L = []"
  shows "ledger_ok P L'"
proof (cases "led_entries L' = led_entries L \<and> led_anchors L' = led_anchors L")
  case True
  then show ?thesis using ok by (simp add: ledger_ok_def)
next
  case False
  let ?es = "led_entries L" and ?in = "\<lambda>e. lo \<le> ae_occurred_at e \<and> ae_occurred_at e < hi"
  let ?rows = "filter ?in ?es" and ?rest = "filter (\<lambda>e. \<not> ?in e) ?es"
  obtain a where rows: "?rows \<noteq> []" and es': "led_entries L' = ?rest"
    and as': "led_anchors L' = put_anchor a (led_anchors L)"
    and a: "an_last_sequence a = ae_sequence (last ?rows)" "an_last_hash a = ae_entry_hash (last ?rows)"
    using drop_shape [OF drop False] by blast
  have "sorted_wrt (\<lambda>x y. ?in y \<longrightarrow> ?in x) ?es"
    using ok lo unfolding ledger_ok_def by (auto elim!: sorted_wrt_mono_rel [rotated])
  then have split: "?es = ?rows @ ?rest" by (rule filter_split)
  have srt: "sorted_wrt (\<lambda>e f. ae_sequence e < ae_sequence f \<and> ae_occurred_at e \<le> ae_occurred_at f) (?rows @ ?rest)"
    and chain: "chain_from P (base_hash (led_anchors L)) (?rows @ ?rest)"
    and low: "\<forall>b \<in> set (led_anchors L). \<forall>e \<in> set ?es. an_last_sequence b < ae_sequence e"
    using ok split by (auto simp: ledger_ok_def)
  have mem: "last ?rows \<in> set ?es" "last ?rows \<in> set ?rows" using rows last_in_set [OF rows] by auto
  have "newest_anchor (led_anchors L') = Some a"
    unfolding as' put_anchor_def using low mem a(1) by (intro newest_anchor_snoc) auto
  then have "base_hash (led_anchors L') = end_hash (base_hash (led_anchors L)) ?rows"
    using rows a(2) by (simp add: base_hash_def end_hash_def)
  moreover have "an_last_sequence b < ae_sequence e" if "b \<in> set (led_anchors L')" "e \<in> set ?rest" for b e
    using that srt low mem a(1) by (auto simp: as' put_anchor_def sorted_wrt_append)
  moreover have "?rest \<noteq> []" using keeps es' rows by auto
  ultimately show ?thesis
    using srt chain by (auto simp: ledger_ok_def es' sorted_wrt_append)
qed

lemma append_shape:
  obtains e where "appendAuditRecordTx P seq now actorType actorID action objectType objectID coordinates details es = es @ [e]"
    and "ae_sequence e = seq" and "ae_occurred_at e = now - now mod 1000"
  by (simp add: appendAuditRecordTx_def Let_def)

lemma append_first:
  obtains e where "appendAuditRecordTx P seq now actorType actorID action objectType objectID coordinates details [] = [e]"
    and "ae_sequence e = seq" and "ae_previous_hash e = []"
  by (simp add: appendAuditRecordTx_def Let_def)

lemma chain_hash: "chain_from P h es \<Longrightarrow> e \<in> set es \<Longrightarrow> ae_entry_hash e = expected_hash P e"
  by (induction es arbitrary: h) auto

lemma append_ok:
  assumes P: "jsonb_faithful P" and ok: "ledger_ok P L"
    and later: "\<forall>e \<in> set (led_entries L). ae_sequence e < seq \<and> ae_occurred_at e \<le> now - now mod 1000"
    and above: "\<forall>a \<in> set (led_anchors L). an_last_sequence a < seq"
  shows "ledger_ok P (L\<lparr>led_entries := appendAuditRecordTx P seq now actorType actorID action objectType objectID
       coordinates details (led_entries L)\<rparr>)"
proof -
  let ?es = "led_entries L" and ?h = "base_hash (led_anchors L)"
  let ?new = "appendAuditRecordTx P seq now actorType actorID action objectType objectID coordinates details ?es"
  have hash: "end_hash [] ?es = end_hash ?h ?es"
    using ok by (auto simp: ledger_ok_def end_hash_def base_hash_def newest_anchor_def)
  have chain: "chain_from P ?h ?es"
    and srt: "sorted_wrt (\<lambda>e f. ae_sequence e < ae_sequence f \<and> ae_occurred_at e \<le> ae_occurred_at f) ?es"
    and low: "\<forall>a \<in> set (led_anchors L). \<forall>e \<in> set ?es. an_last_sequence a < ae_sequence e"
    using ok by (simp_all add: ledger_ok_def)
  from append_chain [OF P chain hash] have c: "chain_from P ?h ?new" .
  obtain e where e: "?new = ?es @ [e]" "ae_sequence e = seq" "ae_occurred_at e = now - now mod 1000"
    by (rule append_shape)
  have "sorted_wrt (\<lambda>e f. ae_sequence e < ae_sequence f \<and> ae_occurred_at e \<le> ae_occurred_at f) ?new"
    unfolding e(1) using srt later e(2,3) by (simp add: sorted_wrt_append)
  moreover have "\<forall>a \<in> set (led_anchors L). \<forall>e \<in> set ?new. an_last_sequence a < ae_sequence e"
    unfolding e(1) using low above e(2) by simp
  ultimately show ?thesis using c e(1) by (simp add: ledger_ok_def)
qed

lemma reach_ok: "ledger_reach P net L \<Longrightarrow> jsonb_faithful P \<Longrightarrow> ledger_ok P L"
proof (induction rule: ledger_reach.induct)
  case (empty f)
  then show ?case by (simp add: ledger_ok_def)
next
  case (append L seq now actorType actorID action objectType objectID coordinates details)
  show ?case by (rule append_ok [OF append.prems append.IH [OF append.prems] append.hyps(2,3)])
next
  case (retain L lo now signer name hi res L')
  show ?case by (rule drop_ok [OF retain.IH [OF retain.prems] retain.hyps(2-4)])
qed

subsection \<open>The head binds the log\<close>

definition hashed_text :: "'a auditlib_scheme \<Rightarrow> audit_entry \<Rightarrow> string" where
  "hashed_text P e = join_with [CHR 0x0A] (hash_v2_fields P e)"

definition plain_entry :: "'a auditlib_scheme \<Rightarrow> audit_entry \<Rightarrow> bool" where
  "plain_entry P e \<longleftrightarrow> ae_schema_version e = auditSchemaVersion \<and> (\<forall>f \<in> set (hash_v2_fields P e). CHR 0x0A \<notin> set f)"

definition sha256_size :: "'a golib_scheme \<Rightarrow> bool" where
  "sha256_size P \<longleftrightarrow> (\<forall>x. length (sha256 P x) = 32)"

lemma sha256_not_Nil: "sha256_size P \<Longrightarrow> sha256 P x \<noteq> []"
  by (auto simp: sha256_size_def dest: spec [of _ x])

lemma expected_hash_not_Nil: "sha256_size P \<Longrightarrow> expected_hash P e \<noteq> []"
  by (simp add: expected_hash_def auditEntryHash_def auditEntryHashV2_def sha256_not_Nil)

lemma hash_v2_fields_eq:
  assumes "plain_entry P e" and "plain_entry P f" and "hashed_text P e = hashed_text P f"
  shows "hash_v2_fields P e = hash_v2_fields P f"
proof (rule join_with_inj [of "CHR 0x0A"])
  show "join_with [CHR 0x0A] (hash_v2_fields P e) = join_with [CHR 0x0A] (hash_v2_fields P f)"
    using assms(3) by (simp only: hashed_text_def)
  show "hash_v2_fields P e \<noteq> []" "hash_v2_fields P f \<noteq> []" by (simp_all add: hash_v2_fields_def Let_def)
qed (use assms(1,2) in \<open>auto simp: plain_entry_def\<close>)

lemma previous_hash_field: "last (hash_v2_fields P e) = ae_previous_hash e"
  by (simp add: hash_v2_fields_def Let_def)

lemma same_head_same_log:
  assumes "sha256_size P"
    and "chain_from P [] l1" and "chain_from P [] l2" and "end_hash [] l1 = end_hash [] l2"
    and "list_all (plain_entry P) l1" and "list_all (plain_entry P) l2"
    and "\<forall>e \<in> set l1. \<forall>f \<in> set l2. sha256 P (hashed_text P e) = sha256 P (hashed_text P f) \<longrightarrow> hashed_text P e = hashed_text P f"
  shows "map (hash_v2_fields P) l1 = map (hash_v2_fields P) l2"
  using assms(2-)
proof (induction l1 arbitrary: l2 rule: rev_induct)
  case Nil
  then have "l2 = []"
    using expected_hash_not_Nil [OF assms(1)] by (cases l2 rule: rev_cases) (auto simp: end_hash_def)
  then show ?case by simp
next
  case (snoc x xs)
  then obtain y ys where l2: "l2 = ys @ [y]"
    using expected_hash_not_Nil [OF assms(1)] by (cases l2 rule: rev_cases) (auto simp: end_hash_def)
  have x: "plain_entry P x" "expected_hash P x = ae_entry_hash x" "ae_previous_hash x = end_hash [] xs"
    and y: "plain_entry P y" "expected_hash P y = ae_entry_hash y" "ae_previous_hash y = end_hash [] ys"
    and same: "ae_entry_hash x = ae_entry_hash y"
    using snoc.prems l2 by auto
  have "hex_encode (sha256 P (hashed_text P x)) = hex_encode (sha256 P (hashed_text P y))"
    using x y same by (simp add: plain_entry_def expected_hash_def auditEntryHashV2_def hashed_text_def)
  then have "sha256 P (hashed_text P x) = sha256 P (hashed_text P y)" by (rule hex_encode_inj)
  then have "hashed_text P x = hashed_text P y" using snoc.prems(6) l2 by simp
  then have f: "hash_v2_fields P x = hash_v2_fields P y" by (rule hash_v2_fields_eq [OF x(1) y(1)])
  then have "end_hash [] xs = end_hash [] ys" using x(3) y(3) previous_hash_field by metis
  then have "map (hash_v2_fields P) xs = map (hash_v2_fields P) ys"
    using snoc.prems l2 by (intro snoc.IH) auto
  with f l2 show ?case by simp
qed

subsection \<open>Ranges\<close>

lemma range_start_hash_ok:
  assumes "sorted_wrt (\<lambda>e f. ae_sequence e < ae_sequence f \<and> ae_occurred_at e \<le> ae_occurred_at f) es"
    and "\<forall>a \<in> set anchors. an_last_sequence a < start"
  shows "range_start_hash anchors es start = end_hash (base_hash anchors) (filter (\<lambda>e. ae_sequence e < start) es)"
proof -
  have "filter (\<lambda>a. an_last_sequence a < start) anchors = anchors" using assms(2) by simp
  then show ?thesis by (simp add: range_start_hash_def end_hash_def base_hash_def)
qed

lemma range_chain:
  assumes srt: "sorted_wrt (\<lambda>e f. ae_sequence e < ae_sequence f \<and> ae_occurred_at e \<le> ae_occurred_at f) es"
    and chain: "chain_from P h es"
  shows "chain_from P (end_hash h (filter (\<lambda>e. ae_sequence e < start) es)) (rows_between start stop es)"
proof -
  let ?low = "filter (\<lambda>e. ae_sequence e < start) es" and ?high = "filter (\<lambda>e. \<not> ae_sequence e < start) es"
  let ?in = "filter (\<lambda>e. ae_sequence e \<le> stop) ?high" and ?out = "filter (\<lambda>e. \<not> ae_sequence e \<le> stop) ?high"
  have "es = ?low @ ?high"
    by (rule filter_split) (rule sorted_wrt_mono_rel [OF _ srt], auto)
  moreover have "?high = ?in @ ?out"
    by (rule filter_split) (rule sorted_wrt_mono_rel [OF _ sorted_wrt_filter [OF srt]], auto)
  moreover have "?in = rows_between start stop es"
    by (simp add: rows_between_def not_less conj_commute)
  ultimately show ?thesis using chain chain_from_append by metis
qed

subsection \<open>A small ledger\<close>

lemma pad32_not_Nil [simp]: "pad32 m \<noteq> []"
  by (simp flip: length_0_conv)

lemma hex_digit_not_space: "n < 16 \<Longrightarrow> \<not> is_space (hex_digit n)"
  by (simp add: is_space_def hex_digit_def of_char_of)

lemma trim_hex_not_Nil: "bs \<noteq> [] \<Longrightarrow> trim_space (hex_encode bs) \<noteq> []"
proof -
  assume "bs \<noteq> []"
  then obtain c cs where bs: "bs = c # cs" by (cases bs) auto
  have "\<not> is_space (hex_digit (of_char c div 16))"
    by (rule hex_digit_not_space) (rule less_mult_imp_div_less, use of_char_less_256 [of c] in simp)
  then show "trim_space (hex_encode bs) \<noteq> []"
    by (simp add: bs hex_encode_simps trim_space_def dropWhile_eq_Nil_conv del: dropWhile.simps(1))
qed

definition demo_auditlib :: auditlib where
  "demo_auditlib = signlib.extend
     (demo_signlib\<lparr>encode_checkpoint := (\<lambda>c. Some (cp_head c)),
        decode_checkpoint := (\<lambda>b. Some \<lparr>cp_sequence = 1, cp_head = b, cp_created_at = Some 0, cp_key_id = [], cp_signature = []\<rparr>)\<rparr>)
     \<lparr>rfc3339_nano = itoa, marshal_json = (\<lambda>j. ''{}''), jsonb_text = (\<lambda>s. s)\<rparr>"

lemma demo_auditlib_simps [simp]:
  "sha256 demo_auditlib = pad32" "ed25519_verify demo_auditlib pub m sg \<longleftrightarrow> sg = pub @ pad32 m"
  "ed25519_sign demo_auditlib key m = drop 32 key @ pad32 m" "public_key demo_auditlib = drop 32"
  "encode_checkpoint demo_auditlib c = Some (cp_head c)" "rfc3339_nano demo_auditlib = itoa"
  "decode_checkpoint demo_auditlib b =
     Some \<lparr>cp_sequence = 1, cp_head = b, cp_created_at = Some 0, cp_key_id = [], cp_signature = []\<rparr>"
  "marshal_json demo_auditlib j = ''{}''" "jsonb_text demo_auditlib s = s"
  by (simp_all add: demo_auditlib_def demo_signlib_def demo_protolib_def protolib.extend_def signlib.extend_def)

lemma demo_auditlib_laws: "jsonb_faithful demo_auditlib" "sha256_size demo_auditlib"
  by (simp_all add: jsonb_faithful_def sha256_size_def)

definition demo_log :: "audit_entry list" where
  "demo_log = appendAuditTx demo_auditlib 1 0 ''user'' ''u1'' ''login'' ''session'' ''s1'' JNull []"

definition demo_ledger :: ledger where
  "demo_ledger = \<lparr>led_entries = demo_log, led_anchors = [], led_file = []\<rparr>"

lemma demo_log_row:
  obtains e where "demo_log = [e]" and "ae_sequence e = 1" and "ae_occurred_at e = 0" and "plain_entry demo_auditlib e"
    and "chain_from demo_auditlib [] [e]" and "ae_entry_hash e = hex_encode (pad32 (hashed_text demo_auditlib e))"
  by (simp add: demo_log_def appendAuditTx_def appendAuditRecordTx_def Let_def plain_entry_def hash_v2_fields_def
      auditSchemaVersion_def no_coordinates_def itoa_def nat_digits.simps [of 0] canonical_details_def expected_hash_def
      auditEntryHashV2_def hashed_text_def char_of_def)

lemma demo_ledger_reach: "ledger_reach demo_auditlib net demo_ledger"
  using ledger_reach.append [OF ledger_reach.empty [of demo_auditlib net "[]"], of 1 0 "''user''" "''u1''" "''login''" "''session''" "''s1''"
      no_coordinates JNull]
  by (simp add: demo_ledger_def demo_log_def appendAuditTx_def)

subsection \<open>Properties\<close>

text \<open>
  C17: after any history of appends and of retention runs that leave a row behind, recomputing any
  range past the last anchor reports a valid chain, whose end is the hash of the last row of the
  range and whose count is the number of rows.
\<close>

theorem audit_history_verifies:
  assumes "jsonb_faithful P" and "ledger_reach P net L"
    and "\<forall>a \<in> set (led_anchors L). an_last_sequence a < start"
    and "rows_between start stop (led_entries L) \<noteq> []" and "length (rows_between start stop (led_entries L)) < 2 ^ 31"
  shows "\<exists>r. verifyAuditRange P (led_anchors L) (led_entries L) start stop = Inr r \<and> vc_Valid r \<and>
    vc_EndHash r = ae_entry_hash (last (rows_between start stop (led_entries L))) \<and>
    vc_EntriesChecked r = int (length (rows_between start stop (led_entries L)))"
proof -
  have ok: "chain_from P (base_hash (led_anchors L)) (led_entries L)"
    "sorted_wrt (\<lambda>e f. ae_sequence e < ae_sequence f \<and> ae_occurred_at e \<le> ae_occurred_at f) (led_entries L)"
    using reach_ok [OF assms(2,1)] by (simp_all add: ledger_ok_def)
  obtain sh where v: "verifyAuditRange P (led_anchors L) (led_entries L) start stop =
    Inr \<lparr>vc_Valid = chain_from P (range_start_hash (led_anchors L) (led_entries L) start) (rows_between start stop (led_entries L)),
      vc_StartHash = sh, vc_EndHash = end_hash [] (rows_between start stop (led_entries L)),
      vc_EntriesChecked = int (length (rows_between start stop (led_entries L)))\<rparr>"
    by (rule verifyAuditRange_valid [OF assms(4,5)])
  have "chain_from P (range_start_hash (led_anchors L) (led_entries L) start) (rows_between start stop (led_entries L))"
    unfolding range_start_hash_ok [OF ok(2) assms(3)] by (rule range_chain [OF ok(2,1)])
  with v assms(4) show ?thesis by (simp add: end_hash_def)
qed

theorem audit_history_verifies_witness:
  "\<exists>r. verifyAuditRange demo_auditlib [] demo_log 1 1 = Inr r \<and> vc_Valid r \<and> vc_EntriesChecked r = 1"
proof -
  obtain e where e: "demo_log = [e]" "ae_sequence e = 1" by (rule demo_log_row)
  have rows: "rows_between 1 1 (led_entries demo_ledger) = [e]" by (simp add: rows_between_def demo_ledger_def e)
  have "\<exists>r. verifyAuditRange demo_auditlib (led_anchors demo_ledger) (led_entries demo_ledger) 1 1 = Inr r \<and> vc_Valid r \<and>
    vc_EndHash r = ae_entry_hash (last (rows_between 1 1 (led_entries demo_ledger))) \<and>
    vc_EntriesChecked r = int (length (rows_between 1 1 (led_entries demo_ledger)))"
    by (rule audit_history_verifies [OF demo_auditlib_laws(1) demo_ledger_reach])
       (simp add: demo_ledger_def, simp_all only: rows, simp_all)
  then show ?thesis unfolding rows by (auto simp: demo_ledger_def)
qed



text \<open>
  The hashed text joins the fields with line breaks and no length, so a line break inside a field
  moves a boundary: records that differ in actor and action have the same hash.
\<close>

theorem audit_hash_field_boundary:
  "auditEntryHashV2 P (e\<lparr>ae_actor_id := a @ [CHR 0x0A] @ b, ae_action := c\<rparr>) =
   auditEntryHashV2 P (e\<lparr>ae_actor_id := a, ae_action := b @ [CHR 0x0A] @ c\<rparr>)"
  using join_with_nested [of "[CHR 0x0A]" "[auditSchemaVersion, rfc3339_nano P (ae_occurred_at e), ae_actor_type e]" a b c]
  by (simp add: auditEntryHashV2_def hash_v2_fields_def Let_def)

text \<open>
  C40: when retention drops the last remaining partition, the next append starts again from the empty
  hash although the anchor holds the head, and verifying the new entry reports a broken chain.
\<close>

theorem retention_of_all_rows_breaks_chain:
  assumes "sha256_size P" and "jsonb_faithful P" and "ledger_reach P net L" and "led_entries L \<noteq> []"
    and "checkpointAndDropAuditPartition P net now signer name lo hi L = (res, L')" and "led_entries L' = []"
    and "\<forall>a \<in> set (led_anchors L'). an_last_sequence a < seq"
  shows "\<exists>r. verifyAuditRange P (led_anchors L')
      (appendAuditRecordTx P seq later actorType actorID action objectType objectID coordinates details (led_entries L')) seq seq
      = Inr r \<and> \<not> vc_Valid r"
proof -
  let ?new = "appendAuditRecordTx P seq later actorType actorID action objectType objectID coordinates details []"
  let ?rows = "filter (\<lambda>e. lo \<le> ae_occurred_at e \<and> ae_occurred_at e < hi) (led_entries L)"
  have ok: "ledger_ok P L" by (rule reach_ok [OF assms(3,2)])
  have changed: "\<not> (led_entries L' = led_entries L \<and> led_anchors L' = led_anchors L)" using assms(4,6) by simp
  obtain a where rows: "?rows \<noteq> []" and as': "led_anchors L' = put_anchor a (led_anchors L)"
    and a: "an_last_sequence a = ae_sequence (last ?rows)" "an_last_hash a = ae_entry_hash (last ?rows)"
    by (rule drop_shape [OF assms(5) changed]) (rule that)
  have mem: "last ?rows \<in> set (led_entries L)" using last_in_set [OF rows] by auto
  have "newest_anchor (led_anchors L') = Some a"
    unfolding as' put_anchor_def using ok mem a(1) by (intro newest_anchor_snoc) (auto simp: ledger_ok_def)
  moreover have "ae_entry_hash (last ?rows) = expected_hash P (last ?rows)"
    using ok mem by (intro chain_hash [of P "base_hash (led_anchors L)" "led_entries L"]) (simp_all add: ledger_ok_def)
  then have "ae_entry_hash (last ?rows) \<noteq> []" using expected_hash_not_Nil [OF assms(1)] by simp
  moreover obtain e where e: "?new = [e]" "ae_sequence e = seq" "ae_previous_hash e = []"
    by (rule append_first)
  moreover have "filter (\<lambda>a. an_last_sequence a < seq) (led_anchors L') = led_anchors L'" using assms(7) by simp
  ultimately have h: "range_start_hash (led_anchors L') ?new seq \<noteq> ae_previous_hash e"
    using a(2) by (simp add: range_start_hash_def)
  obtain sh where "verifyAuditRange P (led_anchors L') ?new seq seq =
    Inr \<lparr>vc_Valid = chain_from P (range_start_hash (led_anchors L') ?new seq) (rows_between seq seq ?new), vc_StartHash = sh,
      vc_EndHash = end_hash [] (rows_between seq seq ?new), vc_EntriesChecked = int (length (rows_between seq seq ?new))\<rparr>"
    by (rule verifyAuditRange_valid [of seq seq ?new P "led_anchors L'"]) (use e in \<open>simp_all add: rows_between_def\<close>)
  then show ?thesis using h e assms(6) by (simp add: rows_between_def)
qed

theorem retention_of_all_rows_breaks_chain_witness:
  "\<exists>n L' r. checkpointAndDropAuditPartition demo_auditlib (\<lambda>_ _. None) 5 (MemorySigner demo_key False) ''audit_entries_202601'' 0 100
        demo_ledger = (Inr n, L') \<and> n = 1 \<and> led_entries L' = [] \<and>
     verifyAuditRange demo_auditlib (led_anchors L')
       (appendAuditRecordTx demo_auditlib 2 200 ''user'' ''u1'' ''logout'' ''session'' ''s1'' no_coordinates JNull (led_entries L')) 2 2
     = Inr r \<and> \<not> vc_Valid r"
proof -
  obtain e where e: "demo_log = [e]" "ae_sequence e = 1" "ae_occurred_at e = 0"
    and h: "ae_entry_hash e = hex_encode (pad32 (hashed_text demo_auditlib e))"
    by (rule demo_log_row)
  have "trim_space (ae_entry_hash e) \<noteq> []" unfolding h by (rule trim_hex_not_Nil) simp
  moreover from this have "ae_entry_hash e \<noteq> []" by auto
  ultimately obtain sig out where "sign_and_write demo_auditlib (\<lambda>_ _. None) 5 1 (ae_entry_hash e) (MemorySigner demo_key False) []
      = (None, sig, out)"
    by (simp add: sign_and_write_def SignAuditCheckpointWithSigner_def auditCheckpointEnvelope_def canonicalAuditCheckpoint_def
        sign_with_def WriteSignedAuditCheckpoint_def signer_KeyID_def KeyID_def demo_key_def go_simps Let_def)
  then obtain L' where d: "checkpointAndDropAuditPartition demo_auditlib (\<lambda>_ _. None) 5 (MemorySigner demo_key False)
      ''audit_entries_202601'' 0 100 demo_ledger = (Inr 1, L')" and L': "led_entries L' = []"
    and as': "\<forall>a \<in> set (led_anchors L'). an_last_sequence a < 2"
    by (simp add: checkpointAndDropAuditPartition_def demo_ledger_def e put_anchor_def)
  have "led_entries demo_ledger \<noteq> []" by (simp add: demo_ledger_def e)
  from retention_of_all_rows_breaks_chain [OF demo_auditlib_laws(2,1) demo_ledger_reach this d L' as'] d L'
  show ?thesis by blast
qed

text \<open>The checkpoint file.\<close>

definition good_head :: "string \<Rightarrow> bool" where
  "good_head h \<longleftrightarrow> h \<noteq> [] \<and> list_all (\<lambda>c. \<not> is_space c) h \<and> length h \<le> 60000"

definition checkpoint_line :: "int \<times> string \<Rightarrow> string" where
  "checkpoint_line r = itoa (fst r) @ '' '' @ snd r"

lemma itoa_no_space: "c \<in> set (itoa i) \<Longrightarrow> \<not> is_space c"
proof -
  assume "c \<in> set (itoa i)"
  then have "c = CHR ''-'' \<or> (48 \<le> (of_char c :: nat) \<and> (of_char c :: nat) \<le> 57)"
    using digit_chars by (auto simp: itoa_def split: if_splits)
  then show ?thesis by (auto simp: is_space_def)
qed

lemma split_lines:
  "(\<And>l. l \<in> set ls \<Longrightarrow> CHR 0x0A \<notin> set l) \<Longrightarrow> split_on (CHR 0x0A) (concat (map (\<lambda>l. l @ [CHR 0x0A]) ls)) = ls @ [[]]"
  by (induction ls) (simp_all add: split_on_append)

lemma space_chars [simp]: "is_space (CHR 0x0A)" "is_space (CHR 0x0D)" "is_space (CHR '' '')"
  by (simp_all add: is_space_def)

lemma trim_space_id:
  assumes "s \<noteq> []" and "\<not> is_space (hd s)" and "\<not> is_space (last s)"
  shows "trim_space s = s"
proof -
  have "dropWhile is_space s = s" using assms by (cases s) auto
  moreover have "dropWhile is_space (rev s) = rev s" using assms by (cases s rule: rev_cases) auto
  ultimately show ?thesis by (simp add: trim_space_def)
qed

lemma trim_suffix_id: "last s \<noteq> c \<Longrightarrow> trim_suffix s [c] = s"
  by (cases s rule: rev_cases) (auto simp: trim_suffix_def has_suffix_def)

lemma checkpoint_line_read:
  assumes "good_head h"
  shows "trim_suffix (checkpoint_line (n, h)) [CHR 0x0D] = checkpoint_line (n, h)"
    and "trim_space (checkpoint_line (n, h)) = checkpoint_line (n, h)"
    and "split_fields (checkpoint_line (n, h)) = [itoa n, h]"
    and "CHR 0x0A \<notin> set (checkpoint_line (n, h))"
proof -
  have h: "h \<noteq> []" "\<And>c. c \<in> set h \<Longrightarrow> \<not> is_space c" using assms by (auto simp: good_head_def list_all_iff)
  have i: "itoa n \<noteq> []" by (simp add: itoa_def)
  have last: "last (checkpoint_line (n, h)) = last h" and hd: "hd (checkpoint_line (n, h)) = hd (itoa n)"
    using h i by (simp_all add: checkpoint_line_def)
  have "last h \<noteq> CHR 0x0D" using h(2) [OF last_in_set [OF h(1)]] by auto
  then show "trim_suffix (checkpoint_line (n, h)) [CHR 0x0D] = checkpoint_line (n, h)"
    using last by (intro trim_suffix_id) simp
  show t: "trim_space (checkpoint_line (n, h)) = checkpoint_line (n, h)"
    using h(2) [OF last_in_set [OF h(1)]] itoa_no_space [OF hd_in_set [OF i]] i h(1)
    by (intro trim_space_id) (simp_all add: last hd checkpoint_line_def)
  have "map (\<lambda>c. if is_space c then CHR '' '' else c) (checkpoint_line (n, h)) = itoa n @ CHR '' '' # h"
    using h(2) itoa_no_space by (auto simp: checkpoint_line_def intro!: map_idI)
  moreover have nsp: "CHR '' '' \<notin> set h" "CHR '' '' \<notin> set (itoa n)"
    using h(2) [of "CHR '' ''"] itoa_no_space [of "CHR '' ''" n] by auto
  have "split_on (CHR '' '') (itoa n @ CHR '' '' # h) = [itoa n, h]"
    using nsp by (simp add: split_on_append split_on_single)
  ultimately show "split_fields (checkpoint_line (n, h)) = [itoa n, h]" using h(1) i by (simp add: split_fields_def)
  show "CHR 0x0A \<notin> set (checkpoint_line (n, h))"
    using h(2) [of "CHR 0x0A"] itoa_no_space [of "CHR 0x0A" n] by (auto simp: checkpoint_line_def)
qed

definition write_checkpoints :: "(int \<times> string) list \<Rightarrow> string" where
  "write_checkpoints rs = foldl (\<lambda>f (seq, head). snd (WriteAuditCheckpoint f seq head)) [] rs"

definition good_record :: "int \<times> string \<Rightarrow> bool" where
  "good_record r \<longleftrightarrow> - (2 ^ 63) \<le> fst r \<and> fst r < 2 ^ 63 \<and> good_head (snd r)"

lemma good_head_trim: "good_head h \<Longrightarrow> trim_space h \<noteq> []"
  by (subst trim_space_id) (auto simp: good_head_def list_all_iff)

lemma write_checkpoints_text:
  "list_all good_record rs \<Longrightarrow> write_checkpoints rs = concat (map (\<lambda>l. l @ [CHR 0x0A]) (map checkpoint_line rs))"
proof (induction rs rule: rev_induct)
  case (snoc r rs)
  then show ?case
    by (cases r) (simp add: write_checkpoints_def WriteAuditCheckpoint_def good_head_trim good_record_def checkpoint_line_def)
qed (simp add: write_checkpoints_def)

lemma scan_checkpoints:
  assumes "list_all good_record rs"
  shows "scan_lines (write_checkpoints rs) = map checkpoint_line rs"
proof -
  have "split_on (CHR 0x0A) (write_checkpoints rs) = map checkpoint_line rs @ [[]]"
    unfolding write_checkpoints_text [OF assms]
    using assms checkpoint_line_read(4) by (intro split_lines) (auto simp: good_record_def list_all_iff)
  moreover have "map (\<lambda>l. trim_suffix l [CHR 0x0D]) (map checkpoint_line rs) = map checkpoint_line rs"
    using assms checkpoint_line_read(1) by (auto simp: good_record_def list_all_iff)
  ultimately show ?thesis by (simp add: scan_lines_def Let_def)
qed

lemma length_nat_digits: "n < 10 ^ k \<Longrightarrow> 0 < k \<Longrightarrow> length (nat_digits n) \<le> k"
proof (induction k arbitrary: n)
  case (Suc k)
  show ?case
  proof (cases "n < 10")
    case False
    then have "0 < k" using Suc.prems(1) by (cases k) auto
    moreover have "n div 10 < 10 ^ k" using Suc.prems(1) by (intro less_mult_imp_div_less) (simp add: mult.commute)
    ultimately show ?thesis using Suc.IH [of "n div 10"] False by (simp add: nat_digits.simps [of n])
  qed (simp add: nat_digits.simps [of n])
qed simp

lemma checkpoint_line_short:
  assumes "good_record r"
  shows "length (checkpoint_line r) < 65536"
proof -
  have "length (nat_digits (nat \<bar>fst r\<bar>)) \<le> 19"
    using assms by (intro length_nat_digits) (auto simp: good_record_def)
  then have "length (itoa (fst r)) \<le> 20" by (simp add: itoa_def abs_if split: if_splits)
  then show ?thesis using assms by (simp add: checkpoint_line_def good_record_def good_head_def)
qed

lemma checkpoint_records_read:
  "list_all good_record rs \<Longrightarrow> checkpoint_records x (map checkpoint_line rs) = Inr (last (x # rs))"
proof (induction rs arbitrary: x)
  case (Cons r rs)
  obtain n h where r: "r = (n, h)" by (cases r)
  have g: "good_head h" "atoi (itoa n) = Some n" "\<not> 65536 \<le> length (checkpoint_line r)"
    using Cons.prems checkpoint_line_short [of r] by (auto simp: r good_record_def atoi_itoa)
  moreover have "checkpoint_line r \<noteq> []" by (simp add: checkpoint_line_def)
  ultimately show ?case
    using Cons checkpoint_line_read(2,3) [OF g(1), of n] by (simp add: r)
qed simp

text \<open>
  The plain checkpoint file reads back what was written: after any sequence of records, exactly the
  last one verifies against the ledger head, and an empty file verifies nothing.
\<close>

theorem checkpoint_file_roundtrip:
  assumes "list_all good_record rs"
  shows "VerifyAuditCheckpoint (write_checkpoints rs) seq head = None \<longleftrightarrow> rs \<noteq> [] \<and> last rs = (seq, head)"
proof -
  have "checkpoint_records (0, []) (scan_lines (write_checkpoints rs)) = Inr (last ((0, []) # rs))"
    unfolding scan_checkpoints [OF assms] by (rule checkpoint_records_read [OF assms])
  moreover have "snd (last rs) \<noteq> []" if "rs \<noteq> []"
    using assms last_in_set [OF that] by (auto simp: list_all_iff good_record_def good_head_def)
  ultimately show ?thesis
    by (cases "rs = []") (auto simp: VerifyAuditCheckpoint_def split: prod.split)
qed

theorem checkpoint_file_roundtrip_witness:
  "VerifyAuditCheckpoint (write_checkpoints [(1, ''ab''), (2, ''cd'')]) 2 ''cd'' = None \<and>
   VerifyAuditCheckpoint (write_checkpoints [(1, ''ab''), (2, ''cd'')]) 1 ''ab'' \<noteq> None"
proof -
  have "list_all good_record [(1, ''ab''), (2, ''cd'')]"
    by (simp add: good_record_def good_head_def is_space_def)
  note rt = checkpoint_file_roundtrip [OF this]
  show ?thesis by (simp add: rt)
qed

end
