(* ===== verification/Saga_Laws.thy ===== *)
theory Saga_Laws
  imports Saga Audit_Laws
begin

text \<open>
  The laws of the durable saga: whatever a worker sends, the stored state is justified by the rows, so
  a run that settles as complete or as compensated really is, and every change is in the audit chain.
\<close>

datatype saga_event =
    BindSaga run_context SagaPlan
  | RecordSaga run_context SagaReceipt
  | SettleSaga bool
  | CancelSaga bool

fun saga_step :: "'a sagalib_scheme \<Rightarrow> run_saga \<Rightarrow> saga_event \<Rightarrow> run_saga" where
  "saga_step P S (BindSaga X plan) = (case bindRunSaga P X plan S of Inl e \<Rightarrow> S | Inr S' \<Rightarrow> S')"
| "saga_step P S (RecordSaga X rc) = (case recordRunSaga P X rc S of Inl e \<Rightarrow> S | Inr S' \<Rightarrow> S')"
| "saga_step P S (SettleSaga completing) = snd (ensureRunSagaTerminal completing S)"
| "saga_step P S (CancelSaga modelEffects) = cancel_saga modelEffects S"

subsection \<open>Rows\<close>

definition row_ok :: "saga_row \<Rightarrow> bool" where
  "row_ok r \<longleftrightarrow>
     (row_action r \<in> {AEffect, ASucceeded, AUnknown} \<longrightarrow> row_effect_started r) \<and>
     (row_action r \<in> {APending, AIntent} \<longrightarrow> \<not> row_effect_started r) \<and>
     (row_comp r \<noteq> CPending \<longrightarrow> needs_compensation r)"

definition rows_justify :: "run_saga \<Rightarrow> bool" where
  "rows_justify S \<longleftrightarrow>
     (sg_state S = SReady \<longrightarrow> list_all (\<lambda>r. row_action r = ASucceeded) (sg_rows S) \<and> sg_rows S \<noteq> [] \<and> \<not> sg_cancel_requested S) \<and>
     (sg_state S = SCompensated \<longrightarrow> list_all (\<lambda>r. needs_compensation r \<longrightarrow> row_comp r = CCompensated) (sg_rows S))"

definition saga_ok :: "'a sagalib_scheme \<Rightarrow> run_saga \<Rightarrow> bool" where
  "saga_ok P S \<longleftrightarrow>
     list_all row_ok (sg_rows S) \<and> rows_justify S \<and> (sg_plan_digest S = [] \<longrightarrow> sg_rows S = []) \<and>
     (jsonb_faithful P \<longrightarrow> chain_from P [] (sg_audit S))"

lemma row_ok_fresh [simp]: "row_ok (fresh_row p)"
  by (simp add: row_ok_def fresh_row_def)

lemma apply_receipt_fields [simp]:
  "row_plan (apply_receipt rc ac row) = row_plan row" "row_action (apply_receipt rc ac row) = fst ac"
  "row_comp (apply_receipt rc ac row) = snd ac"
  "row_effect_started (apply_receipt rc ac row) \<longleftrightarrow> row_effect_started row \<or> rc_Phase rc = PhaseActionEffect"
  by (simp_all add: apply_receipt_def)

text \<open>What each accepted phase requires and does.\<close>

lemma saga_transition_cases:
  assumes "saga_transition phase row = Some ac"
  obtains (intent) "phase = PhaseActionIntent" "row_action row = APending" "ac = (AIntent, row_comp row)"
  | (effect) "phase = PhaseActionEffect" "row_action row = AIntent \<or> row_action row = AEffect" "ac = (AEffect, row_comp row)"
  | (succeeded) "phase = PhaseActionSucceeded" "row_action row = AEffect" "ac = (ASucceeded, row_comp row)"
  | (failed) "phase = PhaseActionFailed" "row_action row = AIntent \<or> row_action row = AEffect" "ac = (AFailed, row_comp row)"
  | (comp_intent) "phase = PhaseCompensationIntent" "needs_compensation row" "row_comp row = CPending \<or> row_comp row = CFailed"
      "row_action row \<in> {AEffect, ASucceeded, AFailed}"
      "row_comp row = CFailed \<longrightarrow> \<not> never (sp_CompensationReplay (row_plan row))" "ac = (row_action row, CIntent)"
  | (comp_effect) "phase = PhaseCompensationEffect" "row_comp row = CIntent \<or> row_comp row = CEffect" "ac = (row_action row, CEffect)"
  | (compensated) "phase = PhaseCompensated" "row_comp row = CEffect" "ac = (row_action row, CCompensated)"
  | (comp_failed) "phase = PhaseCompensationFailed" "row_comp row = CEffect" "ac = (row_action row, CFailed)"
  | (comp_unknown) "phase = PhaseOutcomeUnknown" "row_comp row \<noteq> CPending" "ac = (row_action row, CUnknown)"
  | (unknown) "phase = PhaseOutcomeUnknown" "row_action row = AEffect" "ac = (AUnknown, row_comp row)"
proof (cases phase)
qed (use assms that in \<open>auto simp: saga_transition_def Let_def needs_compensation_def split: if_split_asm\<close>)

lemma row_ok_apply:
  assumes "row_ok row" and "saga_transition (rc_Phase rc) row = Some ac"
  shows "row_ok (apply_receipt rc ac row)"
  using assms(2)
  by (cases rule: saga_transition_cases) (use assms(1) in \<open>auto simp: row_ok_def needs_compensation_def\<close>)

subsection \<open>Operations\<close>

lemma audit_fields [simp]:
  "sg_state (receipt_audit P X rc k S) = sg_state S" "sg_rows (receipt_audit P X rc k S) = sg_rows S"
  "sg_plan_digest (receipt_audit P X rc k S) = sg_plan_digest S"
  "sg_cancel_requested (receipt_audit P X rc k S) = sg_cancel_requested S"
  "sg_state (appendRunSagaAudit P X kd d j S) = sg_state S" "sg_rows (appendRunSagaAudit P X kd d j S) = sg_rows S"
  "sg_plan_digest (appendRunSagaAudit P X kd d j S) = sg_plan_digest S"
  "sg_cancel_requested (appendRunSagaAudit P X kd d j S) = sg_cancel_requested S"
  by (simp_all add: receipt_audit_def appendRunSagaAudit_def Let_def)

lemma append_audit_chain:
  "jsonb_faithful P \<Longrightarrow> chain_from P [] (sg_audit S) \<Longrightarrow> chain_from P [] (sg_audit (appendRunSagaAudit P X kind d j S))"
  by (simp add: appendRunSagaAudit_def Let_def appendAgentAuditTx_def append_chain)

lemma receipt_audit_chain:
  "jsonb_faithful P \<Longrightarrow> chain_from P [] (sg_audit S) \<Longrightarrow> chain_from P [] (sg_audit (receipt_audit P X rc k S))"
  by (simp only: receipt_audit_def Let_def append_audit_chain)

lemma refresh_fields [simp]:
  "sg_rows (refreshRunSagaState c e S) = sg_rows S" "sg_plan_digest (refreshRunSagaState c e S) = sg_plan_digest S"
  "sg_cancel_requested (refreshRunSagaState c e S) = sg_cancel_requested S" "sg_audit (refreshRunSagaState c e S) = sg_audit S"
  by (simp_all add: refreshRunSagaState_def Let_def)

lemma refresh_justifies:
  assumes "sg_rows S \<noteq> []"
  shows "rows_justify (refreshRunSagaState (sg_cancel_requested S) e S)"
proof -
  have "list_all (\<lambda>r. needs_compensation r \<longrightarrow> row_comp r = CCompensated) (sg_rows S)"
    if "\<not> list_ex needs_compensation (sg_rows S)"
    using that by (auto simp: list_all_iff list_ex_iff)
  then show ?thesis
    using assms by (auto simp: rows_justify_def refreshRunSagaState_def Let_def split: if_split_asm)
qed

lemma bind_ok: "saga_ok P S \<Longrightarrow> bindRunSaga P X plan S = Inr S' \<Longrightarrow> saga_ok P S'"
proof -
  assume ok: "saga_ok P S" and bind: "bindRunSaga P X plan S = Inr S'"
  consider "S' = S" | d j where "S' = appendRunSagaAudit P X ''saga_plan_bound'' d j
      (S\<lparr>sg_rows := map fresh_row (pl_Steps plan), sg_plan_digest := d, sg_state := SRunning\<rparr>)" "d \<noteq> []"
    using bind by (auto simp: bindRunSaga_def Let_def runSagaPlanDigest_def split: if_split_asm option.split_asm)
  then show "saga_ok P S'"
  proof cases
    case 2
    have "list_all row_ok (map fresh_row (pl_Steps plan))" by (simp add: list_all_iff)
    then show ?thesis using ok 2 append_audit_chain [of P "S\<lparr>sg_rows := map fresh_row (pl_Steps plan), sg_plan_digest := d, sg_state := SRunning\<rparr>"]
      by (simp add: saga_ok_def rows_justify_def)
  qed (use ok in simp)
qed

lemma transition_matches:
  "saga_transition phase row = Some ac \<Longrightarrow> currentPhaseMatches phase (fst ac) (snd ac)"
  by (erule saga_transition_cases) auto

text \<open>The stored saga after an accepted receipt of row \<open>i\<close>, before the audit entry.\<close>

definition settle_receipt :: "SagaReceipt \<Rightarrow> nat \<Rightarrow> action_phase \<times> comp_phase \<Rightarrow> run_saga \<Rightarrow> run_saga" where
  "settle_receipt rc i ac S =
     (let S1 = S\<lparr>sg_rows := (sg_rows S)[i := apply_receipt rc ac (sg_rows S ! i)]\<rparr> in
      if rc_Phase rc = PhaseOutcomeUnknown then S1\<lparr>sg_state := SUnknown, sg_cause := rc_Error rc\<rparr>
      else refreshRunSagaState (sg_cancel_requested S) (rc_Error rc) S1)"

definition receipt_fits :: "SagaReceipt \<Rightarrow> run_saga \<Rightarrow> bool" where
  "receipt_fits rc S \<longleftrightarrow>
     \<not> (rc_Sequence rc \<le> 0 \<or> trim_space (rc_StepKey rc) = [] \<or> rc_Phase rc = PhaseNone) \<and>
     \<not> (length (rc_GuardDigest rc) > 128 \<or> length (rc_ReceiptRef rc) > 2048 \<or> length (rc_Error rc) > 2048) \<and> sg_plan_digest S \<noteq> []"

lemma recordRunSaga_fits:
  assumes "recordRunSaga P X rc S = Inr S'"
  shows "receipt_fits rc S"
proof -
  have h1: "\<not> (rc_Sequence rc \<le> 0 \<or> trim_space (rc_StepKey rc) = [] \<or> rc_Phase rc = PhaseNone)"
  proof
    assume "rc_Sequence rc \<le> 0 \<or> trim_space (rc_StepKey rc) = [] \<or> rc_Phase rc = PhaseNone"
    then show False using assms by (simp only: recordRunSaga_def if_True sum.simps)
  qed
  have h2: "\<not> (length (rc_GuardDigest rc) > 128 \<or> length (rc_ReceiptRef rc) > 2048 \<or> length (rc_Error rc) > 2048)"
  proof
    assume "length (rc_GuardDigest rc) > 128 \<or> length (rc_ReceiptRef rc) > 2048 \<or> length (rc_Error rc) > 2048"
    then show False using assms h1 by (simp only: recordRunSaga_def if_True if_False sum.simps)
  qed
  have "sg_plan_digest S \<noteq> []"
    using assms unfolding recordRunSaga_def if_not_P [OF h1] if_not_P [OF h2] by (rule contrapos_pn) simp
  with h1 h2 show ?thesis unfolding receipt_fits_def by blast
qed

lemma recordRunSaga_unknown:
  assumes "receipt_fits rc S" "sg_state S = SUnknown"
  shows "recordRunSaga P X rc S = Inr S"
proof -
  note head = assms(1) [unfolded receipt_fits_def, THEN conjunct1] assms(1) [unfolded receipt_fits_def, THEN conjunct2]
  show ?thesis unfolding recordRunSaga_def if_not_P [OF head(1)] if_not_P [OF conjunct1 [OF head(2)]]
      if_not_P [OF conjunct2 [OF head(2)]] if_P [OF assms(2)] ..
qed

lemma recordRunSaga_row:
  assumes "receipt_fits rc S" "sg_state S \<noteq> SUnknown"
  shows "recordRunSaga P X rc S = (case row_index (rc_Sequence rc) S of
      None \<Rightarrow> Inl StepNotInPlan
    | Some i \<Rightarrow>
        if sp_StepKey (row_plan (sg_rows S ! i)) \<noteq> rc_StepKey rc then Inl StepKeyMismatch
        else if row_guard (sg_rows S ! i) \<noteq> [] \<and> rc_GuardDigest rc \<noteq> [] \<and> row_guard (sg_rows S ! i) \<noteq> rc_GuardDigest rc then Inl GuardChanged
        else if currentPhaseMatches (rc_Phase rc) (row_action (sg_rows S ! i)) (row_comp (sg_rows S ! i)) then Inr S
        else case saga_transition (rc_Phase rc) (sg_rows S ! i) of None \<Rightarrow> Inl InvalidTransition
          | Some ac \<Rightarrow> Inr (receipt_audit P X rc (sp_StepKey (row_plan (sg_rows S ! i))) (settle_receipt rc i ac S)))"
proof -
  note head = assms(1) [unfolded receipt_fits_def, THEN conjunct1] assms(1) [unfolded receipt_fits_def, THEN conjunct2]
  show ?thesis unfolding recordRunSaga_def if_not_P [OF head(1)] if_not_P [OF conjunct1 [OF head(2)]]
      if_not_P [OF conjunct2 [OF head(2)]] if_not_P [OF assms(2)] settle_receipt_def Let_def ..
qed

lemma recordRunSaga_cases:
  assumes "recordRunSaga P X rc S = Inr S'"
  obtains (unknown) "sg_state S = SUnknown" "S' = S"
  | (repeated) i where "row_index (rc_Sequence rc) S = Some i" "i < length (sg_rows S)" "sg_state S \<noteq> SUnknown"
      "sp_StepKey (row_plan (sg_rows S ! i)) = rc_StepKey rc"
      "currentPhaseMatches (rc_Phase rc) (row_action (sg_rows S ! i)) (row_comp (sg_rows S ! i))" "S' = S"
  | (moved) i ac where "row_index (rc_Sequence rc) S = Some i" "i < length (sg_rows S)" "sg_state S \<noteq> SUnknown"
      "sp_StepKey (row_plan (sg_rows S ! i)) = rc_StepKey rc"
      "\<not> currentPhaseMatches (rc_Phase rc) (row_action (sg_rows S ! i)) (row_comp (sg_rows S ! i))"
      "saga_transition (rc_Phase rc) (sg_rows S ! i) = Some ac"
      "S' = receipt_audit P X rc (rc_StepKey rc) (settle_receipt rc i ac S)"
      "row_guard (sg_rows S ! i) = [] \<or> rc_GuardDigest rc = [] \<or> row_guard (sg_rows S ! i) = rc_GuardDigest rc"
proof (cases "sg_state S = SUnknown")
  case True
  have "S' = S" using assms unfolding recordRunSaga_unknown [OF recordRunSaga_fits [OF assms] True] by simp
  then show ?thesis by (rule unknown [OF True])
next
  case known: False
  note body = assms [unfolded recordRunSaga_row [OF recordRunSaga_fits [OF assms] known]]
  obtain i where i: "row_index (rc_Sequence rc) S = Some i"
    using body by (cases "row_index (rc_Sequence rc) S") simp_all
  then have len: "i < length (sg_rows S)" by (auto simp: row_index_def split: if_split_asm)
  note body = body [unfolded i option.case]
  then have key: "sp_StepKey (row_plan (sg_rows S ! i)) = rc_StepKey rc" by (auto split: if_split_asm)
  show ?thesis
  proof (cases "currentPhaseMatches (rc_Phase rc) (row_action (sg_rows S ! i)) (row_comp (sg_rows S ! i))")
    case True
    then show ?thesis using body by (intro repeated [OF i len known key]) (simp_all split: if_split_asm)
  next
    case False
    obtain ac where ac: "saga_transition (rc_Phase rc) (sg_rows S ! i) = Some ac"
      using body False by (cases "saga_transition (rc_Phase rc) (sg_rows S ! i)") (simp_all split: if_split_asm)
    have "S' = receipt_audit P X rc (rc_StepKey rc) (settle_receipt rc i ac S)"
      using body False by (simp add: key ac split: if_split_asm)
    then show ?thesis by (rule moved [OF i len known key False ac]) (use body in \<open>auto split: if_split_asm\<close>)
  qed
qed

lemma settle_receipt_fields [simp]:
  "sg_rows (settle_receipt rc i ac S) = (sg_rows S)[i := apply_receipt rc ac (sg_rows S ! i)]"
  "sg_plan_digest (settle_receipt rc i ac S) = sg_plan_digest S" "sg_audit (settle_receipt rc i ac S) = sg_audit S"
  "sg_cancel_requested (settle_receipt rc i ac S) = sg_cancel_requested S"
  by (simp_all add: settle_receipt_def Let_def)

lemma settle_receipt_justifies:
  assumes "sg_rows S \<noteq> []"
  shows "rows_justify (settle_receipt rc i ac S)"
proof (cases "rc_Phase rc = PhaseOutcomeUnknown")
  case False
  then show ?thesis
    using assms refresh_justifies [of "S\<lparr>sg_rows := (sg_rows S)[i := apply_receipt rc ac (sg_rows S ! i)]\<rparr>" "rc_Error rc"]
    by (simp add: settle_receipt_def Let_def)
qed (simp add: rows_justify_def settle_receipt_def Let_def)

lemma record_ok: "saga_ok P S \<Longrightarrow> recordRunSaga P X rc S = Inr S' \<Longrightarrow> saga_ok P S'"
proof -
  assume ok: "saga_ok P S" and rcd: "recordRunSaga P X rc S = Inr S'"
  from rcd show "saga_ok P S'"
  proof (cases rule: recordRunSaga_cases)
    case (moved i ac)
    have "row_ok (sg_rows S ! i)" using ok moved(2) by (simp add: saga_ok_def list_all_length)
    then have "list_all row_ok ((sg_rows S)[i := apply_receipt rc ac (sg_rows S ! i)])"
      using ok moved(2) row_ok_apply [OF _ moved(6)] by (simp add: saga_ok_def list_all_length nth_list_update)
    moreover have "rows_justify S'"
      using moved(2) settle_receipt_justifies [of S rc i ac] by (simp only: moved(7) rows_justify_def audit_fields) force
    moreover have "jsonb_faithful P \<longrightarrow> chain_from P [] (sg_audit S')"
      using ok receipt_audit_chain [of P "settle_receipt rc i ac S"] by (simp add: moved(7) saga_ok_def)
    ultimately show ?thesis using ok by (simp add: saga_ok_def moved(7))
  qed (use ok in simp_all)
qed

lemma settle_ok: "saga_ok P S \<Longrightarrow> saga_ok P (snd (ensureRunSagaTerminal completing S))"
  by (auto simp: saga_ok_def ensureRunSagaTerminal_def rows_justify_def)

lemma cancel_ok: "saga_ok P S \<Longrightarrow> saga_ok P (cancel_saga modelEffects S)"
  by (auto simp: saga_ok_def cancel_saga_def Let_def rows_justify_def list_all_iff list_ex_iff needs_compensation_def)

interpretation saga_machine: machine "saga_step P" "saga_ok P" for P :: "'a sagalib_scheme"
proof
  fix S e
  assume "saga_ok P S"
  then show "saga_ok P (saga_step P S e)"
    by (cases e) (auto intro: bind_ok record_ok settle_ok cancel_ok split: sum.split)
qed

lemma new_saga_ok: "(jsonb_faithful P \<longrightarrow> chain_from P [] entries) \<Longrightarrow> saga_ok P (new_saga entries)"
  by (simp add: saga_ok_def new_saga_def rows_justify_def)

subsection \<open>Properties\<close>

definition demo_sagalib :: sagalib where
  "demo_sagalib = auditlib.extend (demo_auditlib\<lparr>sha256 := (\<lambda>_. []), rfc3339_nano := (\<lambda>_. [])\<rparr>) \<lparr>marshal_saga = (\<lambda>v ps. concat (map sp_StepKey ps))\<rparr>"

lemma demo_sagalib_faithful: "jsonb_faithful demo_sagalib"
  by (simp add: jsonb_faithful_def demo_sagalib_def auditlib.extend_def demo_auditlib_def signlib.extend_def demo_signlib_def
      demo_protolib_def protolib.extend_def)

definition demo_run_context :: run_context where
  "demo_run_context = \<lparr>rx_run_id = ''r'', rx_coordinates = \<lparr>co_RunID = ''r'', co_TurnID = [], co_LeaseEpoch = 1, co_BudgetID = [],
     co_PayloadDigest = []\<rparr>, rx_worker_id = ''w'', rx_seq = 1, rx_now = 0\<rparr>"

definition demo_plan :: SagaPlan where
  "demo_plan = (let plan = \<lparr>pl_SchemaVersion = runSagaSchemaVersion, pl_Steps = [\<lparr>sp_Sequence = 1, sp_StepKey = ''a'', sp_ActionReplay = ReplayNever,
     sp_HasCompensation = True, sp_CompensationReplay = ReplayNever\<rparr>], pl_PlanDigest = []\<rparr> in
     plan\<lparr>pl_PlanDigest := runSagaPlanDigest demo_sagalib plan\<rparr>)"

definition demo_receipt :: SagaReceipt where
  "demo_receipt = \<lparr>rc_Sequence = 1, rc_StepKey = ''a'', rc_Phase = PhaseActionIntent, rc_GuardDigest = [], rc_ReceiptRef = [], rc_Error = []\<rparr>"



text \<open>
  C30: receipts may be delivered more than once. A receipt the brain has accepted is accepted again and
  changes nothing, neither a row nor the state nor the audit log, whatever the replay policy of the
  step: the clause of the transition table that refuses a second effect of a never_replay step is not
  what stops a replay.
\<close>

theorem repeated_receipt_accepted:
  assumes "recordRunSaga P X rc S = Inr S'"
  shows "recordRunSaga P Y rc S' = Inr S'"
  using assms
proof (cases rule: recordRunSaga_cases)
  case (moved i ac)
  have fits: "receipt_fits rc S'" using recordRunSaga_fits [OF assms] by (simp add: receipt_fits_def moved(7))
  show ?thesis
  proof (cases "sg_state S' = SUnknown")
    case known: False
    have "row_index (rc_Sequence rc) S' = Some i" using moved(1) by (simp add: row_index_def moved(7))
    moreover have "sg_rows S' ! i = apply_receipt rc ac (sg_rows S ! i)" using moved(2) by (simp add: moved(7))
    ultimately show ?thesis
      unfolding recordRunSaga_row [OF fits known]
      using moved(4,8) transition_matches [OF moved(6)] by (auto simp: apply_receipt_def)
  qed (rule recordRunSaga_unknown [OF fits])
qed (use assms recordRunSaga_fits [OF assms] in \<open>auto simp: recordRunSaga_unknown recordRunSaga_row split: if_split_asm\<close>)


theorem repeated_receipt_accepted_witness:
  "\<exists>S. recordRunSaga demo_sagalib demo_run_context demo_receipt S = Inr S"
proof -
  have "case bindRunSaga demo_sagalib demo_run_context demo_plan (new_saga []) of Inl e \<Rightarrow> False
      | Inr S \<Rightarrow> (case recordRunSaga demo_sagalib demo_run_context demo_receipt S of Inl e \<Rightarrow> False | Inr S' \<Rightarrow> True)"
    by code_simp
  then obtain S S' where "recordRunSaga demo_sagalib demo_run_context demo_receipt S = Inr S'"
    by (auto split: sum.split_asm)
  then have "recordRunSaga demo_sagalib demo_run_context demo_receipt S' = Inr S'" by (rule repeated_receipt_accepted)
  then show ?thesis by blast
qed

end
