(* ===== verification/Saga_Executor_Laws.thy ===== *)
theory Saga_Executor_Laws
  imports Saga_Executor Saga_Laws
begin

text \<open>
  The laws of the executor over any sequence of attempts, crashes, lost messages and cancellations: a
  step or a compensation that must not be replayed crosses its effect boundary at most once.
\<close>

subsection \<open>Effects against rows\<close>

text \<open>An effect that must not be replayed happened at most once, and not at all before its boundary is recorded.\<close>

definition row_effects :: "effect list \<Rightarrow> saga_row \<Rightarrow> bool" where
  "row_effects tr r \<longleftrightarrow>
     (never (sp_ActionReplay (row_plan r)) \<longrightarrow>
        count_list tr (RunEffect (sp_StepKey (row_plan r))) \<le> (if row_action r \<in> {APending, AIntent} then 0 else 1)) \<and>
     (never (sp_CompensationReplay (row_plan r)) \<longrightarrow>
        count_list tr (CompensateEffect (sp_StepKey (row_plan r))) \<le> (if row_comp r \<in> {CPending, CIntent} then 0 else 1))"

definition step_plans :: "run_saga \<Rightarrow> SagaStepPlan list" where
  "step_plans S = map row_plan (sg_rows S)"

definition once :: "Step list \<Rightarrow> effect list \<Rightarrow> run_saga \<Rightarrow> bool" where
  "once steps tr S \<longleftrightarrow>
     list_all (row_effects tr) (sg_rows S) \<and>
     (if sg_plan_digest S = [] then sg_rows S = [] \<and> tr = [] else Some (step_plans S) = plan_step_list 0 [] steps)"

lemma row_effects_apply:
  assumes "saga_transition phase row = Some ac" "rc_Phase rc = phase" "row_effects tr row"
  shows "row_effects tr (apply_receipt rc ac row)"
  using assms(1)
  by (cases rule: saga_transition_cases) (use assms(2,3) in \<open>auto simp: row_effects_def split: if_split_asm\<close>)

lemma step_plans_simps [simp]:
  "step_plans (receipt_audit P X rc k S) = step_plans S" "step_plans (appendRunSagaAudit P X kd d j S) = step_plans S"
  "step_plans (cancel_saga m S) = step_plans S"
  by (simp_all add: step_plans_def cancel_saga_def Let_def)

lemma step_plans_settle [simp]: "step_plans (settle_receipt rc i ac S) = step_plans S"
  by (cases "i < length (sg_rows S)") (auto simp: step_plans_def map_update list_update_beyond intro: list_update_same_conv [THEN iffD2])

lemma record_once:
  assumes "once steps tr S" "recordRunSaga P X rc S = Inr S'"
  shows "once steps tr S'"
  using assms(2)
proof (cases rule: recordRunSaga_cases)
  case (moved i ac)
  have "row_effects tr (sg_rows S ! i)" using assms(1) moved(2) by (simp add: once_def list_all_length)
  then have "row_effects tr (apply_receipt rc ac (sg_rows S ! i))" by (rule row_effects_apply [OF moved(6) refl])
  then have "list_all (row_effects tr) (sg_rows S')"
    using assms(1) moved(2) by (simp add: moved(7) once_def list_all_length nth_list_update)
  then show ?thesis using assms(1) moved(2) by (auto simp: once_def moved(7) split: if_split_asm)
qed (use assms in simp_all)

lemma cancel_once: "once steps tr S \<Longrightarrow> once steps tr (cancel_saga m S)"
  by (auto simp: once_def cancel_saga_def Let_def step_plans_def)

lemma cancels_once: "once steps tr (w_db w) \<Longrightarrow> once steps tr (cancels E w)"
  by (auto simp: cancels_def intro: cancel_once split: option.split)

lemma bind_once:
  assumes "once steps tr S" "buildSagaPlan P steps = Some plan" "bindRunSaga P X plan S = Inr S'"
  shows "once steps tr S'"
proof (cases "sg_plan_digest S = []")
  case False
  then show ?thesis using assms(1,3) by (auto simp: bindRunSaga_def Let_def split: if_split_asm option.split_asm)
next
  case True
  have ps: "plan_step_list 0 [] steps = Some (pl_Steps plan)"
    using assms(2) by (auto simp: buildSagaPlan_def Let_def split: option.split_asm)
  from True assms(3) obtain j where S': "S' = appendRunSagaAudit P X ''saga_plan_bound'' (runSagaPlanDigest P plan) j
      (S\<lparr>sg_rows := map fresh_row (pl_Steps plan), sg_plan_digest := runSagaPlanDigest P plan, sg_state := SRunning\<rparr>)"
    by (auto simp: bindRunSaga_def Let_def split: if_split_asm option.split_asm)
  have "list_all (row_effects tr) (map fresh_row (pl_Steps plan))"
    using assms(1) True by (auto simp: once_def list_all_iff row_effects_def fresh_row_def)
  then show ?thesis
    by (simp add: once_def S' step_plans_def ps runSagaPlanDigest_def o_def fresh_row_def)
qed

subsection \<open>What a recorded receipt leaves\<close>

lemma settle_state: "rc_Phase rc \<noteq> PhaseOutcomeUnknown \<Longrightarrow> sg_state (settle_receipt rc i ac S) \<noteq> SUnknown"
  by (auto simp: settle_receipt_def refreshRunSagaState_def Let_def)

lemma receipt_of_simps [simp]:
  "rc_Sequence (receipt_of i name phase g ref err) = int (i + 1)" "rc_StepKey (receipt_of i name phase g ref err) = name"
  "rc_Phase (receipt_of i name phase g ref err) = phase" "rc_GuardDigest (receipt_of i name phase g ref err) = g"
  "rc_ReceiptRef (receipt_of i name phase g ref err) = ref" "rc_Error (receipt_of i name phase g ref err) = err"
  by (simp_all add: receipt_of_def)

lemma row_index_Suc: "row_index (1 + int i) S = (if i < length (sg_rows S) then Some i else None)"
  by (simp add: row_index_def nat_add_distrib Suc_le_eq)

lemma record_live:
  assumes "recordRunSaga P X (receipt_of i name phase g ref err) S = Inr S'" and "sg_state S \<noteq> SUnknown"
  shows "i < length (sg_rows S')" and "sp_StepKey (row_plan (sg_rows S' ! i)) = name"
    and "currentPhaseMatches phase (row_action (sg_rows S' ! i)) (row_comp (sg_rows S' ! i))"
    and "phase \<noteq> PhaseOutcomeUnknown \<Longrightarrow> sg_state S' \<noteq> SUnknown"
proof -
  have "i < length (sg_rows S') \<and> sp_StepKey (row_plan (sg_rows S' ! i)) = name \<and>
      currentPhaseMatches phase (row_action (sg_rows S' ! i)) (row_comp (sg_rows S' ! i)) \<and>
      (phase \<noteq> PhaseOutcomeUnknown \<longrightarrow> sg_state S' \<noteq> SUnknown)"
    using assms(1)
  proof (cases rule: recordRunSaga_cases)
    case (repeated j)
    then show ?thesis by (simp add: row_index_Suc split: if_split_asm)
  next
    case (moved j ac)
    then have j: "j = i" by (simp add: row_index_Suc split: if_split_asm)
    then show ?thesis using moved transition_matches [OF moved(6)] settle_state [of "receipt_of i name phase g ref err" i ac S]
      by simp
  qed (use assms(2) in simp)
  then show "i < length (sg_rows S')" "sp_StepKey (row_plan (sg_rows S' ! i)) = name"
    "currentPhaseMatches phase (row_action (sg_rows S' ! i)) (row_comp (sg_rows S' ! i))"
    "phase \<noteq> PhaseOutcomeUnknown \<Longrightarrow> sg_state S' \<noteq> SUnknown"
    by simp_all
qed

lemma cancels_simps [simp]:
  "sg_rows (cancels E w) = sg_rows (w_db w)" "sg_plan_digest (cancels E w) = sg_plan_digest (w_db w)"
  by (simp_all add: cancels_def cancel_saga_def Let_def split: option.split)

lemma cancels_live: "sg_state (w_db w) \<noteq> SUnknown \<Longrightarrow> sg_state (cancels E w) \<noteq> SUnknown"
  by (simp add: cancels_def cancel_saga_def Let_def split: option.split)

lemma log_event_simps [simp]:
  "w_db (log_event e w) = w_db w" "w_effects (log_event e w) = w_effects w" "w_clock (log_event e w) = w_clock w"
  "w_budgets (log_event e w) = w_budgets w"
  by (simp_all add: log_event_def)

subsection \<open>Rules for the calls of an attempt\<close>

text \<open>An attempt keeps \<^const>\<open>once\<close>, whatever it returns.\<close>

definition keeps :: "Step list \<Rightarrow> attempt_result \<times> saga_world \<Rightarrow> bool" where
  "keeps steps r \<longleftrightarrow> once steps (w_effects (snd r)) (w_db (snd r))"

lemma with_journal_keeps:
  assumes ok: "once steps (w_effects w) (w_db w)"
    and req: "\<And>X S S'. once steps (w_effects w) S \<Longrightarrow> request X S = Inr S' \<Longrightarrow> once steps (w_effects w) S'"
    and k: "\<And>X w'. request X (cancels E w) = Inr (w_db w') \<Longrightarrow> w_effects w' = w_effects w \<Longrightarrow>
      once steps (w_effects w') (w_db w') \<Longrightarrow> keeps steps (k (loadRunSagaSnapshot (w_db w')) w')"
  shows "keeps steps (with_journal E request fail k w)"
proof -
  note db = cancels_once [OF ok, of E]
  show ?thesis
  proof (cases "request (en_context E (w_clock w)) (cancels E w)")
    case (Inl e)
    then show ?thesis using db by (simp add: with_journal_def journal_call_def Let_def keeps_def split: fault.split)
  next
    case (Inr S')
    let ?w' = "w\<lparr>w_clock := w_clock w + 1, w_db := S'\<rparr>"
    have S': "once steps (w_effects w) S'" using req [OF db Inr] .
    then have "keeps steps (k (loadRunSagaSnapshot S') ?w')" using k [of "en_context E (w_clock w)" ?w'] Inr by simp
    then show ?thesis using db S' Inr
      by (simp add: with_journal_def journal_call_def Let_def keeps_def split: fault.split)
  qed
qed

lemma receipt_keeps:
  assumes "once steps (w_effects w) (w_db w)"
    and "\<And>X w'. recordRunSaga P X rc (cancels E w) = Inr (w_db w') \<Longrightarrow> w_effects w' = w_effects w \<Longrightarrow>
      once steps (w_effects w') (w_db w') \<Longrightarrow> keeps steps (k (loadRunSagaSnapshot (w_db w')) w')"
  shows "keeps steps (with_journal E (\<lambda>X. recordRunSaga P X rc) fail k w)"
  by (rule with_journal_keeps) (use assms record_once in blast)+

lemma with_effect_keeps:
  assumes "\<And>r w'. w_db w' = w_db w \<Longrightarrow> w_effects w' = w_effects w @ [eff] \<Longrightarrow> keeps steps (k r w')"
    and "once steps (w_effects w @ [eff]) (w_db w)"
  shows "keeps steps (with_effect E eff k w)"
  using assms by (simp add: with_effect_def Let_def keeps_def split: effect_outcome.split)

lemma plan_step_list_keys:
  "plan_step_list i seen steps = Some ps \<Longrightarrow>
     map sp_StepKey ps = map st_Name steps \<and> distinct (map st_Name steps) \<and> set (map st_Name steps) \<inter> set seen = {}"
  by (induction steps arbitrary: i seen ps) (fastforce split: if_split_asm option.split_asm)+

lemma once_rows:
  assumes "once steps tr S" "i < length (sg_rows S)"
  shows "plan_step_list 0 [] steps = Some (step_plans S)" and "row_effects tr (sg_rows S ! i)"
  using assms by (auto simp: once_def list_all_length split: if_split_asm)

lemma once_keys_differ:
  assumes "once steps tr S" "i < length (sg_rows S)" "j < length (sg_rows S)" "i \<noteq> j"
  shows "sp_StepKey (row_plan (sg_rows S ! i)) \<noteq> sp_StepKey (row_plan (sg_rows S ! j))"
proof -
  have "distinct (map sp_StepKey (step_plans S))"
    using plan_step_list_keys [OF once_rows(1) [OF assms(1,2)]] by simp
  then show ?thesis using assms(2-4) by (simp add: step_plans_def distinct_conv_nth)
qed

text \<open>The effect of a row whose boundary is recorded and which, if it must not be replayed, has not happened.\<close>

definition may_happen :: "effect list \<Rightarrow> effect \<Rightarrow> saga_row \<Rightarrow> bool" where
  "may_happen tr eff r \<longleftrightarrow>
     (eff = RunEffect (sp_StepKey (row_plan r)) \<and> row_action r \<notin> {APending, AIntent} \<and>
        (never (sp_ActionReplay (row_plan r)) \<longrightarrow> count_list tr eff = 0) \<or>
      eff = CompensateEffect (sp_StepKey (row_plan r)) \<and> row_comp r \<notin> {CPending, CIntent} \<and>
        (never (sp_CompensationReplay (row_plan r)) \<longrightarrow> count_list tr eff = 0))"

lemma effect_once:
  assumes "once steps tr S" "i < length (sg_rows S)" "may_happen tr eff (sg_rows S ! i)"
  shows "once steps (tr @ [eff]) S"
proof -
  have "row_effects (tr @ [eff]) (sg_rows S ! j)" if j: "j < length (sg_rows S)" for j
  proof (cases "j = i")
    case True
    then show ?thesis using assms(3) once_rows(2) [OF assms(1) j] by (auto simp: may_happen_def row_effects_def)
  next
    case False
    then show ?thesis using assms(3) once_rows(2) [OF assms(1) j] once_keys_differ [OF assms(1) j assms(2) False]
      by (auto simp: may_happen_def row_effects_def)
  qed
  then show ?thesis using assms(1,2) by (auto simp: once_def list_all_length split: if_split_asm)
qed

lemma once_plan_fixed:
  assumes "once steps tr S" "once steps tr' S'" "i < length (sg_rows S)" "i < length (sg_rows S')"
  shows "row_plan (sg_rows S ! i) = row_plan (sg_rows S' ! i)"
proof -
  have "step_plans S = step_plans S'" using once_rows(1) [OF assms(1,3)] once_rows(1) [OF assms(2,4)] by simp
  then show ?thesis using assms(3,4) by (metis (no_types, lifting) nth_map step_plans_def)
qed

lemma mark_keeps: "once steps (w_effects w) (w_db w) \<Longrightarrow> keeps steps (markOutcomeUnknown P E plan reason w)"
  unfolding markOutcomeUnknown_def by (rule receipt_keeps) (simp_all add: keeps_def)

lemma when_journal_keeps:
  assumes "once steps (w_effects w) (w_db w)"
    and "\<not> needed \<Longrightarrow> keeps steps (k snapshot w)"
    and "\<And>X w'. needed \<Longrightarrow> recordRunSaga P X rc (cancels E w) = Inr (w_db w') \<Longrightarrow> w_effects w' = w_effects w \<Longrightarrow>
      once steps (w_effects w') (w_db w') \<Longrightarrow> keeps steps (k (loadRunSagaSnapshot (w_db w')) w')"
  shows "keeps steps (when_journal needed E (\<lambda>X. recordRunSaga P X rc) fail snapshot k w)"
proof (cases needed)
  case True
  then show ?thesis unfolding when_journal_def if_P [OF True] by (intro receipt_keeps assms(1,3))
qed (simp add: when_journal_def assms(2))

definition row_snapshot :: "saga_row \<Rightarrow> SagaStepSnapshot" where
  "row_snapshot r = \<lparr>ss_Plan = row_plan r, ss_ActionPhase = action_phaseProto (row_action r),
     ss_CompensationPhase = comp_phaseProto (row_comp r), ss_GuardDigest = row_guard r, ss_ActionReceiptRef = row_action_receipt r,
     ss_CompensationReceiptRef = row_comp_receipt r, ss_Error = row_error r, ss_ActionEffectStarted = row_effect_started r\<rparr>"

lemma row_snapshot_simps [simp]:
  "ss_Plan (row_snapshot r) = row_plan r" "ss_ActionPhase (row_snapshot r) = action_phaseProto (row_action r)"
  "ss_CompensationPhase (row_snapshot r) = comp_phaseProto (row_comp r)" "ss_GuardDigest (row_snapshot r) = row_guard r"
  "ss_ActionEffectStarted (row_snapshot r) = row_effect_started r" "ss_Error (row_snapshot r) = row_error r"
  by (simp_all add: row_snapshot_def)

lemma load_simps [simp]:
  "sn_Steps (loadRunSagaSnapshot S) = map row_snapshot (sg_rows S)" "sn_State (loadRunSagaSnapshot S) = sg_state S"
  "sn_PlanDigest (loadRunSagaSnapshot S) = sg_plan_digest S" "sn_CancelRequested (loadRunSagaSnapshot S) = sg_cancel_requested S"
  by (simp_all add: loadRunSagaSnapshot_def row_snapshot_def)

lemma comp_phaseProto_eq [simp]:
  "comp_phaseProto c = PhaseNone \<longleftrightarrow> c = CPending" "comp_phaseProto c = PhaseCompensationEffect \<longleftrightarrow> c = CEffect"
  "comp_phaseProto c = PhaseCompensationFailed \<longleftrightarrow> c = CFailed" "comp_phaseProto c = PhaseCompensated \<longleftrightarrow> c = CCompensated"
  "comp_phaseProto c = PhaseOutcomeUnknown \<longleftrightarrow> c = CUnknown"
  by (cases c; simp)+

lemma action_phaseProto_eq [simp]:
  "action_phaseProto a = PhaseNone \<longleftrightarrow> a = APending" "action_phaseProto a = PhaseActionEffect \<longleftrightarrow> a = AEffect"
  "action_phaseProto a = PhaseActionFailed \<longleftrightarrow> a = AFailed" "action_phaseProto a = PhaseActionSucceeded \<longleftrightarrow> a = ASucceeded"
  "action_phaseProto a = PhaseOutcomeUnknown \<longleftrightarrow> a = AUnknown"
  by (cases a; simp)+

text \<open>Where the loops stand: the saga is not settled as unknown and the row of step \<open>i\<close> is there.\<close>

definition stands :: "Step list \<Rightarrow> nat \<Rightarrow> saga_world \<Rightarrow> bool" where
  "stands steps i w \<longleftrightarrow> once steps (w_effects w) (w_db w) \<and> sg_state (w_db w) \<noteq> SUnknown \<and> i < length (sg_rows (w_db w))"

lemma stands_log [simp]: "stands steps i (log_event e w) = stands steps i w"
  by (simp add: stands_def)

lemma stands_once: "stands steps i w \<Longrightarrow> once steps (w_effects w) (w_db w)"
  by (simp add: stands_def)

text \<open>A recorded phase: the continuation finds the row there, in that phase.\<close>

lemma record_stands:
  assumes "stands steps i w" "phase \<noteq> PhaseOutcomeUnknown"
    and "\<And>w'. stands steps i w' \<Longrightarrow> w_effects w' = w_effects w \<Longrightarrow>
      currentPhaseMatches phase (row_action (sg_rows (w_db w') ! i)) (row_comp (sg_rows (w_db w') ! i)) \<Longrightarrow>
      keeps steps (k (loadRunSagaSnapshot (w_db w')) w')"
  shows "keeps steps (with_journal E (\<lambda>X. recordRunSaga P X (receipt_of i name phase g ref err)) fail k w)"
proof (rule receipt_keeps)
  fix X and w' :: saga_world
  assume rcd: "recordRunSaga P X (receipt_of i name phase g ref err) (cancels E w) = Inr (w_db w')"
    and "w_effects w' = w_effects w" "once steps (w_effects w') (w_db w')"
  note facts = record_live [OF rcd cancels_live]
  then show "keeps steps (k (loadRunSagaSnapshot (w_db w')) w')"
    using \<open>w_effects w' = w_effects w\<close> \<open>once _ _ _\<close> assms by (intro assms(3)) (auto simp: stands_def)
qed (use assms(1) in \<open>simp add: stands_def\<close>)

lemma keeps_return: "stands steps i w \<Longrightarrow> keeps steps (r, w)"
  by (simp add: keeps_def stands_def)

lemma settle_compensation_keeps:
  assumes "stands steps i w" and "\<And>w'. stands steps i w' \<Longrightarrow> keeps steps (k (loadRunSagaSnapshot (w_db w')) w')"
  shows "keeps steps (settle_compensation P E cause i name plan k err w)"
  using assms unfolding settle_compensation_def
  by (cases err) (auto intro!: record_stands mark_keeps intro: stands_once keeps_return)

text \<open>The call itself, once its boundary is recorded.\<close>

lemma effect_stands:
  assumes "stands steps i w" "may_happen (w_effects w) eff (sg_rows (w_db w) ! i)" and "\<And>r w'. stands steps i w' \<Longrightarrow> keeps steps (k r w')"
  shows "keeps steps (with_effect E eff k w)"
proof -
  have "once steps (w_effects w @ [eff]) (w_db w)"
    by (rule effect_once [OF _ _ assms(2)]) (use assms(1) in \<open>auto simp: stands_def\<close>)
  then show ?thesis using assms(1) by (intro with_effect_keeps assms(3)) (auto simp: stands_def)
qed

lemma when_stands:
  assumes "stands steps i w" "phase \<noteq> PhaseOutcomeUnknown" and "\<not> needed \<Longrightarrow> keeps steps (k snapshot w)"
    and "\<And>w'. needed \<Longrightarrow> stands steps i w' \<Longrightarrow> w_effects w' = w_effects w \<Longrightarrow>
      currentPhaseMatches phase (row_action (sg_rows (w_db w') ! i)) (row_comp (sg_rows (w_db w') ! i)) \<Longrightarrow>
      keeps steps (k (loadRunSagaSnapshot (w_db w')) w')"
  shows "keeps steps (when_journal needed E (\<lambda>X. recordRunSaga P X (receipt_of i name phase g ref err)) fail snapshot k w)"
proof (cases needed)
  case True
  then show ?thesis unfolding when_journal_def if_P [OF True] by (intro record_stands assms(1,2,4))
qed (simp add: when_journal_def assms(3))

lemma stands_plan:
  assumes "stands steps i w" "stands steps i w'"
  shows "row_plan (sg_rows (w_db w') ! i) = row_plan (sg_rows (w_db w) ! i)"
  by (rule once_plan_fixed) (use assms in \<open>auto simp: stands_def\<close>)

lemma compensate_step_keeps:
  assumes at0: "stands steps i w" and row: "row = sg_rows (w_db w) ! i" and name: "name = sp_StepKey (row_plan row)"
    and replay: "never (sp_CompensationReplay (row_plan row)) \<Longrightarrow> row_comp row \<in> {CPending, CIntent}"
    and k: "\<And>w'. stands steps i w' \<Longrightarrow> keeps steps (k (loadRunSagaSnapshot (w_db w')) w')"
  shows "keeps steps (compensate_step P E cause i name snapshot (row_snapshot row) k w)"
proof -
  have quiet: "never (sp_CompensationReplay (row_plan row)) \<Longrightarrow> count_list (w_effects w) (CompensateEffect name) = 0"
    using once_rows(2) [of steps "w_effects w" "w_db w" i] at0 replay by (simp add: row_effects_def row name stands_def)
  have crossing: "keeps steps (with_effect E (CompensateEffect name) (settle_compensation P E cause i name plan k) (log_event ev w2))"
    if at2: "stands steps i w2" and tr: "w_effects w2 = w_effects w" and c: "row_comp (sg_rows (w_db w2) ! i) = CEffect"
    for w2 ev plan
    using quiet c stands_plan [OF at0 at2]
    by (intro effect_stands settle_compensation_keeps k) (auto simp: at2 may_happen_def tr name row)
  show ?thesis
    unfolding compensate_step_def row_snapshot_simps comp_phaseProto_eq
    by (intro when_stands [where i = i] crossing) (auto simp: at0 row)
qed

subsection \<open>The loops\<close>

definition coherent :: "Step list \<Rightarrow> SagaSnapshot \<Rightarrow> saga_world \<Rightarrow> bool" where
  "coherent steps snapshot w \<longleftrightarrow> once steps (w_effects w) (w_db w) \<and> sg_state (w_db w) \<noteq> SUnknown \<and>
     sn_Steps snapshot = map row_snapshot (sg_rows (w_db w))"

lemma coherent_load: "stands steps i w \<Longrightarrow> coherent steps (loadRunSagaSnapshot (w_db w)) w"
  by (simp add: coherent_def stands_def)

lemma coherent_return: "coherent steps snapshot w \<Longrightarrow> keeps steps (r, w)"
  by (simp add: coherent_def keeps_def)

lemma sagaStepAt_row:
  assumes "sagaStepAt snapshot i name = Inr state" "coherent steps snapshot w"
  shows "stands steps i w" and "state = row_snapshot (sg_rows (w_db w) ! i)" and "name = sp_StepKey (row_plan (sg_rows (w_db w) ! i))"
  using assms by (auto simp: sagaStepAt_def coherent_def stands_def Let_def split: if_split_asm)

lemma compensateRecoverable_keeps:
  "coherent steps snapshot w \<Longrightarrow> keeps steps (compensateRecoverable n P E steps cause snapshot w)"
proof (induction n arbitrary: snapshot w)
  case (Suc i)
  show ?case
  proof (cases "sagaStepAt snapshot i (st_Name (steps ! i))")
    case (Inr state)
    note at0 = sagaStepAt_row [OF Inr Suc.prems]
    define row where "row = sg_rows (w_db w) ! i"
    have state: "state = row_snapshot row" using at0(2) by (simp add: row_def)
    have rest: "keeps steps (compensateRecoverable i P E steps cause (loadRunSagaSnapshot (w_db w')) w')" if "stands steps i w'" for w'
      using Suc.IH coherent_load that by blast
    have marked: "keeps steps (markOutcomeUnknown P E plan reason w)" for plan reason
      by (rule mark_keeps [OF stands_once [OF at0(1)]])
    have called: "(never (sp_CompensationReplay (row_plan row)) \<longrightarrow> row_comp row \<in> {CPending, CIntent}) \<longrightarrow>
        keeps steps (compensate_step P E cause i (st_Name (steps ! i)) snapshot (row_snapshot row)
          (\<lambda>snap. compensateRecoverable i P E steps cause snap) w)"
      using at0(3) by (intro impI compensate_step_keeps [OF at0(1) row_def] rest) (auto simp: row_def)
    show ?thesis
      unfolding compensateRecoverable.simps Let_def Inr sum.case state row_snapshot_simps comp_phaseProto_eq
      using Suc.IH [OF Suc.prems] marked keeps_return [OF at0(1)] called
      by (cases "row_comp row") (simp_all add: never_def)
  qed (use coherent_return [OF Suc.prems] in simp)
qed (simp add: coherent_return)

lemma settle_action_keeps:
  assumes "stands steps i w"
    and "\<And>n cause w'. stands steps i w' \<Longrightarrow> keeps steps (failed n cause (loadRunSagaSnapshot (w_db w')) w')"
    and "\<And>w'. stands steps i w' \<Longrightarrow> keeps steps (k (loadRunSagaSnapshot (w_db w')) w')"
  shows "keeps steps (settle_action P E i name guard failed k err w)"
  unfolding settle_action_def by (cases err) (auto intro!: record_stands [where i = i] assms(2,3) simp: assms(1))

lemma stands_budgets [simp]: "stands steps i (w\<lparr>w_budgets := b\<rparr>) = stands steps i w"
  by (simp add: stands_def)

lemma run_action_keeps:
  assumes at0: "stands steps i w0" and tr0: "w_effects w = w_effects w0" and at1: "stands steps i w" and row: "row = sg_rows (w_db w0) ! i"
    and same: "row_action row = AEffect \<Longrightarrow> w_db w = w_db w0"
    and name: "st_Name step = sp_StepKey (row_plan row)"
    and replay: "never (sp_ActionReplay (row_plan row)) \<Longrightarrow> row_action row \<in> {APending, AIntent}"
    and failed: "\<And>n cause w'. stands steps i w' \<Longrightarrow> keeps steps (failed n cause (loadRunSagaSnapshot (w_db w')) w')"
    and k: "\<And>w'. stands steps i w' \<Longrightarrow> keeps steps (k (loadRunSagaSnapshot (w_db w')) w')"
  shows "keeps steps (run_action P E sandbox limits i step (row_snapshot row) snapshot failed k w)"
proof -
  have quiet: "never (sp_ActionReplay (row_plan row)) \<Longrightarrow> count_list (w_effects w) (RunEffect (st_Name step)) = 0"
    using once_rows(2) [of steps "w_effects w0" "w_db w0" i] at0 replay by (simp add: row_effects_def row name stands_def tr0)
  have crossing: "keeps steps (let settle = settle_action P E i (st_Name step) guard failed k; w3 = log_event ev w2 in
      if st_Fail step then settle (Some err) w3 else if st_Run step then with_effect E (RunEffect (st_Name step)) settle w3 else settle None w3)"
    if at2: "stands steps i w2" and tr: "w_effects w2 = w_effects w" and a: "row_action (sg_rows (w_db w2) ! i) = AEffect"
    for w2 ev guard err
  proof -
    have "may_happen (w_effects w2) (RunEffect (st_Name step)) (sg_rows (w_db w2) ! i)"
      using quiet a stands_plan [OF at0 at2] by (auto simp: may_happen_def tr name row)
    then show ?thesis unfolding Let_def
      using at2 by (auto intro!: settle_action_keeps effect_stands [where i = i] failed k)
  qed
  obtain guardErr budgets where v: "validateStepGuard step sandbox limits (w_budgets w) = (guardErr, budgets)" by fastforce
  show ?thesis
  proof (cases guardErr)
    case None
    show ?thesis
      unfolding run_action_def v Let_def prod.case None option.case row_snapshot_simps action_phaseProto_eq
      by (intro when_stands [where i = i] crossing [unfolded Let_def]) (auto simp: at1 same row)
  next
    case (Some e)
    then show ?thesis using at1 by (auto simp: run_action_def v Let_def intro!: record_stands [where i = i] failed)
  qed
qed

lemma run_steps_keeps:
  "coherent steps snapshot w \<Longrightarrow> keeps steps (run_steps rest P E steps sandbox limits i snapshot w)"
proof (induction rest arbitrary: i snapshot w)
  case (Cons step rest)
  show ?case
  proof (cases "sagaStepAt snapshot i (st_Name step)")
    case (Inr state)
    note at0 = sagaStepAt_row [OF Inr Cons.prems]
    define row where "row = sg_rows (w_db w) ! i"
    have state: "state = row_snapshot row" using at0(2) by (simp add: row_def)
    have marked: "keeps steps (markOutcomeUnknown P E plan reason w)" for plan reason
      by (rule mark_keeps [OF stands_once [OF at0(1)]])
    have next_step: "keeps steps (run_steps rest P E steps sandbox limits (i + 1) (loadRunSagaSnapshot (w_db w')) w')" if "stands steps i w'" for w'
      using Cons.IH coherent_load that by blast
    have failed: "keeps steps (compensateRecoverable n P E steps cause (loadRunSagaSnapshot (w_db w')) w')" if "stands steps i w'" for n cause w'
      using compensateRecoverable_keeps coherent_load that by blast
    define act where "act = (\<lambda>snap. run_action P E sandbox limits i step (row_snapshot row) snap
      (\<lambda>n cause. compensateRecoverable n P E steps cause) (run_steps rest P E steps sandbox limits (i + 1)))"
    have act: "keeps steps (act snap w1)" if "never (sp_ActionReplay (row_plan row)) \<longrightarrow> row_action row \<in> {APending, AIntent}"
      and "stands steps i w1" "w_effects w1 = w_effects w" "row_action row = AEffect \<Longrightarrow> w_db w1 = w_db w" for snap w1
      unfolding act_def
      by (rule run_action_keeps [OF at0(1) that(3,2) row_def]) (use that at0(3) failed next_step in \<open>auto simp: row_def\<close>)
    have action: "keeps steps (when_journal (row_action row = APending) E
        (\<lambda>X. recordRunSaga P X (receipt_of i (st_Name step) PhaseActionIntent guardDigest [] [])) (JournalError ''record action intent'') snapshot
        (\<lambda>snap w1. if row_action row = APending \<and> sn_CancelRequested snap
           then compensateRecoverable i P E steps (ContextDone ''context canceled'') snap w1 else act snap w1) w)"
      if "never (sp_ActionReplay (row_plan row)) \<longrightarrow> row_action row \<in> {APending, AIntent}" for guardDigest
      by (rule when_stands [OF at0(1)]) (auto intro: failed act [OF that at0(1) refl refl] act [OF that])
    have stop: "keeps steps (compensateRecoverable n P E steps cause snapshot w)" for n cause
      by (rule compensateRecoverable_keeps [OF Cons.prems])
    show ?thesis
      unfolding run_steps.simps Let_def Inr sum.case state row_snapshot_simps action_phaseProto_eq
      using Cons.IH [OF Cons.prems] marked stop keeps_return [OF at0(1)] action [unfolded act_def]
      by (cases "row_action row") (simp_all add: never_def split: option.split)
  qed (use coherent_return [OF Cons.prems] in simp)
qed (simp add: coherent_return)

lemma ExecuteRecoverable_keeps:
  assumes "once steps (w_effects w) (w_db w)"
  shows "keeps steps (ExecuteRecoverable P E steps sandbox limits w)"
proof (cases "buildSagaPlan P steps")
  case (Some plan)
  show ?thesis
    unfolding ExecuteRecoverable_def Some option.case
  proof (rule with_journal_keeps [OF assms])
    fix X and w' :: saga_world
    assume "once steps (w_effects w') (w_db w')"
    then show "keeps steps (if sn_PlanDigest (loadRunSagaSnapshot (w_db w')) \<noteq> pl_PlanDigest plan then (Returned (Some PlanDigestDiffers), w')
            else if sn_State (loadRunSagaSnapshot (w_db w')) = SUnknown then (Returned (Some OutcomeUnknown), w')
            else if sn_CancelRequested (loadRunSagaSnapshot (w_db w')) then
              compensateRecoverable (length steps) P E steps (ContextDone ''context canceled'') (loadRunSagaSnapshot (w_db w')) w'
            else run_steps steps P E steps sandbox limits 0 (loadRunSagaSnapshot (w_db w')) w')"
      by (auto simp: keeps_def [of _ "(r, w')" for r] coherent_def intro!: compensateRecoverable_keeps run_steps_keeps)
  qed (rule bind_once [OF _ Some])
qed (use assms in \<open>simp add: ExecuteRecoverable_def keeps_def\<close>)

definition run_attempt ::
  "'a execlib_scheme \<Rightarrow> saga_env \<Rightarrow> Step list \<Rightarrow> bool \<Rightarrow> ResourceLimit \<Rightarrow> saga_world \<Rightarrow> call_budgets \<Rightarrow> saga_world" where
  "run_attempt P E steps sandbox limits w budgets = snd (attempt P E steps sandbox limits budgets w)"

interpretation attempt_machine: machine "run_attempt P E steps sandbox limits" "\<lambda>w. once steps (w_effects w) (w_db w)"
  for P :: "'a execlib_scheme" and E steps sandbox limits
proof
  fix w :: saga_world and budgets
  assume "once steps (w_effects w) (w_db w)"
  then show "once steps (w_effects (run_attempt P E steps sandbox limits w budgets)) (w_db (run_attempt P E steps sandbox limits w budgets))"
    using ExecuteRecoverable_keeps [of steps "w\<lparr>w_budgets := budgets, w_events := []\<rparr>" P E sandbox limits]
    by (simp add: run_attempt_def attempt_def keeps_def)
qed

lemma plan_step_list_policies:
  "plan_step_list i seen steps = Some ps \<Longrightarrow> j < length steps \<Longrightarrow>
     j < length ps \<and> sp_StepKey (ps ! j) = st_Name (steps ! j) \<and> sp_ActionReplay (ps ! j) = normalizeReplay (st_Replay (steps ! j)) \<and>
     sp_CompensationReplay (ps ! j) = normalizeReplay (st_CompensationReplay (steps ! j))"
  by (induction steps arbitrary: i seen ps j) (force simp: nth_Cons split: if_split_asm option.split_asm nat.splits)+

lemma once_count:
  assumes "once steps tr S" "step \<in> set steps"
  shows "normalizeReplay (st_Replay step) = ReplayNever \<Longrightarrow> count_list tr (RunEffect (st_Name step)) \<le> 1"
    and "normalizeReplay (st_CompensationReplay step) = ReplayNever \<Longrightarrow> count_list tr (CompensateEffect (st_Name step)) \<le> 1"
proof -
  obtain j where j: "j < length steps" "step = steps ! j" using assms(2) by (auto simp: in_set_conv_nth)
  have "(normalizeReplay (st_Replay step) = ReplayNever \<longrightarrow> count_list tr (RunEffect (st_Name step)) \<le> 1) \<and>
    (normalizeReplay (st_CompensationReplay step) = ReplayNever \<longrightarrow> count_list tr (CompensateEffect (st_Name step)) \<le> 1)"
  proof (cases "sg_plan_digest S = []")
    case False
    then have plan: "plan_step_list 0 [] steps = Some (step_plans S)" using assms(1) by (simp add: once_def)
    note policies = plan_step_list_policies [OF plan j(1)]
    then have "row_effects tr (sg_rows S ! j)" using once_rows(2) [OF assms(1), of j] by (simp add: step_plans_def)
    then show ?thesis using policies by (auto simp: row_effects_def step_plans_def j(2) never_def split: if_split_asm)
  qed (use assms(1) in \<open>simp add: once_def\<close>)
  then show "normalizeReplay (st_Replay step) = ReplayNever \<Longrightarrow> count_list tr (RunEffect (st_Name step)) \<le> 1"
    "normalizeReplay (st_CompensationReplay step) = ReplayNever \<Longrightarrow> count_list tr (CompensateEffect (st_Name step)) \<le> 1"
    by simp_all
qed

subsection \<open>A demonstration run\<close>

definition demo_execlib :: execlib where
  "demo_execlib = sagalib.extend demo_sagalib \<lparr>marshal_guard = (\<lambda>d f m s l. ''g'')\<rparr>"

definition demo_step :: "string \<Rightarrow> ReplayPolicy \<Rightarrow> Step" where
  "demo_step name policy = \<lparr>st_Name = name, st_Dangerous = False, st_Fail = False, st_Replay = policy, st_CompensationReplay = ReplayIdempotent,
     st_Budget = None, st_MemBytes = 0, st_Compensate = True, st_Run = True\<rparr>"

definition demo_limits :: ResourceLimit where
  "demo_limits = \<lparr>rl_MemoryBytes = 0, rl_CPUSeconds = 0, rl_Files = 0\<rparr>"

text \<open>An environment where everything works; the process dies at a tick of \<open>dead\<close> and the context is cancelled from tick \<open>lo\<close> to \<open>hi\<close>.\<close>

definition demo_env :: "nat list \<Rightarrow> nat \<Rightarrow> nat \<Rightarrow> saga_env" where
  "demo_env dead lo hi = \<lparr>en_context = (\<lambda>t. demo_run_context), en_cancel = (\<lambda>t. None),
     en_fault = (\<lambda>t. if t \<in> set dead then Dies else Works), en_effect = (\<lambda>t eff. EffectOk),
     en_ctx_err = (\<lambda>t. if lo \<le> t \<and> t < hi then Some ''context canceled'' else None)\<rparr>"

definition demo_world :: saga_world where
  "demo_world = \<lparr>w_db = new_saga [], w_clock = 0, w_budgets = (\<lambda>_. 0), w_events = [], w_effects = []\<rparr>"

definition demo_steps :: "Step list" where
  "demo_steps = [demo_step ''a'' ReplayIdempotent, demo_step ''b'' ReplayNever]"

subsection \<open>Properties\<close>

text \<open>
  C3: an effect that must not be replayed happens at most once. Over any number of attempts of the
  executor on a new saga, with the process dying at any call, requests and replies of the journal lost,
  the run cancelled at any tick and any step failing, the action of a step whose policy is never_replay
  (or is not one of the known policies) is called at most once, and so is its compensation when the
  compensation's policy is never_replay.
\<close>

theorem effects_at_most_once:
  assumes "w_db w = new_saga entries" and "w_effects w = []" and "step \<in> set steps"
    and "final = foldl (run_attempt P E steps sandbox limits) w budgets"
  shows "(normalizeReplay (st_Replay step) = ReplayNever \<longrightarrow> count_list (w_effects final) (RunEffect (st_Name step)) \<le> 1) \<and>
    (normalizeReplay (st_CompensationReplay step) = ReplayNever \<longrightarrow> count_list (w_effects final) (CompensateEffect (st_Name step)) \<le> 1)"
proof -
  have "once steps (w_effects w) (w_db w)" by (simp add: assms(1,2) once_def new_saga_def)
  from attempt_machine.run_invar [OF this] have "once steps (w_effects final) (w_db final)" by (simp only: assms(4))
  from once_count [OF this assms(3)] show ?thesis by blast
qed

theorem effects_at_most_once_witness:
  "count_list (w_effects (foldl (run_attempt demo_execlib (demo_env [2, 5] 0 0) demo_steps False demo_limits) demo_world [\<lambda>_. 0, \<lambda>_. 0]))
     (RunEffect ''b'') \<le> 1"
  using effects_at_most_once [of demo_world "[]" "demo_step ''b'' ReplayNever" demo_steps _ demo_execlib "demo_env [2, 5] 0 0" False
      demo_limits "[\<lambda>_. 0, \<lambda>_. 0]", OF _ _ _ refl]
  by (simp add: demo_world_def demo_steps_def demo_step_def normalizeReplay_def)


end
