(* ===== verification/Evidence_Vault.thy ===== *)
theory Evidence_Vault
  imports Registry "HOL-Library.Char_ord" "HOL-Library.List_Lexorder"
begin

text \<open>
  The edge's encrypted evidence store (\<^verbatim>\<open>src/lib/edgecore/evidence_vault.go\<close>): records are lines of hourly
  segment files, an index in memory says where each record is, and an expiry queue says when it goes.
  The disk is the map from paths to file contents; it survives a restart, the rest is rebuilt from it.
  A call that touches the disk takes the outcome of that access as an argument. The cipher, base64 and
  JSON are parameters.
\<close>

subsection \<open>Records and state\<close>

record vaultRecord =
  vr_Version :: int
  vr_Handle :: string
  vr_Digest :: string
  vr_Nonce :: string
  vr_Cipher :: string
  vr_CreatedAt :: instant
  vr_ExpiresAt :: instant
  vr_RiskScore :: real

record vaultLocation =
  vl_path :: string
  vl_offset :: nat
  vl_length :: nat
  vl_record :: vaultRecord

record vaultExpiry =
  vx_handle :: string
  vx_path :: string
  vx_expiresAt :: instant

record vaultlib = golib +
  aead_seal :: "bytes \<Rightarrow> bytes \<Rightarrow> bytes \<Rightarrow> bytes"
  aead_open :: "bytes \<Rightarrow> bytes \<Rightarrow> bytes \<Rightarrow> bytes option"
  b64_encode :: "bytes \<Rightarrow> string"
  b64_decode :: "string \<Rightarrow> bytes option"
  marshal_vault :: "vaultRecord \<Rightarrow> bytes"
  unmarshal_vault :: "bytes \<Rightarrow> vaultRecord option"
  marshal_aad :: "int \<Rightarrow> string \<Rightarrow> string \<Rightarrow> instant \<Rightarrow> instant \<Rightarrow> real \<Rightarrow> bytes"

record EvidenceVault =
  ev_dir :: string
  ev_maxBytes :: int
  ev_ttl :: duration
  ev_maxEntry :: nat
  ev_usedBytes :: int
  ev_index :: "(string \<times> vaultLocation) list"
  ev_segmentSizes :: "(string \<times> int) list"
  ev_segmentEntries :: "(string \<times> int) list"
  ev_expirations :: "vaultExpiry list"
  ev_files :: "(string \<times> bytes) list"

datatype vault_error =
    VaultKeyInvalid | EvidenceEmpty | RandomFailed | VaultCapacity | VaultLowRiskCapacity | VaultIO
  | RecordUnreadable | IndexMismatch | DecryptionFailed | DigestMismatch

text \<open>The outcome of the file accesses of one \<open>PutRisk\<close>: a failed write or sync is followed by a truncation that may fail too.\<close>

datatype put_io = PutWorks | OpenFails | WriteFails nat bool | SyncFails bool | CloseFails | DirectorySyncFails

definition count_of :: "(string \<times> int) list \<Rightarrow> string \<Rightarrow> int" where
  "count_of m k = (case map_of m k of None \<Rightarrow> 0 | Some n \<Rightarrow> n)"

definition file_of :: "(string \<times> bytes) list \<Rightarrow> string \<Rightarrow> bytes" where
  "file_of m k = (case map_of m k of None \<Rightarrow> [] | Some s \<Rightarrow> s)"

definition newline :: bytes where "newline = [CHR 0x0A]"

definition vaultRecordAAD :: "'a vaultlib_scheme \<Rightarrow> vaultRecord \<Rightarrow> bytes" where
  "vaultRecordAAD P r = marshal_aad P (vr_Version r) (vr_Handle r) (vr_Digest r) (vr_CreatedAt r) (vr_ExpiresAt r) (vr_RiskScore r)"

definition evidence_digest :: "'a golib_scheme \<Rightarrow> bytes \<Rightarrow> string" where
  "evidence_digest P raw = ''sha256:'' @ hex_encode (sha256 P raw)"

subsection \<open>Collection of expired evidence\<close>

definition expire_one :: "EvidenceVault \<Rightarrow> vaultExpiry \<Rightarrow> EvidenceVault" where
  "expire_one v x =
     (case map_of (ev_index v) (vx_handle x) of
        None \<Rightarrow> v
      | Some loc \<Rightarrow>
          if vl_path loc \<noteq> vx_path x \<or> vr_ExpiresAt (vl_record loc) \<noteq> vx_expiresAt x then v
          else v\<lparr>ev_index := AList.delete (vx_handle x) (ev_index v),
                 ev_segmentEntries := AList.update (vx_path x) (count_of (ev_segmentEntries v) (vx_path x) - 1) (ev_segmentEntries v)\<rparr>)"

text \<open>Removing the segments without entries; a removal the disk refuses ends the loop.\<close>

definition remove_segment :: "string \<Rightarrow> EvidenceVault \<Rightarrow> EvidenceVault" where
  "remove_segment path v =
     v\<lparr>ev_files := AList.delete path (ev_files v), ev_usedBytes := ev_usedBytes v - count_of (ev_segmentSizes v) path,
       ev_segmentSizes := AList.delete path (ev_segmentSizes v), ev_segmentEntries := AList.delete path (ev_segmentEntries v)\<rparr>"

primrec remove_empty :: "(string \<times> int) list \<Rightarrow> (string \<Rightarrow> bool) \<Rightarrow> EvidenceVault \<Rightarrow> vault_error option \<times> EvidenceVault" where
  "remove_empty [] removable v = (None, v)"
| "remove_empty (pe # rest) removable v =
     (if snd pe \<noteq> 0 then remove_empty rest removable v
      else if \<not> removable (fst pe) then (Some VaultIO, v)
      else remove_empty rest removable (remove_segment (fst pe) v))"

text \<open>The queue yields the due expiries, which the loop takes one by one.\<close>

definition gcLocked :: "(string \<Rightarrow> bool) \<Rightarrow> instant \<Rightarrow> EvidenceVault \<Rightarrow> vault_error option \<times> EvidenceVault" where
  "gcLocked removable now v =
     (let due = filter (\<lambda>x. vx_expiresAt x \<le> now) (ev_expirations v);
          v1 = foldl expire_one (v\<lparr>ev_expirations := filter (\<lambda>x. \<not> vx_expiresAt x \<le> now) (ev_expirations v)\<rparr>) due in
      remove_empty (ev_segmentEntries v1) removable v1)"

definition GC :: "(string \<Rightarrow> bool) \<Rightarrow> instant \<Rightarrow> EvidenceVault \<Rightarrow> vault_error option \<times> EvidenceVault" where
  [simp]: "GC removable now v = gcLocked removable now v"

subsection \<open>Storing and reading evidence\<close>

fun fresh_handle :: "bytes list \<Rightarrow> (string \<times> vaultLocation) list \<Rightarrow> string option" where
  "fresh_handle [] index = None"
| "fresh_handle (r # rs) index =
     (let handle = ''evh-'' @ hex_encode r in
      if map_of index handle = None then Some handle else fresh_handle rs index)"

definition segment_path :: "string \<Rightarrow> instant \<Rightarrow> string" where
  "segment_path dir now = dir @ ''/evidence-'' @ itoa (now div 3600000000000 * 3600) @ ''.jsonl''"

definition write_segment :: "put_io \<Rightarrow> bytes \<Rightarrow> bytes \<Rightarrow> bytes" where
  "write_segment io content line = (case io of
       OpenFails \<Rightarrow> content
     | WriteFails n rolledBack \<Rightarrow> (if rolledBack then content else content @ take n line)
     | SyncFails rolledBack \<Rightarrow> (if rolledBack then content else content @ line)
     | _ \<Rightarrow> content @ line)"

definition seal_record ::
  "'a vaultlib_scheme \<Rightarrow> EvidenceVault \<Rightarrow> string \<Rightarrow> bytes \<Rightarrow> bytes \<Rightarrow> real \<Rightarrow> instant \<Rightarrow> vaultRecord" where
  "seal_record P v handle nonce raw riskScore now =
     (let r = \<lparr>vr_Version = 2, vr_Handle = handle, vr_Digest = evidence_digest P raw, vr_Nonce = b64_encode P nonce, vr_Cipher = [],
            vr_CreatedAt = now, vr_ExpiresAt = now + ev_ttl v, vr_RiskScore = riskScore\<rparr> in
      r\<lparr>vr_Cipher := b64_encode P (aead_seal P nonce raw (vaultRecordAAD P r))\<rparr>)"

definition store_record :: "put_io \<Rightarrow> instant \<Rightarrow> vaultRecord \<Rightarrow> bytes \<Rightarrow> EvidenceVault \<Rightarrow> (vault_error + string \<times> string \<times> instant) \<times> EvidenceVault" where
  "store_record io now r line v =
     (let path = segment_path (ev_dir v) now; created = (map_of (ev_files v) path = None);
          content = file_of (ev_files v) path; n = int (length line);
          v1 = (if io = OpenFails then v else v\<lparr>ev_files := AList.update path (write_segment io content line) (ev_files v)\<rparr>) in
      if io \<noteq> PutWorks \<and> (io \<noteq> DirectorySyncFails \<or> created) then (Inl VaultIO, v1)
      else (Inr (vr_Handle r, vr_Digest r, vr_ExpiresAt r),
            v1\<lparr>ev_index := AList.update (vr_Handle r)
                  \<lparr>vl_path = path, vl_offset = length content, vl_length = length line - 1, vl_record = r\<rparr> (ev_index v),
               ev_usedBytes := ev_usedBytes v + n,
               ev_segmentSizes := AList.update path (count_of (ev_segmentSizes v) path + n) (ev_segmentSizes v),
               ev_segmentEntries := AList.update path (count_of (ev_segmentEntries v) path + 1) (ev_segmentEntries v),
               ev_expirations := \<lparr>vx_handle = vr_Handle r, vx_path = path, vx_expiresAt = vr_ExpiresAt r\<rparr> # ev_expirations v\<rparr>))"

definition high_water :: "EvidenceVault \<Rightarrow> int" where
  "high_water v = go_div (ev_maxBytes v * 4) 5"

definition PutRisk ::
  "'a vaultlib_scheme \<Rightarrow> put_io \<Rightarrow> (string \<Rightarrow> bool) \<Rightarrow> bytes list \<Rightarrow> bytes option \<Rightarrow> bytes \<Rightarrow> real \<Rightarrow> instant \<Rightarrow> EvidenceVault \<Rightarrow>
   (vault_error + string \<times> string \<times> instant) \<times> EvidenceVault"
where
  "PutRisk P io removable draws nonce evidence riskScore now v =
     (if evidence = [] then (Inl EvidenceEmpty, v)
      else case (fresh_handle draws (ev_index v), nonce) of
        (Some handle, Some nonce) \<Rightarrow>
          (let raw = take (ev_maxEntry v) evidence;
               r = seal_record P v handle nonce raw riskScore now;
               line = marshal_vault P r @ newline; n = int (length line) in
           case (if ev_usedBytes v + n > high_water v then gcLocked removable now v else (None, v)) of
             (Some e, v1) \<Rightarrow> (Inl e, v1)
           | (None, v1) \<Rightarrow>
               if riskScore < 60 \<and> ev_usedBytes v1 + n > high_water v then (Inl VaultLowRiskCapacity, v1)
               else if ev_usedBytes v1 + n > ev_maxBytes v then (Inl VaultCapacity, v1)
               else store_record io now r line v1)
      | _ \<Rightarrow> (Inl RandomFailed, v))"

definition Put ::
  "'a vaultlib_scheme \<Rightarrow> put_io \<Rightarrow> (string \<Rightarrow> bool) \<Rightarrow> bytes list \<Rightarrow> bytes option \<Rightarrow> bytes \<Rightarrow> instant \<Rightarrow> EvidenceVault \<Rightarrow>
   (vault_error + string \<times> string \<times> instant) \<times> EvidenceVault"
where
  "Put P io removable draws nonce evidence now v = PutRisk P io removable draws nonce evidence 100 now v"

definition open_record :: "'a vaultlib_scheme \<Rightarrow> string \<Rightarrow> vaultLocation \<Rightarrow> bytes \<Rightarrow> vault_error + bytes \<times> string" where
  "open_record P handle loc content =
     (let line = take (vl_length loc) (drop (vl_offset loc) content) in
      if length line < vl_length loc then Inl VaultIO
      else case unmarshal_vault P line of
        None \<Rightarrow> Inl RecordUnreadable
      | Some r \<Rightarrow>
          if vr_Handle r \<noteq> handle \<or> vr_Digest r \<noteq> vr_Digest (vl_record loc) \<or> vr_ExpiresAt r \<noteq> vr_ExpiresAt (vl_record loc) then Inl IndexMismatch
          else case (b64_decode P (vr_Nonce r), b64_decode P (vr_Cipher r)) of
            (Some nonce, Some ciphertext) \<Rightarrow>
              (let aad = (if vr_Version r \<ge> 2 then vaultRecordAAD P r else vr_Handle r @ [CHR 0x00] @ vr_Digest r) in
               case aead_open P nonce ciphertext aad of
                 None \<Rightarrow> Inl DecryptionFailed
               | Some raw \<Rightarrow> if evidence_digest P raw \<noteq> vr_Digest r then Inl DigestMismatch else Inr (raw, vr_Digest r))
          | _ \<Rightarrow> Inl RecordUnreadable)"

definition Get ::
  "'a vaultlib_scheme \<Rightarrow> (string \<Rightarrow> bool) \<Rightarrow> string \<Rightarrow> instant \<Rightarrow> EvidenceVault \<Rightarrow> (vault_error + bytes \<times> string \<times> bool) \<times> EvidenceVault" where
  "Get P removable handle now v = (case map_of (ev_index v) handle of
       None \<Rightarrow> (Inr ([], [], False), v)
     | Some loc \<Rightarrow>
         if vr_ExpiresAt (vl_record loc) \<le> now then
           (case gcLocked removable now v of
              (Some e, v1) \<Rightarrow> (Inl e, v1)
            | (None, v1) \<Rightarrow> (Inr ([], vr_Digest (vl_record loc), False), v1))
         else case map_of (ev_files v) (vl_path loc) of
           None \<Rightarrow> (Inl VaultIO, v)
         | Some content \<Rightarrow>
             (case open_record P handle loc content of
                Inl e \<Rightarrow> (Inl e, v)
              | Inr (raw, digest) \<Rightarrow> (Inr (raw, digest, True), v)))"

subsection \<open>The signed review policy\<close>

definition VaultConfigure :: "TrafficReviewPolicy option \<Rightarrow> EvidenceVault \<Rightarrow> review_error option \<times> EvidenceVault" where
  "VaultConfigure policy v = (case (ValidateTrafficReviewPolicy policy, policy) of
       (Some e, _) \<Rightarrow> (Some e, v)
     | (None, None) \<Rightarrow> (None, v)
     | (None, Some p) \<Rightarrow>
         if trp_Mode p = TRAFFIC_REVIEW_MODE_OFF then (None, v)
         else (None, v\<lparr>ev_maxBytes := trp_VaultMaxBytes p, ev_ttl := trp_EvidenceTtlSeconds p * Second,
                 ev_maxEntry := nat (trp_MaxEvidenceBytes p)\<rparr>))"

subsection \<open>Restart\<close>

text \<open>The complete lines of one segment; \<open>None\<close> is a corrupt segment, which keeps nothing of what was read before.\<close>

fun scan_segment ::
  "'a vaultlib_scheme \<Rightarrow> string \<Rightarrow> nat \<Rightarrow> bytes list \<Rightarrow> (string \<times> vaultLocation) list \<Rightarrow> vaultExpiry list \<Rightarrow>
   ((string \<times> vaultLocation) list \<times> nat) option \<times> vaultExpiry list"
where
  "scan_segment P path offset [] index expirations = (Some (index, offset), expirations)"
| "scan_segment P path offset (line # lines) index expirations =
     (if line = [] then scan_segment P path (offset + 1) lines index expirations
      else case unmarshal_vault P line of
        None \<Rightarrow> (None, expirations)
      | Some r \<Rightarrow>
          if (vr_Version r \<noteq> 1 \<and> vr_Version r \<noteq> 2) \<or> vr_Handle r = [] \<or> vr_Digest r = [] \<or> vr_Nonce r = [] \<or> vr_Cipher r = [] \<or>
             vr_ExpiresAt r < vr_CreatedAt r then (None, expirations)
          else if map_of index (vr_Handle r) \<noteq> None then (None, expirations)
          else scan_segment P path (offset + length line + 1) lines
                 (AList.update (vr_Handle r) \<lparr>vl_path = path, vl_offset = offset, vl_length = length line, vl_record = r\<rparr> index)
                 (\<lparr>vx_handle = vr_Handle r, vx_path = path, vx_expiresAt = vr_ExpiresAt r\<rparr> # expirations))"

definition segment_entries :: "string \<Rightarrow> (string \<times> vaultLocation) list \<Rightarrow> int" where
  "segment_entries path index = int (length (filter (\<lambda>(h, loc). vl_path loc = path) index))"

text \<open>One segment: a torn last line is cut off, a corrupt segment is renamed away.\<close>

definition rebuild_segment :: "'a vaultlib_scheme \<Rightarrow> EvidenceVault \<Rightarrow> string \<times> bytes \<Rightarrow> EvidenceVault" where
  "rebuild_segment P v segment =
     (let path = fst segment; pieces = split_on (CHR 0x0A) (snd segment); whole = concat (map (\<lambda>l. l @ newline) (butlast pieces)) in
      case scan_segment P path 0 (butlast pieces) (ev_index v) (ev_expirations v) of
        (Some (index, offset), expirations) \<Rightarrow>
          v\<lparr>ev_index := index, ev_expirations := expirations, ev_files := AList.update path whole (ev_files v),
            ev_segmentEntries := (if segment_entries path index = 0 then ev_segmentEntries v
              else AList.update path (segment_entries path index) (ev_segmentEntries v)),
            ev_segmentSizes := AList.update path (int offset) (ev_segmentSizes v), ev_usedBytes := ev_usedBytes v + int offset\<rparr>
      | (None, expirations) \<Rightarrow>
          v\<lparr>ev_expirations := expirations, ev_files := AList.delete path (ev_files v),
            ev_segmentEntries := AList.delete path (ev_segmentEntries v)\<rparr>)"

text \<open>The segments of the directory, in the order of their paths.\<close>

definition filesLocked :: "EvidenceVault \<Rightarrow> (string \<times> bytes) list" where
  "filesLocked v = sort_key fst (ev_files v)"

definition rebuildIndexLocked :: "'a vaultlib_scheme \<Rightarrow> EvidenceVault \<Rightarrow> EvidenceVault" where
  "rebuildIndexLocked P v = foldl (rebuild_segment P) v (filesLocked v)"

text \<open>A new store has the product limits: 256 MiB, 24 hours, and 8 KiB for one entry.\<close>

definition NewEvidenceVault ::
  "'a vaultlib_scheme \<Rightarrow> (string \<Rightarrow> bool) \<Rightarrow> string \<Rightarrow> bytes \<Rightarrow> (string \<times> bytes) list \<Rightarrow> instant \<Rightarrow> vault_error + EvidenceVault" where
  "NewEvidenceVault P removable dir key files now =
     (if length key \<noteq> 32 then Inl VaultKeyInvalid
      else case gcLocked removable now (rebuildIndexLocked P
          \<lparr>ev_dir = dir, ev_maxBytes = 268435456, ev_ttl = 86400000000000, ev_maxEntry = 8192, ev_usedBytes = 0, ev_index = [],
           ev_segmentSizes = [], ev_segmentEntries = [], ev_expirations = [], ev_files = files\<rparr>) of
        (Some e, v) \<Rightarrow> Inl e
      | (None, v) \<Rightarrow> Inr v)"

end
