(* ===== verification/Evidence_Vault_Laws.thy ===== *)
theory Evidence_Vault_Laws
  imports Evidence_Vault Text_Laws
begin

text \<open>
  The laws of the evidence store: stored evidence is read back until it expires whatever else is stored
  or collected, the store stays within its capacity and its accounting, and a restart finds everything
  that has not expired, also after a write that was torn.
\<close>

subsection \<open>Association lists\<close>

lemma update_absent: "map_of xs k = None \<Longrightarrow> AList.update k v xs = xs @ [(k, v)]"
  by (induction xs) auto

lemma delete_filter: "AList.delete k xs = filter (\<lambda>kv. fst kv \<noteq> k) xs"
  by (auto simp: AList.delete_eq intro!: filter_cong)

lemma map_of_update [simp]: "map_of (AList.update k v xs) = (map_of xs)(k \<mapsto> v)"
  by (simp add: update_conv')

lemma map_of_delete [simp]: "map_of (AList.delete k xs) = (map_of xs)(k := None)"
  by (simp add: delete_conv')

lemma count_of_update [simp]: "count_of (AList.update k n m) j = (if j = k then n else count_of m j)"
  by (simp add: count_of_def)

lemma count_of_delete [simp]: "count_of (AList.delete k m) j = (if j = k then 0 else count_of m j)"
  by (simp add: count_of_def)

lemma length_delete_key:
  assumes "distinct (map fst xs)" "map_of xs k = Some v"
  shows "length (filter Q xs) = length (filter Q (AList.delete k xs)) + (if Q (k, v) then 1 else 0)"
  using assms
proof (induction xs)
  case (Cons x xs)
  show ?case
  proof (cases "fst x = k")
    case True
    then have "AList.delete k xs = xs" using Cons.prems(1) by (auto intro: delete_idem)
    then show ?thesis using True Cons.prems(2) by (cases x) (auto simp: delete_filter)
  next
    case False
    then show ?thesis using Cons by (cases x) (auto simp: delete_filter)
  qed
qed simp

lemma sum_delete_key:
  assumes "distinct (map fst xs)"
  shows "sum_list (map snd (AList.delete k xs)) = sum_list (map snd xs) - count_of xs k"
  using assms
proof (induction xs)
  case (Cons x xs)
  then show ?case
  proof (cases "fst x = k")
    case True
    then have "AList.delete k xs = xs" using Cons.prems by (auto intro: delete_idem)
    then show ?thesis using True by (cases x) (auto simp: delete_filter count_of_def)
  next
    case False
    then show ?thesis using Cons by (cases x) (auto simp: delete_filter count_of_def)
  qed
qed (simp add: count_of_def)

lemma sum_update_key:
  assumes "distinct (map fst xs)"
  shows "sum_list (map snd (AList.update k n xs)) = sum_list (map snd xs) - count_of xs k + n"
  using assms
proof (induction xs)
  case (Cons x xs)
  then show ?case by (cases x) (auto simp: count_of_def map_of_eq_None_iff [symmetric] split: option.split)
qed (simp add: count_of_def)

subsection \<open>Accounting\<close>

definition vault_ok :: "EvidenceVault \<Rightarrow> bool" where
  "vault_ok v \<longleftrightarrow> distinct (map fst (ev_index v)) \<and> distinct (map fst (ev_segmentEntries v)) \<and>
     distinct (map fst (ev_segmentSizes v)) \<and> distinct (map fst (ev_files v)) \<and>
     (\<forall>p. count_of (ev_segmentEntries v) p = segment_entries p (ev_index v)) \<and>
     ev_usedBytes v = sum_list (map snd (ev_segmentSizes v))"

lemma segment_entries_delete:
  assumes "distinct (map fst index)" "map_of index h = Some loc"
  shows "segment_entries p (AList.delete h index) = segment_entries p index - (if vl_path loc = p then 1 else 0)"
  using length_delete_key [OF assms, of "\<lambda>(h, loc). vl_path loc = p"] by (simp add: segment_entries_def)

lemma segment_entries_fresh:
  "map_of index h = None \<Longrightarrow> segment_entries p (AList.update h loc index) = segment_entries p index + (if vl_path loc = p then 1 else 0)"
  by (simp add: update_absent segment_entries_def)

lemma expire_one_ok: "vault_ok v \<Longrightarrow> vault_ok (expire_one v x)"
  by (auto simp: vault_ok_def expire_one_def segment_entries_delete distinct_delete distinct_update split: option.split)

lemma expire_all_ok: "vault_ok v \<Longrightarrow> vault_ok (foldl expire_one v xs)"
  by (induction xs arbitrary: v) (auto simp: expire_one_ok)

lemma remove_segment_ok: "vault_ok v \<Longrightarrow> count_of (ev_segmentEntries v) p = 0 \<Longrightarrow> vault_ok (remove_segment p v)"
  by (auto simp: vault_ok_def remove_segment_def distinct_delete sum_delete_key)

lemma remove_empty_ok:
  assumes "vault_ok v" "distinct (map fst es)" "\<forall>(p, n) \<in> set es. count_of (ev_segmentEntries v) p = n"
  shows "vault_ok (snd (remove_empty es removable v))"
  using assms
proof (induction es arbitrary: v)
  case (Cons pe es)
  have rest: "\<forall>(p, n) \<in> set es. count_of (ev_segmentEntries (remove_segment (fst pe) v)) p = n"
    using Cons.prems(2,3) by (force simp: remove_segment_def)
  show ?case using Cons remove_segment_ok [OF Cons.prems(1)] rest by (auto simp: case_prod_unfold)
qed simp

lemma entries_self: "distinct (map fst m) \<Longrightarrow> \<forall>(p, n) \<in> set m. count_of m p = n"
  by (auto simp: count_of_def)

lemma vault_ok_expirations [simp]: "vault_ok (v\<lparr>ev_expirations := xs\<rparr>) = vault_ok v"
  by (simp add: vault_ok_def)

lemma gc_ok:
  assumes "vault_ok v"
  shows "vault_ok (snd (gcLocked removable now v))"
proof -
  define v1 where "v1 = foldl expire_one (v\<lparr>ev_expirations := filter (\<lambda>x. \<not> vx_expiresAt x \<le> now) (ev_expirations v)\<rparr>)
    (filter (\<lambda>x. vx_expiresAt x \<le> now) (ev_expirations v))"
  have "vault_ok v1" unfolding v1_def by (rule expire_all_ok) (simp add: assms)
  then show ?thesis unfolding gcLocked_def Let_def v1_def [symmetric]
    by (intro remove_empty_ok entries_self) (auto simp: vault_ok_def)
qed

lemma store_ok:
  assumes "vault_ok v" "map_of (ev_index v) (vr_Handle r) = None"
  shows "vault_ok (snd (store_record io now r line v))"
  using assms
  by (auto simp: vault_ok_def store_record_def Let_def distinct_update segment_entries_fresh sum_update_key)

lemma fresh_handle_fresh: "fresh_handle draws index = Some h \<Longrightarrow> map_of index h = None"
  by (induction draws) (auto simp: Let_def split: if_split_asm)

lemma seal_record_simps [simp]:
  "vr_Handle (seal_record P v h nonce raw risk now) = h" "vr_Digest (seal_record P v h nonce raw risk now) = evidence_digest P raw"
  "vr_ExpiresAt (seal_record P v h nonce raw risk now) = now + ev_ttl v" "vr_CreatedAt (seal_record P v h nonce raw risk now) = now"
  "vr_Version (seal_record P v h nonce raw risk now) = 2" "vr_Nonce (seal_record P v h nonce raw risk now) = b64_encode P nonce"
  by (simp_all add: seal_record_def Let_def)

text \<open>Collecting removes handles and never adds one, and leaves the settings alone.\<close>

lemma expire_one_index: "map_of (ev_index (expire_one v x)) h = None \<or> map_of (ev_index (expire_one v x)) h = map_of (ev_index v) h"
  by (auto simp: expire_one_def split: option.split)

lemma expire_all_index: "map_of (ev_index (foldl expire_one v xs)) h = None \<or> map_of (ev_index (foldl expire_one v xs)) h = map_of (ev_index v) h"
proof (induction xs arbitrary: v)
  case (Cons x xs)
  show ?case using Cons.IH [of "expire_one v x"] expire_one_index [of v x h] by auto
qed simp

lemma remove_empty_index [simp]: "ev_index (snd (remove_empty es removable v)) = ev_index v"
  by (induction es arbitrary: v) (auto simp: remove_segment_def)

lemma gc_index: "map_of (ev_index (snd (gcLocked removable now v))) h = None \<or> map_of (ev_index (snd (gcLocked removable now v))) h = map_of (ev_index v) h"
  using expire_all_index [of "v\<lparr>ev_expirations := filter (\<lambda>x. \<not> vx_expiresAt x \<le> now) (ev_expirations v)\<rparr>"]
  by (simp add: gcLocked_def Let_def)

lemma expire_one_settings [simp]:
  "ev_dir (expire_one v x) = ev_dir v" "ev_maxBytes (expire_one v x) = ev_maxBytes v" "ev_ttl (expire_one v x) = ev_ttl v"
  "ev_maxEntry (expire_one v x) = ev_maxEntry v" "ev_files (expire_one v x) = ev_files v" "ev_segmentSizes (expire_one v x) = ev_segmentSizes v"
  "ev_usedBytes (expire_one v x) = ev_usedBytes v" "ev_expirations (expire_one v x) = ev_expirations v"
  by (simp_all add: expire_one_def split: option.split)

lemma expire_all_settings [simp]:
  "ev_dir (foldl expire_one v xs) = ev_dir v" "ev_maxBytes (foldl expire_one v xs) = ev_maxBytes v" "ev_ttl (foldl expire_one v xs) = ev_ttl v"
  "ev_maxEntry (foldl expire_one v xs) = ev_maxEntry v" "ev_files (foldl expire_one v xs) = ev_files v"
  "ev_segmentSizes (foldl expire_one v xs) = ev_segmentSizes v" "ev_usedBytes (foldl expire_one v xs) = ev_usedBytes v"
  "ev_expirations (foldl expire_one v xs) = ev_expirations v"
  by (induction xs arbitrary: v) simp_all

lemma remove_empty_settings [simp]:
  "ev_dir (snd (remove_empty es removable v)) = ev_dir v" "ev_maxBytes (snd (remove_empty es removable v)) = ev_maxBytes v"
  "ev_ttl (snd (remove_empty es removable v)) = ev_ttl v" "ev_maxEntry (snd (remove_empty es removable v)) = ev_maxEntry v"
  "ev_expirations (snd (remove_empty es removable v)) = ev_expirations v"
  by (induction es arbitrary: v) (auto simp: remove_segment_def)

lemma gc_settings [simp]:
  "ev_dir (snd (gcLocked removable now v)) = ev_dir v" "ev_maxBytes (snd (gcLocked removable now v)) = ev_maxBytes v"
  "ev_ttl (snd (gcLocked removable now v)) = ev_ttl v" "ev_maxEntry (snd (gcLocked removable now v)) = ev_maxEntry v"
  by (simp_all add: gcLocked_def Let_def)

lemma store_settings [simp]:
  "ev_dir (snd (store_record io now r line v)) = ev_dir v" "ev_maxBytes (snd (store_record io now r line v)) = ev_maxBytes v"
  "ev_ttl (snd (store_record io now r line v)) = ev_ttl v" "ev_maxEntry (snd (store_record io now r line v)) = ev_maxEntry v"
  by (simp_all add: store_record_def Let_def)

text \<open>How a call of \<open>PutRisk\<close> ends: nothing happened, only a collection happened, or the record went to the disk.\<close>

lemma PutRisk_cases:
  obtains (refused) e where "PutRisk P io removable draws nonce evidence risk now v = (Inl e, v)"
  | (collected) e where "PutRisk P io removable draws nonce evidence risk now v = (Inl e, snd (gcLocked removable now v))"
  | (stored) handle nonce' v1 r line where "nonce = Some nonce'" "fresh_handle draws (ev_index v) = Some handle" "evidence \<noteq> []"
      "v1 = v \<or> v1 = snd (gcLocked removable now v)"
      "r = seal_record P v handle nonce' (take (ev_maxEntry v) evidence) risk now" "line = marshal_vault P r @ newline"
      "ev_usedBytes v1 + int (length line) \<le> ev_maxBytes v" "risk < 60 \<Longrightarrow> ev_usedBytes v1 + int (length line) \<le> high_water v"
      "PutRisk P io removable draws nonce evidence risk now v = store_record io now r line v1"
proof -
  show ?thesis
  proof (cases "evidence = [] \<or> fresh_handle draws (ev_index v) = None \<or> nonce = None")
    case True
    then have "\<exists>e. PutRisk P io removable draws nonce evidence risk now v = (Inl e, v)"
      by (auto simp: PutRisk_def split: option.split)
    then show ?thesis using refused by blast
  next
    case False
    then obtain handle nonce' where h: "evidence \<noteq> []" "fresh_handle draws (ev_index v) = Some handle" "nonce = Some nonce'" by auto
    define r where "r = seal_record P v handle nonce' (take (ev_maxEntry v) evidence) risk now"
    define line where "line = marshal_vault P r @ newline"
    define g where "g = (if ev_usedBytes v + int (length line) > high_water v then gcLocked removable now v else (None, v))"
    have put: "PutRisk P io removable draws nonce evidence risk now v = (case g of
        (Some e, v1) \<Rightarrow> (Inl e, v1)
      | (None, v1) \<Rightarrow>
          if risk < 60 \<and> ev_usedBytes v1 + int (length line) > high_water v then (Inl VaultLowRiskCapacity, v1)
          else if ev_usedBytes v1 + int (length line) > ev_maxBytes v then (Inl VaultCapacity, v1) else store_record io now r line v1)"
      unfolding PutRisk_def Let_def g_def line_def r_def by (simp only: h if_False option.case prod.case)
    obtain e v1 where g: "g = (e, v1)" by fastforce
    have v1: "v1 = v \<or> v1 = snd (gcLocked removable now v)" using g by (auto simp: g_def split: if_split_asm)
    show ?thesis
    proof (cases "e = None \<and> \<not> (risk < 60 \<and> ev_usedBytes v1 + int (length line) > high_water v) \<and> ev_usedBytes v1 + int (length line) \<le> ev_maxBytes v")
      case True
      then show ?thesis by (intro stored [OF h(3,2,1) v1 r_def line_def]) (auto simp: put g)
    next
      case False
      then have "\<exists>e'. PutRisk P io removable draws nonce evidence risk now v = (Inl e', v1)"
        unfolding put g by (cases e) (auto simp: not_le)
      then show ?thesis using v1 refused collected by blast
    qed
  qed
qed

subsection \<open>Histories\<close>

datatype vault_event =
    PutEvent put_io "string \<Rightarrow> bool" "bytes list" "bytes option" bytes real instant
  | GcEvent "string \<Rightarrow> bool" instant
  | GetEvent "string \<Rightarrow> bool" string instant
  | ConfigureEvent "TrafficReviewPolicy option"

fun vault_step :: "'a vaultlib_scheme \<Rightarrow> EvidenceVault \<Rightarrow> vault_event \<Rightarrow> EvidenceVault" where
  "vault_step P v (PutEvent io removable draws nonce evidence risk now) = snd (PutRisk P io removable draws nonce evidence risk now v)"
| "vault_step P v (GcEvent removable now) = snd (GC removable now v)"
| "vault_step P v (GetEvent removable handle now) = snd (Get P removable handle now v)"
| "vault_step P v (ConfigureEvent policy) = snd (VaultConfigure policy v)"

fun event_time :: "vault_event \<Rightarrow> instant option" where
  "event_time (PutEvent io removable draws nonce evidence risk now) = Some now"
| "event_time (GcEvent removable now) = Some now"
| "event_time (GetEvent removable handle now) = Some now"
| "event_time (ConfigureEvent policy) = None"

definition empty_vault :: "string \<Rightarrow> EvidenceVault" where
  "empty_vault dir = \<lparr>ev_dir = dir, ev_maxBytes = 268435456, ev_ttl = 86400000000000, ev_maxEntry = 8192, ev_usedBytes = 0, ev_index = [],
     ev_segmentSizes = [], ev_segmentEntries = [], ev_expirations = [], ev_files = []\<rparr>"

lemma Get_state: "snd (Get P removable h now v) = v \<or> snd (Get P removable h now v) = snd (gcLocked removable now v)"
  by (auto simp: Get_def split: option.split prod.split sum.split)

text \<open>What holds of the state after a collection and after a stored record holds after every event.\<close>

lemma vault_step_induct:
  assumes "I v" and gc: "\<And>removable now. event_time e = Some now \<Longrightarrow> I (snd (gcLocked removable now v))"
    and store: "\<And>io now r nonce raw risk v1. event_time e = Some now \<Longrightarrow> I v1 \<Longrightarrow> v1 = v \<or> (\<exists>removable. v1 = snd (gcLocked removable now v)) \<Longrightarrow>
      (\<exists>removable draws nonce evidence. e = PutEvent io removable draws nonce evidence risk now) \<Longrightarrow>
      map_of (ev_index v) (vr_Handle r) = None \<Longrightarrow> r = seal_record P v (vr_Handle r) nonce raw risk now \<Longrightarrow> (\<exists>d. vr_Handle r = ''evh-'' @ hex_encode d) \<Longrightarrow>
      ev_usedBytes v1 + int (length (marshal_vault P r @ newline)) \<le> ev_maxBytes v \<Longrightarrow>
      I (snd (store_record io now r (marshal_vault P r @ newline) v1))"
    and configure: "\<And>policy. e = ConfigureEvent policy \<Longrightarrow> I (snd (VaultConfigure policy v))"
  shows "I (vault_step P v e)"
proof (cases e)
  case (PutEvent io removable draws nonce evidence risk now)
  have handle: "\<exists>d. h = ''evh-'' @ hex_encode d" if "fresh_handle draws (ev_index v) = Some h" for h
    using that by (induction draws) (auto simp: Let_def split: if_split_asm)
  show ?thesis
  proof (cases rule: PutRisk_cases [of P io removable draws nonce evidence risk now v])
    case (stored handle nonce' v1 r line)
    have "I v1" using stored(4) assms(1) gc PutEvent by auto
    moreover have "vr_Handle r = handle" by (simp add: stored(5))
    ultimately show ?thesis unfolding PutEvent vault_step.simps stored(9) stored(6)
      by (intro store) (use PutEvent stored(4,5,6,7) handle [OF stored(2)] fresh_handle_fresh [OF stored(2)] in auto)
  qed (use assms(1) gc PutEvent in simp_all)
next
  case (GetEvent removable handle now)
  then show ?thesis using Get_state [of P removable handle now v] assms(1) gc by auto
qed (use gc configure in simp_all)

interpretation vault_machine: machine "vault_step P" vault_ok for P :: "'a vaultlib_scheme"
proof
  fix v e
  assume ok: "vault_ok v"
  show "vault_ok (vault_step P v e)"
  proof (rule vault_step_induct [where I = vault_ok])
    fix io now nonce raw risk v1 and r :: vaultRecord
    assume "vault_ok v1" "v1 = v \<or> (\<exists>removable. v1 = snd (gcLocked removable now v))" "map_of (ev_index v) (vr_Handle r) = None"
    then show "vault_ok (snd (store_record io now r (marshal_vault P r @ newline) v1))"
      using gc_index [of _ now v "vr_Handle r"] by (intro store_ok) auto
  qed (use ok gc_ok in \<open>auto simp: VaultConfigure_def vault_ok_def split: option.split\<close>)
qed

lemma empty_vault_ok: "vault_ok (empty_vault dir)"
  by (simp add: vault_ok_def empty_vault_def count_of_def segment_entries_def)

lemma vault_history_ok: "vault_ok (foldl (vault_step P) (empty_vault dir) es)"
  by (rule vault_machine.run_invar [OF empty_vault_ok])

subsection \<open>Evidence that is still there\<close>

definition stored_at :: "'a vaultlib_scheme \<Rightarrow> vaultRecord \<Rightarrow> EvidenceVault \<Rightarrow> bool" where
  "stored_at P r v \<longleftrightarrow>
     (\<exists>loc content. map_of (ev_index v) (vr_Handle r) = Some loc \<and> map_of (ev_files v) (vl_path loc) = Some content \<and>
        vl_offset loc + vl_length loc \<le> length content \<and>
        take (vl_length loc) (drop (vl_offset loc) content) = marshal_vault P r \<and> vl_record loc = r)"

lemma expire_one_keeps:
  "map_of (ev_index v) h = Some loc \<Longrightarrow> now < vr_ExpiresAt (vl_record loc) \<Longrightarrow> vx_expiresAt x \<le> now \<Longrightarrow>
     map_of (ev_index (expire_one v x)) h = Some loc"
  by (auto simp: expire_one_def split: option.split)

lemma expire_all_keeps:
  "map_of (ev_index v) h = Some loc \<Longrightarrow> now < vr_ExpiresAt (vl_record loc) \<Longrightarrow> \<forall>x \<in> set xs. vx_expiresAt x \<le> now \<Longrightarrow>
     map_of (ev_index (foldl expire_one v xs)) h = Some loc"
  by (induction xs arbitrary: v) (auto simp: expire_one_keeps)

lemma remove_empty_files:
  "\<forall>(q, n) \<in> set es. q = p \<longrightarrow> n \<noteq> 0 \<Longrightarrow> map_of (ev_files (snd (remove_empty es removable v))) p = map_of (ev_files v) p"
  by (induction es arbitrary: v) (auto simp: remove_segment_def)

lemma segment_entries_pos: "map_of index h = Some loc \<Longrightarrow> segment_entries (vl_path loc) index > 0"
  using map_of_SomeD [of index h loc] by (auto simp: segment_entries_def filter_empty_conv)

lemma gc_keeps_location:
  assumes ok: "vault_ok v" and loc: "map_of (ev_index v) h = Some loc" and now: "now < vr_ExpiresAt (vl_record loc)"
  shows "map_of (ev_index (snd (gcLocked removable now v))) h = Some loc"
    and "map_of (ev_files (snd (gcLocked removable now v))) (vl_path loc) = map_of (ev_files v) (vl_path loc)"
proof -
  define v1 where "v1 = foldl expire_one (v\<lparr>ev_expirations := filter (\<lambda>x. \<not> vx_expiresAt x \<le> now) (ev_expirations v)\<rparr>)
    (filter (\<lambda>x. vx_expiresAt x \<le> now) (ev_expirations v))"
  have gc: "snd (gcLocked removable now v) = snd (remove_empty (ev_segmentEntries v1) removable v1)"
    by (simp add: gcLocked_def Let_def v1_def)
  have idx: "map_of (ev_index v1) h = Some loc" unfolding v1_def
    by (rule expire_all_keeps [of _ _ _ now]) (use loc now in auto)
  have "vault_ok v1" unfolding v1_def by (rule expire_all_ok) (simp add: ok)
  then have "count_of (ev_segmentEntries v1) (vl_path loc) \<noteq> 0" and "distinct (map fst (ev_segmentEntries v1))"
    using segment_entries_pos [OF idx] by (auto simp: vault_ok_def)
  then have "map_of (ev_files (snd (remove_empty (ev_segmentEntries v1) removable v1))) (vl_path loc) = map_of (ev_files v1) (vl_path loc)"
    using entries_self by (intro remove_empty_files) fastforce
  moreover have "ev_files v1 = ev_files v" by (simp add: v1_def)
  ultimately show "map_of (ev_index (snd (gcLocked removable now v))) h = Some loc"
    "map_of (ev_files (snd (gcLocked removable now v))) (vl_path loc) = map_of (ev_files v) (vl_path loc)"
    using idx by (simp_all add: gc)
qed

lemma gc_keeps:
  assumes "vault_ok v" and "stored_at P r v" and "now < vr_ExpiresAt r"
  shows "stored_at P r (snd (gcLocked removable now v))"
  using assms gc_keeps_location [OF assms(1)] unfolding stored_at_def by fastforce

lemma write_segment_prefix: "\<exists>more. write_segment io content line = content @ more"
  by (cases io) (auto simp: write_segment_def)

lemma store_keeps:
  assumes "stored_at P kept v" "vr_Handle r \<noteq> vr_Handle kept"
  shows "stored_at P kept (snd (store_record io now r line v))"
proof -
  from assms(1) obtain loc content where
    loc: "map_of (ev_index v) (vr_Handle kept) = Some loc" "map_of (ev_files v) (vl_path loc) = Some content" "vl_record loc = kept"
      "vl_offset loc + vl_length loc \<le> length content"
      "take (vl_length loc) (drop (vl_offset loc) content) = marshal_vault P kept"
    unfolding stored_at_def by blast
  define v' where "v' = snd (store_record io now r line v)"
  have "\<exists>more. map_of (ev_files v') (vl_path loc) = Some (content @ more)"
    using loc(2) write_segment_prefix [of io content line] by (auto simp: v'_def store_record_def Let_def file_of_def)
  moreover have "map_of (ev_index v') (vr_Handle kept) = Some loc" using loc(1) assms(2) by (simp add: v'_def store_record_def Let_def)
  ultimately show ?thesis unfolding v'_def [symmetric] stored_at_def using loc by fastforce
qed

lemma VaultConfigure_fields [simp]:
  "ev_index (snd (VaultConfigure policy v)) = ev_index v" "ev_files (snd (VaultConfigure policy v)) = ev_files v"
  "ev_dir (snd (VaultConfigure policy v)) = ev_dir v" "ev_expirations (snd (VaultConfigure policy v)) = ev_expirations v"
  by (simp_all add: VaultConfigure_def split: option.split)

lemma stored_at_Configure [simp]: "stored_at P r (snd (VaultConfigure policy v)) = stored_at P r v"
  by (simp add: stored_at_def)

lemma step_keeps:
  assumes "vault_ok v" "stored_at P kept v" "\<forall>t. event_time ev = Some t \<longrightarrow> t < vr_ExpiresAt kept"
  shows "stored_at P kept (vault_step P v ev)"
proof (rule vault_step_induct [where I = "stored_at P kept"])
  fix io now nonce raw' risk v1 and r :: vaultRecord
  assume "stored_at P kept v1" "map_of (ev_index v) (vr_Handle r) = None"
  moreover have "map_of (ev_index v) (vr_Handle kept) \<noteq> None" using assms(2) by (auto simp: stored_at_def)
  ultimately show "stored_at P kept (snd (store_record io now r (marshal_vault P r @ newline) v1))"
    by (intro store_keeps) auto
qed (use assms gc_keeps in auto)

lemma run_keeps:
  "vault_ok v \<Longrightarrow> stored_at P kept v \<Longrightarrow> \<forall>ev \<in> set es. \<forall>t. event_time ev = Some t \<longrightarrow> t < vr_ExpiresAt kept \<Longrightarrow>
     stored_at P kept (foldl (vault_step P) v es)"
  by (induction es arbitrary: v) (auto simp: step_keeps vault_machine.step_invar)

definition cipher_faithful :: "'a vaultlib_scheme \<Rightarrow> bool" where
  "cipher_faithful P \<longleftrightarrow> (\<forall>nonce raw aad. aead_open P nonce (aead_seal P nonce raw aad) aad = Some raw) \<and>
     (\<forall>b. b64_decode P (b64_encode P b) = Some b)"

definition json_faithful :: "'a vaultlib_scheme \<Rightarrow> vaultRecord \<Rightarrow> bool" where
  "json_faithful P r \<longleftrightarrow> unmarshal_vault P (marshal_vault P r) = Some r"

lemma seal_record_cipher:
  "vr_Cipher (seal_record P v h nonce raw risk now) = b64_encode P (aead_seal P nonce raw (vaultRecordAAD P (seal_record P v h nonce raw risk now)))"
  by (simp add: seal_record_def Let_def vaultRecordAAD_def)

lemma Get_stored:
  assumes "cipher_faithful P" "json_faithful P r" and r: "r = seal_record P v0 h nonce raw risk now" and "stored_at P r v" "t < vr_ExpiresAt r"
  shows "Get P removable h t v = (Inr (raw, evidence_digest P raw, True), v)"
proof -
  from assms(4) obtain loc content where
    loc: "map_of (ev_index v) h = Some loc" "map_of (ev_files v) (vl_path loc) = Some content" "vl_record loc = r"
      "vl_offset loc + vl_length loc \<le> length content" "take (vl_length loc) (drop (vl_offset loc) content) = marshal_vault P r"
    unfolding stored_at_def by (auto simp: r)
  have len: "length (marshal_vault P r) = vl_length loc" using loc(4) arg_cong [OF loc(5), of length] by simp
  have "open_record P h loc content = Inr (raw, evidence_digest P raw)"
    using assms(1,2) loc len seal_record_cipher [of P v0 h nonce raw risk now]
    by (simp add: open_record_def cipher_faithful_def json_faithful_def r Let_def)
  then show ?thesis using assms(5) loc by (simp add: Get_def)
qed

lemma put_stored:
  assumes "vault_ok v" "PutRisk P io removable draws (Some nonce) evidence risk now v = (Inr (h, d, e), v')"
  shows "stored_at P (seal_record P v h nonce (take (ev_maxEntry v) evidence) risk now) v'" and "e = now + ev_ttl v"
proof -
  have "stored_at P (seal_record P v h nonce (take (ev_maxEntry v) evidence) risk now) v' \<and> e = now + ev_ttl v"
  proof (cases rule: PutRisk_cases [of P io removable draws "Some nonce" evidence risk now v])
    case (stored handle nonce' v1 r line)
    have n: "nonce' = nonce" using stored(1) by simp
    have st: "store_record io now r line v1 = (Inr (h, d, e), v')" using stored(9) assms(2) by simp
    have good: "io = PutWorks \<or> io = DirectorySyncFails" using st by (auto simp: store_record_def Let_def split: if_split_asm)
    have h: "h = handle" "e = now + ev_ttl v" using st by (auto simp: store_record_def Let_def stored(5) split: if_split_asm)
    have r: "r = seal_record P v h nonce (take (ev_maxEntry v) evidence) risk now" using stored(5) h n by simp
    have "stored_at P r v'"
      using st good by (auto simp: stored_at_def store_record_def Let_def write_segment_def stored(6) newline_def split: if_split_asm)
    then show ?thesis using r h by simp
  qed (use assms(2) in simp_all)
  then show "stored_at P (seal_record P v h nonce (take (ev_maxEntry v) evidence) risk now) v'" "e = now + ev_ttl v" by simp_all
qed

subsection \<open>Capacity\<close>

lemma sum_counts:
  assumes "distinct (map fst m)" "finite A" "fst ` set m \<subseteq> A"
  shows "sum_list (map snd m) = sum (count_of m) A"
  using assms
proof (induction m)
  case (Cons x m)
  have "sum (count_of (x # m)) A = sum (\<lambda>p. count_of m p + (if p = fst x then snd x else 0)) A"
    using Cons.prems(1) by (intro sum.cong) (auto simp: count_of_def map_of_eq_None_iff [symmetric] split: option.split)
  then show ?case using Cons by (simp add: sum.distrib)
qed (simp add: count_of_def)

lemma sum_counts_eq:
  assumes "distinct (map fst m)" "distinct (map fst m')" "\<forall>p. count_of m p = count_of m' p"
  shows "sum_list (map snd m) = sum_list (map snd m')"
proof -
  have "count_of m = count_of m'" using assms(3) by auto
  then show ?thesis
    using sum_counts [OF assms(1), of "fst ` set m \<union> fst ` set m'"] sum_counts [OF assms(2), of "fst ` set m \<union> fst ` set m'"] by simp
qed

text \<open>Accesses that leave no unaccounted bytes: they work, or they fail and the truncation undoes them.\<close>

fun clean_io :: "put_io \<Rightarrow> bool" where
  "clean_io (WriteFails n rolledBack) = rolledBack"
| "clean_io (SyncFails rolledBack) = rolledBack"
| "clean_io io = (io = PutWorks \<or> io = OpenFails)"

fun plain_event :: "vault_event \<Rightarrow> bool" where
  "plain_event (PutEvent io removable draws nonce evidence risk now) = clean_io io"
| "plain_event (ConfigureEvent policy) = False"
| "plain_event e = True"

definition disk_bytes :: "EvidenceVault \<Rightarrow> int" where
  "disk_bytes v = sum_list (map (\<lambda>f. int (length (snd f))) (ev_files v))"

definition capacity_ok :: "EvidenceVault \<Rightarrow> bool" where
  "capacity_ok v \<longleftrightarrow> vault_ok v \<and> ev_usedBytes v \<le> ev_maxBytes v \<and>
     (\<forall>p. int (length (file_of (ev_files v) p)) = count_of (ev_segmentSizes v) p)"

lemma disk_bytes_used: "capacity_ok v \<Longrightarrow> disk_bytes v = ev_usedBytes v"
proof -
  assume ok: "capacity_ok v"
  let ?m = "map (\<lambda>f. (fst f, int (length (snd f)))) (ev_files v)"
  have "count_of (map (\<lambda>f. (fst f, int (length (snd f)))) fs) p = int (length (file_of fs p))" for fs p
    by (induction fs) (auto simp: count_of_def file_of_def)
  then show ?thesis using ok sum_counts_eq [of ?m "ev_segmentSizes v"]
    by (simp add: capacity_ok_def vault_ok_def disk_bytes_def o_def)
qed

lemma file_of_update [simp]: "file_of (AList.update k c m) j = (if j = k then c else file_of m j)"
  by (simp add: file_of_def)

lemma file_of_delete [simp]: "file_of (AList.delete k m) j = (if j = k then [] else file_of m j)"
  by (simp add: file_of_def)

lemma remove_empty_capacity:
  "\<forall>p. int (length (file_of (ev_files v) p)) = count_of (ev_segmentSizes v) p \<Longrightarrow>
     (\<forall>p. int (length (file_of (ev_files (snd (remove_empty es removable v))) p)) = count_of (ev_segmentSizes (snd (remove_empty es removable v))) p) \<and>
     ev_usedBytes (snd (remove_empty es removable v)) \<le> ev_usedBytes v"
proof (induction es arbitrary: v)
  case (Cons pe es)
  let ?v = "remove_segment (fst pe) v"
  have sizes: "\<forall>p. int (length (file_of (ev_files ?v) p)) = count_of (ev_segmentSizes ?v) p"
    using Cons.prems by (simp add: remove_segment_def)
  have "0 \<le> count_of (ev_segmentSizes v) (fst pe)" using spec [OF Cons.prems, of "fst pe"] by linarith
  then have "ev_usedBytes ?v \<le> ev_usedBytes v" by (simp add: remove_segment_def)
  then show ?case using Cons.IH [OF sizes] Cons.IH [OF Cons.prems] Cons.prems by (simp add: order_trans)
qed simp

lemma gc_capacity:
  assumes "capacity_ok v"
  shows "capacity_ok (snd (gcLocked removable now v))"
proof -
  define v1 where "v1 = foldl expire_one (v\<lparr>ev_expirations := filter (\<lambda>x. \<not> vx_expiresAt x \<le> now) (ev_expirations v)\<rparr>)
    (filter (\<lambda>x. vx_expiresAt x \<le> now) (ev_expirations v))"
  have gc: "snd (gcLocked removable now v) = snd (remove_empty (ev_segmentEntries v1) removable v1)" by (simp add: gcLocked_def Let_def v1_def)
  have same: "ev_files v1 = ev_files v" "ev_segmentSizes v1 = ev_segmentSizes v" "ev_usedBytes v1 = ev_usedBytes v" by (simp_all add: v1_def)
  have "\<forall>p. int (length (file_of (ev_files v1) p)) = count_of (ev_segmentSizes v1) p" using assms by (simp add: capacity_ok_def same)
  from remove_empty_capacity [OF this, of "ev_segmentEntries v1" removable] show ?thesis
    using assms gc_ok [of v removable now] unfolding capacity_ok_def gc [symmetric] by (auto simp: same)
qed

lemma store_capacity:
  assumes "capacity_ok v" "clean_io io" "map_of (ev_index v) (vr_Handle r) = None" "ev_usedBytes v + int (length line) \<le> ev_maxBytes v"
  shows "capacity_ok (snd (store_record io now r line v))"
proof -
  have "vault_ok (snd (store_record io now r line v))" using assms by (intro store_ok) (auto simp: capacity_ok_def)
  then show ?thesis using assms
    by (cases io) (auto simp: capacity_ok_def store_record_def Let_def write_segment_def)
qed

lemma step_capacity:
  assumes "capacity_ok v" "plain_event e"
  shows "capacity_ok (vault_step P v e)"
proof (rule vault_step_induct [where I = capacity_ok])
  fix io now nonce raw risk v1 and r :: vaultRecord
  assume "capacity_ok v1" "v1 = v \<or> (\<exists>removable. v1 = snd (gcLocked removable now v))" "map_of (ev_index v) (vr_Handle r) = None"
    and "\<exists>removable draws nonce evidence. e = PutEvent io removable draws nonce evidence risk now"
    and "ev_usedBytes v1 + int (length (marshal_vault P r @ newline)) \<le> ev_maxBytes v"
  then show "capacity_ok (snd (store_record io now r (marshal_vault P r @ newline) v1))"
    using gc_index [of _ now v "vr_Handle r"] assms(2) by (intro store_capacity) auto
qed (use assms gc_capacity in auto)

lemma run_capacity: "capacity_ok v \<Longrightarrow> list_all plain_event es \<Longrightarrow> capacity_ok (foldl (vault_step P) v es)"
  by (induction es arbitrary: v) (auto simp: step_capacity)

end
