(* ===== verification/Evidence_Vault_Recovery.thy ===== *)
theory Evidence_Vault_Recovery
  imports Evidence_Vault_Laws "HOL-Library.Multiset"
begin

text \<open>
  Restarting the evidence store: what the segment files hold is related to the index, and rebuilding the
  index from the files, cut off at a torn line, gives back every handle that has not expired.
\<close>

subsection \<open>The records of a segment\<close>

definition record_line :: "'a vaultlib_scheme \<Rightarrow> vaultRecord \<Rightarrow> bytes" where
  "record_line P r = marshal_vault P r @ newline"

definition segment_bytes :: "'a vaultlib_scheme \<Rightarrow> vaultRecord list \<Rightarrow> bytes" where
  "segment_bytes P rs = concat (map (record_line P) rs)"

fun located :: "'a vaultlib_scheme \<Rightarrow> string \<Rightarrow> nat \<Rightarrow> vaultRecord list \<Rightarrow> (string \<times> vaultLocation) list" where
  "located P p offset [] = []"
| "located P p offset (r # rs) =
     (vr_Handle r, \<lparr>vl_path = p, vl_offset = offset, vl_length = length (marshal_vault P r), vl_record = r\<rparr>) #
     located P p (offset + length (record_line P r)) rs"

definition readable :: "'a vaultlib_scheme \<Rightarrow> vaultRecord \<Rightarrow> bool" where
  "readable P r \<longleftrightarrow> json_faithful P r \<and> CHR 0x0A \<notin> set (marshal_vault P r) \<and> marshal_vault P r \<noteq> [] \<and>
     vr_Version r = 2 \<and> vr_Handle r \<noteq> [] \<and> vr_Digest r \<noteq> [] \<and> vr_Nonce r \<noteq> [] \<and> vr_Cipher r \<noteq> [] \<and> vr_CreatedAt r \<le> vr_ExpiresAt r"

lemma located_append:
  "located P p offset (rs @ qs) = located P p offset rs @ located P p (offset + length (segment_bytes P rs)) qs"
  by (induction rs arbitrary: offset) (simp_all add: segment_bytes_def add.assoc)

lemma located_handles [simp]: "map fst (located P p offset rs) = map vr_Handle rs"
  by (induction rs arbitrary: offset) simp_all

lemma located_path: "(h, loc) \<in> set (located P p offset rs) \<Longrightarrow> vl_path loc = p \<and> vl_record loc \<in> set rs \<and> vr_Handle (vl_record loc) = h"
  by (induction rs arbitrary: offset) auto

lemma split_segment:
  assumes "list_all (readable P) rs" "CHR 0x0A \<notin> set torn"
  shows "split_on (CHR 0x0A) (segment_bytes P rs @ torn) = map (marshal_vault P) rs @ [torn]"
  using assms
proof (induction rs)
  case (Cons r rs)
  have "split_on (CHR 0x0A) (marshal_vault P r @ CHR 0x0A # segment_bytes P rs @ torn) =
      marshal_vault P r # split_on (CHR 0x0A) (segment_bytes P rs @ torn)"
    by (rule split_on_append) (use Cons.prems(1) in \<open>simp add: readable_def\<close>)
  then show ?case using Cons by (simp add: segment_bytes_def record_line_def newline_def)
qed (simp add: segment_bytes_def split_on_single)

lemma scan_located:
  assumes "list_all (readable P) rs" "distinct (map vr_Handle rs)" "\<forall>r \<in> set rs. map_of index (vr_Handle r) = None"
  shows "scan_segment P p offset (map (marshal_vault P) rs) index xs =
    (Some (index @ located P p offset rs, offset + length (segment_bytes P rs)),
     rev (map (\<lambda>r. \<lparr>vx_handle = vr_Handle r, vx_path = p, vx_expiresAt = vr_ExpiresAt r\<rparr>) rs) @ xs)"
  using assms
proof (induction rs arbitrary: offset index xs)
  case (Cons r rs)
  let ?loc = "\<lparr>vl_path = p, vl_offset = offset, vl_length = length (marshal_vault P r), vl_record = r\<rparr>"
  have r: "unmarshal_vault P (marshal_vault P r) = Some r" "marshal_vault P r \<noteq> []" "map_of index (vr_Handle r) = None"
    using Cons.prems by (simp_all add: readable_def json_faithful_def)
  have "\<forall>q \<in> set rs. map_of (index @ [(vr_Handle r, ?loc)]) (vr_Handle q) = None"
  proof
    fix q assume q: "q \<in> set rs"
    then have "vr_Handle q \<in> vr_Handle ` set rs" by simp
    then have "vr_Handle q \<noteq> vr_Handle r" using Cons.prems(2) by auto
    then show "map_of (index @ [(vr_Handle r, ?loc)]) (vr_Handle q) = None" using Cons.prems(3) q by (simp add: map_add_def)
  qed
  from Cons.IH [OF _ _ this] show ?case
    using Cons.prems r by (simp add: readable_def update_absent segment_bytes_def record_line_def newline_def not_less add.assoc)
qed (simp add: segment_bytes_def)

lemma located_content:
  assumes "(h, loc) \<in> set (located P p 0 rs)"
  shows "vl_offset loc + vl_length loc \<le> length (segment_bytes P rs)"
    and "take (vl_length loc) (drop (vl_offset loc) (segment_bytes P rs)) = marshal_vault P (vl_record loc)"
proof -
  have "vl_offset loc + vl_length loc \<le> length before + length (segment_bytes P rs) \<and>
      take (vl_length loc) (drop (vl_offset loc) (before @ segment_bytes P rs)) = marshal_vault P (vl_record loc)"
    if "(h, loc) \<in> set (located P p (length before) rs)" for before
    using that
  proof (induction rs arbitrary: before)
    case (Cons r rs)
    show ?case
    proof (cases "(h, loc) \<in> set (located P p (length (before @ record_line P r)) rs)")
      case True
      from Cons.IH [OF True] show ?thesis by (simp add: segment_bytes_def)
    next
      case False
      then show ?thesis using Cons.prems by (auto simp: segment_bytes_def record_line_def)
    qed
  qed simp
  from this [of "[]"] assms show "vl_offset loc + vl_length loc \<le> length (segment_bytes P rs)"
    "take (vl_length loc) (drop (vl_offset loc) (segment_bytes P rs)) = marshal_vault P (vl_record loc)" by simp_all
qed

subsection \<open>The disk of a history\<close>

type_synonym segments = "(string \<times> vaultRecord list) list"

definition seg_files :: "'a vaultlib_scheme \<Rightarrow> segments \<Rightarrow> (string \<times> bytes) list" where
  "seg_files P segs = map (\<lambda>s. (fst s, segment_bytes P (snd s))) segs"

definition records_of :: "segments \<Rightarrow> vaultRecord list" where
  "records_of segs = concat (map snd segs)"

definition seg_of :: "segments \<Rightarrow> string \<Rightarrow> vaultRecord list" where
  "seg_of segs p = (case map_of segs p of None \<Rightarrow> [] | Some rs \<Rightarrow> rs)"

text \<open>The files hold whole records, and every indexed record is where the index says.\<close>

definition on_disk :: "'a vaultlib_scheme \<Rightarrow> segments \<Rightarrow> EvidenceVault \<Rightarrow> bool" where
  "on_disk P segs v \<longleftrightarrow> ev_files v = seg_files P segs \<and> distinct (map fst segs) \<and>
     (\<forall>(h, loc) \<in> set (ev_index v). (h, loc) \<in> set (located P (vl_path loc) 0 (seg_of segs (vl_path loc))))"

lemma seg_files_update: "AList.update p (segment_bytes P rs) (seg_files P segs) = seg_files P (AList.update p rs segs)"
  by (induction segs) (auto simp: seg_files_def)

lemma seg_files_delete: "AList.delete p (seg_files P segs) = seg_files P (AList.delete p segs)"
  by (induction segs) (auto simp: seg_files_def delete_filter)

lemma file_of_seg_files: "file_of (seg_files P segs) p = segment_bytes P (seg_of segs p)"
  by (induction segs) (auto simp: seg_files_def seg_of_def file_of_def segment_bytes_def)

lemma seg_of_update [simp]: "seg_of (AList.update p rs segs) q = (if q = p then rs else seg_of segs q)"
  by (simp add: seg_of_def)

lemma seg_of_delete [simp]: "seg_of (AList.delete p segs) q = (if q = p then [] else seg_of segs q)"
  by (simp add: seg_of_def)

lemma on_disk_expire: "on_disk P segs v \<Longrightarrow> on_disk P segs (expire_one v x)"
  by (auto simp: on_disk_def expire_one_def delete_filter split: option.split)

lemma on_disk_expire_all: "on_disk P segs v \<Longrightarrow> on_disk P segs (foldl expire_one v xs)"
  by (induction xs arbitrary: v) (auto simp: on_disk_expire)

lemma records_of_delete:
  "set (records_of (AList.delete p segs)) \<subseteq> set (records_of segs)"
  "distinct (map vr_Handle (records_of segs)) \<Longrightarrow> distinct (map vr_Handle (records_of (AList.delete p segs)))"
  by (induction segs) (auto simp: records_of_def delete_filter)

lemma records_of_extend:
  assumes "distinct (map fst segs)"
  shows "mset (records_of (AList.update p (seg_of segs p @ [r]) segs)) = mset (records_of segs) + {#r#}"
  using assms
proof (induction segs)
  case (Cons s segs)
  show ?case
  proof (cases "fst s = p")
    case False
    then have "seg_of (s # segs) p = seg_of segs p" by (simp add: seg_of_def)
    then show ?thesis using False Cons by (cases s) (simp add: records_of_def)
  qed (cases s; simp add: records_of_def seg_of_def)
qed (simp add: records_of_def seg_of_def)

definition disk_inv :: "'a vaultlib_scheme \<Rightarrow> vaultRecord set \<Rightarrow> EvidenceVault \<Rightarrow> bool" where
  "disk_inv P W v \<longleftrightarrow> (\<exists>segs. on_disk P segs v \<and> set (records_of segs) \<subseteq> W \<and> distinct (map vr_Handle (records_of segs)))"

lemma on_disk_remove:
  assumes "vault_ok v" "on_disk P segs v" "count_of (ev_segmentEntries v) p = 0"
  shows "on_disk P (AList.delete p segs) (remove_segment p v)"
proof -
  have "segment_entries p (ev_index v) = 0" using assms(1,3) by (simp add: vault_ok_def)
  then have "vl_path loc \<noteq> p" if "(h, loc) \<in> set (ev_index v)" for h loc
    using that by (auto simp: segment_entries_def filter_empty_conv)
  then show ?thesis using assms(2) by (auto simp: on_disk_def remove_segment_def seg_files_delete distinct_delete)
qed

lemma remove_empty_disk:
  assumes "vault_ok v" "disk_inv P W v" "distinct (map fst es)" "\<forall>(p, n) \<in> set es. count_of (ev_segmentEntries v) p = n"
  shows "disk_inv P W (snd (remove_empty es removable v))"
  using assms
proof (induction es arbitrary: v)
  case (Cons pe es)
  have rest: "\<forall>(p, n) \<in> set es. count_of (ev_segmentEntries (remove_segment (fst pe) v)) p = n"
    using Cons.prems(3,4) by (force simp: remove_segment_def)
  have "disk_inv P W (remove_segment (fst pe) v)" if "snd pe = 0"
  proof -
    from Cons.prems(2) obtain segs where segs: "on_disk P segs v" "set (records_of segs) \<subseteq> W" "distinct (map vr_Handle (records_of segs))"
      unfolding disk_inv_def by blast
    have "count_of (ev_segmentEntries v) (fst pe) = 0" using Cons.prems(4) that by (cases pe) auto
    from on_disk_remove [OF Cons.prems(1) segs(1) this] records_of_delete [where p = "fst pe" and segs = segs] segs show ?thesis
      unfolding disk_inv_def by blast
  qed
  then show ?case
    using Cons remove_segment_ok [OF Cons.prems(1), of "fst pe"] rest by (auto simp: case_prod_unfold)
qed simp

lemma gc_disk:
  assumes "vault_ok v" "disk_inv P W v"
  shows "disk_inv P W (snd (gcLocked removable now v))"
proof -
  define v1 where "v1 = foldl expire_one (v\<lparr>ev_expirations := filter (\<lambda>x. \<not> vx_expiresAt x \<le> now) (ev_expirations v)\<rparr>)
    (filter (\<lambda>x. vx_expiresAt x \<le> now) (ev_expirations v))"
  have "vault_ok v1" unfolding v1_def by (rule expire_all_ok) (simp add: assms)
  moreover have "disk_inv P W v1" using assms(2) unfolding disk_inv_def v1_def
    by (fastforce intro: on_disk_expire_all simp: on_disk_def)
  ultimately show ?thesis unfolding gcLocked_def Let_def v1_def [symmetric]
    by (intro remove_empty_disk entries_self) (auto simp: vault_ok_def)
qed

lemma store_disk_failed:
  assumes "disk_inv P W v" "clean_io io" "io \<noteq> PutWorks"
  shows "disk_inv P W (snd (store_record io now r line v))" and "\<exists>e. fst (store_record io now r line v) = Inl e"
proof -
  let ?p = "segment_path (ev_dir v) now"
  have io: "write_segment io content l = content" "io \<noteq> DirectorySyncFails" for content l
    using assms(2,3) by (cases io; auto simp: write_segment_def)+
  from assms(1) obtain segs where segs: "on_disk P segs v" "set (records_of segs) \<subseteq> W" "distinct (map vr_Handle (records_of segs))"
    unfolding disk_inv_def by blast
  have files: "AList.update ?p (file_of (ev_files v) ?p) (ev_files v) = seg_files P (AList.update ?p (seg_of segs ?p) segs)"
    using segs(1) by (simp add: on_disk_def file_of_seg_files seg_files_update)
  have same: "records_of (AList.update ?p (seg_of segs ?p) segs) = records_of segs"
    by (induction segs) (auto simp: records_of_def seg_of_def)
  have "on_disk P (AList.update ?p (seg_of segs ?p) segs) (snd (store_record io now r line v))" if "io \<noteq> OpenFails"
    using segs(1) io that assms(3) files by (auto simp: store_record_def Let_def on_disk_def distinct_update)
  moreover have "snd (store_record io now r line v) = v" if "io = OpenFails"
    using that by (simp add: store_record_def Let_def)
  ultimately show "disk_inv P W (snd (store_record io now r line v))"
    using segs same unfolding disk_inv_def by metis
  show "\<exists>e. fst (store_record io now r line v) = Inl e" using io(2) assms(3) by (simp add: store_record_def Let_def)
qed

lemma store_disk_works:
  assumes "disk_inv P W v" "map_of (ev_index v) (vr_Handle r) = None" "vr_Handle r \<notin> vr_Handle ` W"
  shows "disk_inv P (insert r W) (snd (store_record PutWorks now r (marshal_vault P r @ newline) v))"
proof -
  let ?p = "segment_path (ev_dir v) now"
  from assms(1) obtain segs where segs: "on_disk P segs v" "set (records_of segs) \<subseteq> W" "distinct (map vr_Handle (records_of segs))"
    unfolding disk_inv_def by blast
  define segs' where "segs' = AList.update ?p (seg_of segs ?p @ [r]) segs"
  have rec: "mset (records_of segs') = mset (r # records_of segs)"
    using segs(1) records_of_extend [of segs ?p r] by (simp add: on_disk_def segs'_def)
  then have set: "set (records_of segs') = insert r (set (records_of segs))" by (metis list.simps(15) set_mset_mset)
  have "mset (map vr_Handle (records_of segs')) = mset (map vr_Handle (r # records_of segs))" by (simp only: mset_map rec)
  then have dist: "distinct (map vr_Handle (records_of segs'))"
    using segs(2,3) assms(3) by (subst mset_eq_imp_distinct_iff [of _ "map vr_Handle (r # records_of segs)"]) auto
  have "file_of (ev_files v) ?p @ marshal_vault P r @ newline = segment_bytes P (seg_of segs ?p @ [r])"
    using segs(1) by (simp add: on_disk_def file_of_seg_files segment_bytes_def record_line_def)
  then have "on_disk P segs' (snd (store_record PutWorks now r (marshal_vault P r @ newline) v))"
    using segs(1) assms(2)
    by (auto simp: store_record_def Let_def on_disk_def write_segment_def seg_files_update segs'_def distinct_update update_absent
        located_append file_of_seg_files newline_def)
  then show ?thesis using set dist segs(2) unfolding disk_inv_def by blast
qed

text \<open>The records a history writes.\<close>

fun put_record :: "'a vaultlib_scheme \<Rightarrow> EvidenceVault \<Rightarrow> vault_event \<Rightarrow> vaultRecord list" where
  "put_record P v (PutEvent io removable draws nonce evidence risk now) =
     (case (fst (PutRisk P io removable draws nonce evidence risk now v), nonce) of
        (Inr (h, _, _), Some n) \<Rightarrow> [seal_record P v h n (take (ev_maxEntry v) evidence) risk now]
      | _ \<Rightarrow> [])"
| "put_record P v e = []"

primrec written :: "'a vaultlib_scheme \<Rightarrow> EvidenceVault \<Rightarrow> vault_event list \<Rightarrow> vaultRecord list" where
  "written P v [] = []"
| "written P v (e # es) = put_record P v e @ written P (vault_step P v e) es"

fun clean_event :: "vault_event \<Rightarrow> bool" where
  "clean_event (PutEvent io removable draws nonce evidence risk now) = clean_io io"
| "clean_event e = True"

lemma step_disk:
  assumes ok: "vault_ok v" and inv: "disk_inv P W v" and "clean_event e" "vr_Handle ` set (put_record P v e) \<inter> vr_Handle ` W = {}"
  shows "disk_inv P (W \<union> set (put_record P v e)) (vault_step P v e)"
proof (cases e)
  case (PutEvent io removable draws nonce evidence risk now)
  show ?thesis
  proof (cases rule: PutRisk_cases [of P io removable draws nonce evidence risk now v])
    case (stored h n v1 r line)
    have v1: "disk_inv P W v1" using stored(4) inv gc_disk [OF ok inv] by auto
    have fresh: "map_of (ev_index v1) (vr_Handle r) = None"
      using stored(4,5) fresh_handle_fresh [OF stored(2)] gc_index [of removable now v h] by auto
    show ?thesis
    proof (cases "io = PutWorks")
      case True
      then have "put_record P v e = [r]" using PutEvent stored by (simp add: store_record_def Let_def)
      then show ?thesis using store_disk_works [OF v1 fresh] assms(4) PutEvent True stored(6,9) by simp
    next
      case False
      have "clean_io io" using assms(3) PutEvent by simp
      from store_disk_failed [OF v1 this False, of now r line] show ?thesis
        using PutEvent stored(1,9) by (auto split: sum.split)
    qed
  qed (use inv gc_disk [OF ok inv] PutEvent in simp_all)
next
  case (GetEvent removable handle now)
  then show ?thesis using Get_state [of P removable handle now v] inv gc_disk [OF ok inv] by auto
next
  case (ConfigureEvent policy)
  then show ?thesis using inv by (simp add: disk_inv_def on_disk_def)
qed (use gc_disk [OF ok inv] in simp)

lemma run_disk:
  assumes "vault_ok v" "disk_inv P W v" "list_all clean_event es" "distinct (map vr_Handle (written P v es))"
    "vr_Handle ` set (written P v es) \<inter> vr_Handle ` W = {}"
  shows "disk_inv P (W \<union> set (written P v es)) (foldl (vault_step P) v es)"
  using assms
proof (induction es arbitrary: v W)
  case (Cons e es)
  have "disk_inv P (W \<union> set (put_record P v e)) (vault_step P v e)" using Cons.prems by (intro step_disk) auto
  moreover have "vr_Handle ` set (written P (vault_step P v e) es) \<inter> vr_Handle ` (W \<union> set (put_record P v e)) = {}"
    using Cons.prems(4,5) by auto
  ultimately show ?case
    using Cons.IH [of "vault_step P v e" "W \<union> set (put_record P v e)"] Cons.prems vault_machine.step_invar [OF Cons.prems(1), of P e]
    by (simp add: Un_assoc)
qed simp

subsection \<open>Rebuilding\<close>

definition torn :: "(string \<Rightarrow> bytes) \<Rightarrow> (string \<times> bytes) list \<Rightarrow> (string \<times> bytes) list" where
  "torn tail files = map (\<lambda>f. (fst f, snd f @ tail (fst f))) files"

lemma segment_entries_append [simp]: "segment_entries p (xs @ ys) = segment_entries p xs + segment_entries p ys"
  by (simp add: segment_entries_def)

lemma segment_entries_located:
  "segment_entries q (located P p offset rs) = (if q = p then int (length rs) else 0)"
  by (induction rs arbitrary: offset) (auto simp: segment_entries_def)

definition untouched :: "string \<Rightarrow> EvidenceVault \<Rightarrow> bool" where
  "untouched p v \<longleftrightarrow> count_of (ev_segmentSizes v) p = 0 \<and> segment_entries p (ev_index v) = 0"

lemma rebuild_segment_readable:
  assumes ok: "vault_ok v" and rs: "list_all (readable P) rs" "distinct (map vr_Handle rs)"
    and fresh: "\<forall>r \<in> set rs. map_of (ev_index v) (vr_Handle r) = None" and p: "untouched p v" and tail: "CHR 0x0A \<notin> set tail"
    and v': "v' = rebuild_segment P v (p, segment_bytes P rs @ tail)"
  shows "vault_ok v'" and "ev_index v' = ev_index v @ located P p 0 rs"
    and "ev_files v' = AList.update p (segment_bytes P rs) (ev_files v)"
    and "q \<noteq> p \<Longrightarrow> untouched q v \<Longrightarrow> untouched q v'"
proof -
  have whole: "concat (map (\<lambda>l. l @ newline) (map (marshal_vault P) rs)) = segment_bytes P rs"
    by (simp add: segment_bytes_def record_line_def [abs_def] comp_def)
  note parts = v' [unfolded rebuild_segment_def Let_def fst_conv snd_conv split_segment [OF rs(1) tail] butlast_snoc whole
      scan_located [OF rs fresh] prod.case option.case add_0]
  show idx: "ev_index v' = ev_index v @ located P p 0 rs" and "ev_files v' = AList.update p (segment_bytes P rs) (ev_files v)"
    by (simp_all add: parts)
  have "set (map vr_Handle rs) \<inter> fst ` set (ev_index v) = {}" using fresh by (auto simp: map_of_eq_None_iff)
  then have "distinct (map fst (ev_index v'))" using ok rs(2) by (auto simp: idx vault_ok_def)
  moreover have "count_of (ev_segmentEntries v) p = 0" using ok p by (simp add: vault_ok_def untouched_def)
  ultimately show "vault_ok v'"
    using ok p sum_update_key [of "ev_segmentSizes v" p]
    by (auto simp: vault_ok_def parts distinct_update segment_entries_located untouched_def)
  show "q \<noteq> p \<Longrightarrow> untouched q v \<Longrightarrow> untouched q v'"
    by (simp add: untouched_def parts segment_entries_located)
qed

lemma map_of_located:
  assumes "distinct (map fst index)" "(h, loc) \<in> set index"
  shows "map_of index h = Some loc"
  using assms by simp

lemma rebuild_all:
  assumes "vault_ok v" "list_all (\<lambda>s. list_all (readable P) (snd s)) segs" "distinct (map vr_Handle (records_of segs))"
    "\<forall>r \<in> set (records_of segs). map_of (ev_index v) (vr_Handle r) = None" "distinct (map fst segs)"
    "\<forall>s \<in> set segs. untouched (fst s) v" "\<forall>p. CHR 0x0A \<notin> set (tail p)"
    and "v' = foldl (rebuild_segment P) v (torn tail (seg_files P segs))"
  shows "vault_ok v' \<and> set (ev_index v') = set (ev_index v) \<union> (\<Union>s \<in> set segs. set (located P (fst s) 0 (snd s))) \<and>
    map_of (ev_files v') = map_of (ev_files v) ++ map_of (seg_files P segs)"
  using assms
proof (induction segs arbitrary: v)
  case (Cons s segs)
  define v1 where "v1 = rebuild_segment P v (fst s, segment_bytes P (snd s) @ tail (fst s))"
  have s: "list_all (readable P) (snd s)" "distinct (map vr_Handle (snd s))" "\<forall>r \<in> set (snd s). map_of (ev_index v) (vr_Handle r) = None"
    "untouched (fst s) v" "CHR 0x0A \<notin> set (tail (fst s))"
    using Cons.prems by (auto simp: records_of_def)
  note one = rebuild_segment_readable [OF Cons.prems(1) s v1_def]
  have fresh1: "\<forall>r \<in> set (records_of segs). map_of (ev_index v1) (vr_Handle r) = None"
  proof
    fix r assume r: "r \<in> set (records_of segs)"
    then have "vr_Handle r \<in> vr_Handle ` set (records_of segs)" by simp
    then have "vr_Handle r \<notin> set (map fst (located P (fst s) 0 (snd s)))" using Cons.prems(3) by (auto simp: records_of_def)
    then have "map_of (located P (fst s) 0 (snd s)) (vr_Handle r) = None" by (simp only: set_map map_of_eq_None_iff not_False_eq_True)
    then show "map_of (ev_index v1) (vr_Handle r) = None"
      using Cons.prems(4) r by (auto simp: one(2) map_add_def records_of_def)
  qed
  have un1: "\<forall>s' \<in> set segs. untouched (fst s') v1" 
  proof
    fix s' assume s': "s' \<in> set segs"
    then have "fst s' \<in> fst ` set segs" by simp
    moreover have "fst s \<notin> fst ` set segs" using Cons.prems(5) by simp
    ultimately have "fst s' \<noteq> fst s" by metis
    then show "untouched (fst s') v1" using Cons.prems(6) s' by (intro one(4)) auto
  qed
  have "v' = foldl (rebuild_segment P) v1 (torn tail (seg_files P segs))"
    using Cons.prems(8) by (simp add: v1_def torn_def seg_files_def)
  then have IH: "vault_ok v' \<and> set (ev_index v') = set (ev_index v1) \<union> (\<Union>s \<in> set segs. set (located P (fst s) 0 (snd s))) \<and>
      map_of (ev_files v') = map_of (ev_files v1) ++ map_of (seg_files P segs)"
    by (intro Cons.IH [OF one(1) _ _ fresh1 _ un1 Cons.prems(7)]) (use Cons.prems in \<open>auto simp: records_of_def\<close>)
  have "fst s \<notin> dom (map_of (seg_files P segs))" using Cons.prems(5) by (auto simp: seg_files_def dom_map_of_conv_image_fst image_image)
  then have "map_of (ev_files v') = map_of (ev_files v) ++ map_of (seg_files P (s # segs))"
    using IH by (auto simp: one(3) seg_files_def map_add_def fun_eq_iff split: option.split)
  then show ?case using IH by (auto simp: one(2))
qed (auto simp: seg_files_def torn_def)

lemma insort_key_map: "(\<And>x. f (g x) = f' x) \<Longrightarrow> insort_key f (g x) (map g xs) = map g (insort_key f' x xs)"
  by (induction xs) auto

lemma sort_key_map: "(\<And>x. f (g x) = f' x) \<Longrightarrow> sort_key f (map g xs) = map g (sort_key f' xs)"
  by (induction xs) (simp_all add: insort_key_map)

lemma sorted_segments:
  "sort_key fst (torn tail (seg_files P segs)) = torn tail (seg_files P (sort_key fst segs))"
  unfolding torn_def seg_files_def map_map by (rule sort_key_map) simp

lemma records_of_sort: "mset (records_of (sort_key fst segs)) = mset (records_of segs)"
proof -
  have "mset (records_of (insort_key fst s xs)) = mset (snd s) + mset (records_of xs)" for s :: "string \<times> vaultRecord list" and xs
    by (induction xs) (auto simp: records_of_def)
  then show ?thesis by (induction segs) (simp_all add: records_of_def)
qed

lemma gc_runs: "\<forall>p. removable p \<Longrightarrow> fst (gcLocked removable now v) = None"
proof -
  assume "\<forall>p. removable p"
  then have "fst (remove_empty es removable v) = None" for es v by (induction es arbitrary: v) auto
  then show ?thesis by (simp add: gcLocked_def Let_def)
qed

lemma open_same:
  assumes "map_of (ev_index v) h = Some loc" "map_of (ev_index v') h = Some loc" "map_of (ev_files v') (vl_path loc) = map_of (ev_files v) (vl_path loc)"
    "t < vr_ExpiresAt (vl_record loc)"
  shows "fst (Get P removable h t v') = fst (Get P removable h t v)"
  using assms by (simp add: Get_def split: option.split sum.split prod.split)

lemma Get_found:
  assumes "fst (Get P removable h t v) = Inr (raw, d, True)"
  obtains loc where "map_of (ev_index v) h = Some loc" "t < vr_ExpiresAt (vl_record loc)"
  using assms by (auto simp: Get_def not_le split: option.split_asm if_split_asm prod.split_asm)

lemma restart_keeps:
  assumes ok: "vault_ok v" and disk: "disk_inv P W v" and "\<forall>r \<in> W. readable P r" and "\<forall>p. CHR 0x0A \<notin> set (tail p)"
    and "length key = 32" and rm: "\<forall>p. removable p"
  obtains v2 where "NewEvidenceVault P removable dir key (torn tail (ev_files v)) now = Inr v2"
    "\<And>h loc. map_of (ev_index v) h = Some loc \<Longrightarrow> now < vr_ExpiresAt (vl_record loc) \<Longrightarrow>
       map_of (ev_index v2) h = Some loc \<and> map_of (ev_files v2) (vl_path loc) = map_of (ev_files v) (vl_path loc)"
proof -
  from disk obtain segs where segs: "on_disk P segs v" "set (records_of segs) \<subseteq> W" "distinct (map vr_Handle (records_of segs))"
    unfolding disk_inv_def by blast
  define segs' where "segs' = sort_key fst segs"
  define v0 where "v0 = (empty_vault dir)\<lparr>ev_files := torn tail (ev_files v)\<rparr>"
  define v1 where "v1 = rebuildIndexLocked P v0"
  have set: "set segs' = set segs" by (simp add: segs'_def)
  have keys: "distinct (map fst segs')"
    using segs(1) mset_eq_imp_distinct_iff [of "map fst segs'" "map fst segs"] by (simp add: segs'_def on_disk_def)
  have handles: "distinct (map vr_Handle (records_of segs'))"
    using segs(3) records_of_sort [of segs] mset_eq_imp_distinct_iff [of "map vr_Handle (records_of segs')" "map vr_Handle (records_of segs)"]
    by (simp add: segs'_def)
  have "vault_ok v0" using ok by (simp add: v0_def vault_ok_def empty_vault_def count_of_def segment_entries_def torn_def comp_def)
  moreover have "list_all (\<lambda>s. list_all (readable P) (snd s)) segs'"
    using segs(2) assms(3) by (fastforce simp: list_all_iff set records_of_def)
  moreover have "v1 = foldl (rebuild_segment P) v0 (torn tail (seg_files P segs'))"
    using segs(1) by (simp add: v1_def rebuildIndexLocked_def filesLocked_def v0_def on_disk_def sorted_segments segs'_def)
  ultimately have v1: "vault_ok v1 \<and> set (ev_index v1) = (\<Union>s \<in> set segs'. set (located P (fst s) 0 (snd s))) \<and>
      map_of (ev_files v1) = map_of (ev_files v0) ++ map_of (seg_files P segs')"
    using rebuild_all [of v0 P segs' tail v1] handles keys assms(4)
    by (simp add: v0_def empty_vault_def untouched_def count_of_def segment_entries_def)
  have files: "map_of (seg_files P segs') = map_of (seg_files P segs)"
    using segs(1) keys by (intro map_of_inject_set [THEN iffD2]) (auto simp: seg_files_def comp_def on_disk_def set)
  have kept: "map_of (ev_index v1) h = Some loc \<and> map_of (ev_files v1) (vl_path loc) = map_of (ev_files v) (vl_path loc)"
    if loc: "map_of (ev_index v) h = Some loc" for h loc
  proof -
    have pos: "(h, loc) \<in> set (located P (vl_path loc) 0 (seg_of segs (vl_path loc)))"
      using segs(1) map_of_SomeD [OF loc] by (auto simp: on_disk_def)
    then obtain rs where rs: "map_of segs (vl_path loc) = Some rs" by (cases "map_of segs (vl_path loc)") (auto simp: seg_of_def)
    have "(h, loc) \<in> set (ev_index v1)" using v1 pos map_of_SomeD [OF rs] rs by (force simp: set seg_of_def)
    moreover have "map_of (seg_files P segs) (vl_path loc) \<noteq> None" 
    proof -
      have "(vl_path loc, segment_bytes P rs) \<in> set (seg_files P segs)" using map_of_SomeD [OF rs] by (force simp: seg_files_def)
      then show ?thesis by (metis map_of_eq_None_iff fst_conv image_eqI)
    qed
    ultimately show ?thesis using v1 segs(1) files by (auto simp: vault_ok_def on_disk_def map_add_def split: option.split)
  qed
  show ?thesis
  proof (rule that [of "snd (gcLocked removable now v1)"])
    show "NewEvidenceVault P removable dir key (torn tail (ev_files v)) now = Inr (snd (gcLocked removable now v1))"
      using gc_runs [OF rm, of now v1] assms(5)
      by (cases "gcLocked removable now v1") (simp add: NewEvidenceVault_def v1_def v0_def empty_vault_def)
  next
    fix h loc assume "map_of (ev_index v) h = Some loc" "now < vr_ExpiresAt (vl_record loc)"
    then show "map_of (ev_index (snd (gcLocked removable now v1))) h = Some loc \<and>
        map_of (ev_files (snd (gcLocked removable now v1))) (vl_path loc) = map_of (ev_files v) (vl_path loc)"
      using kept gc_keeps_location [of v1 h loc now removable] v1 by auto
  qed
qed

subsection \<open>Properties\<close>

definition demo_vaultlib :: vaultlib where
  "demo_vaultlib = golib.extend \<lparr>sha256 = (\<lambda>_. []), ed25519_sign = (\<lambda>_ _. []), ed25519_verify = (\<lambda>_ _ _. False), public_key = (\<lambda>_. []),
     regexp_compiles = (\<lambda>_. False), regexp_match = (\<lambda>_ _. False), json_unmarshal = (\<lambda>_. None), unicode_digit = (\<lambda>_. False),
     unicode_letter = (\<lambda>_. False)\<rparr>
     \<lparr>aead_seal = (\<lambda>nonce raw aad. raw), aead_open = (\<lambda>nonce c aad. Some c), b64_encode = (\<lambda>b. CHR ''b'' # b),
      b64_decode = (\<lambda>s. case s of [] \<Rightarrow> None | c # b \<Rightarrow> Some b), marshal_vault = (\<lambda>r. ''r''),
      unmarshal_vault = (\<lambda>s. Some \<lparr>vr_Version = 2, vr_Handle = ''evh-07'', vr_Digest = ''sha256:'', vr_Nonce = ''bn'', vr_Cipher = ''bx'',
        vr_CreatedAt = 0, vr_ExpiresAt = 86400000000000, vr_RiskScore = 70\<rparr>),
      marshal_aad = (\<lambda>_ _ _ _ _ _. [])\<rparr>"

lemma demo_vaultlib_simps [simp]:
  "sha256 demo_vaultlib raw = []" "aead_seal demo_vaultlib nonce raw aad = raw" "aead_open demo_vaultlib nonce c aad = Some c"
  "b64_encode demo_vaultlib b = CHR ''b'' # b" "b64_decode demo_vaultlib s = (case s of [] \<Rightarrow> None | c # b \<Rightarrow> Some b)"
  "marshal_vault demo_vaultlib r = ''r''"
  "unmarshal_vault demo_vaultlib s = Some \<lparr>vr_Version = 2, vr_Handle = ''evh-07'', vr_Digest = ''sha256:'', vr_Nonce = ''bn'', vr_Cipher = ''bx'',
        vr_CreatedAt = 0, vr_ExpiresAt = 86400000000000, vr_RiskScore = 70\<rparr>"
  by (simp_all add: demo_vaultlib_def golib.extend_def)

definition demo_put :: vault_event where
  "demo_put = PutEvent PutWorks (\<lambda>_. True) [[CHR 0x07]] (Some ''n'') ''x'' 70 0"

lemma demo_hex [simp]: "hex_encode [CHR 0x07] = ''07''"
  by code_simp

lemma demo_put_result:
  "fst (PutRisk demo_vaultlib PutWorks (\<lambda>_. True) [[CHR 0x07]] (Some ''n'') ''x'' 70 0 (empty_vault ''d'')) = Inr (''evh-07'', ''sha256:'', 86400000000000)"
  by (simp add: PutRisk_def empty_vault_def seal_record_def store_record_def Let_def high_water_def go_div_def
      newline_def evidence_digest_def)

lemma demo_record:
  "seal_record demo_vaultlib (empty_vault ''d'') ''evh-07'' ''n'' ''x'' 70 0 =
    \<lparr>vr_Version = 2, vr_Handle = ''evh-07'', vr_Digest = ''sha256:'', vr_Nonce = ''bn'', vr_Cipher = ''bx'',
        vr_CreatedAt = 0, vr_ExpiresAt = 86400000000000, vr_RiskScore = 70\<rparr>"
  by (simp add: seal_record_def Let_def empty_vault_def evidence_digest_def hex_encode_def)

lemma demo_cipher: "cipher_faithful demo_vaultlib"
  by (simp add: cipher_faithful_def)

text \<open>
  C11: stored evidence stays readable until it expires. After any history, if evidence is accepted, then
  after any further calls made before its expiry, whatever they store, collect or reconfigure and
  whichever disk accesses fail, reading its handle before the expiry returns the evidence, cut to the
  entry limit, with the digest that was returned. The cipher and base64 invert, and the record written
  decodes from its JSON.
\<close>

theorem vault_evidence_durable:
  assumes "cipher_faithful P" and v: "v = foldl (vault_step P) (empty_vault dir) before"
    and put: "PutRisk P io removable draws (Some nonce) evidence risk now v = (Inr (h, d, e), v')"
    and "json_faithful P (seal_record P v h nonce (take (ev_maxEntry v) evidence) risk now)"
    and later: "\<forall>ev \<in> set later. \<forall>t. event_time ev = Some t \<longrightarrow> t < e" and "t < e"
  shows "fst (Get P removable' h t (foldl (vault_step P) v' later)) = Inr (take (ev_maxEntry v) evidence, d, True)"
proof -
  have ok: "vault_ok v" unfolding v by (rule vault_history_ok)
  have "v' = vault_step P v (PutEvent io removable draws (Some nonce) evidence risk now)" using put by simp
  then have ok': "vault_ok v'" by (simp only: vault_machine.step_invar [OF ok])
  note st = put_stored [OF ok put]
  define r where "r = seal_record P v h nonce (take (ev_maxEntry v) evidence) risk now"
  have e: "vr_ExpiresAt r = e" using st(2) by (simp add: r_def)
  have "stored_at P r (foldl (vault_step P) v' later)"
    by (rule run_keeps [OF ok']) (use st(1) later e in \<open>auto simp: r_def\<close>)
  moreover have "d = evidence_digest P (take (ev_maxEntry v) evidence)"
    by (cases rule: PutRisk_cases [of P io removable draws "Some nonce" evidence risk now v])
       (use put in \<open>auto simp: store_record_def Let_def split: if_split_asm\<close>)
  ultimately show ?thesis using Get_stored [OF assms(1) _ r_def] assms(4,6) e by (simp add: r_def)
qed

theorem vault_evidence_durable_witness:
  "fst (Get demo_vaultlib (\<lambda>_. True) ''evh-07'' 2 (foldl (vault_step demo_vaultlib) (vault_step demo_vaultlib (empty_vault ''d'') demo_put)
     [GcEvent (\<lambda>_. True) 1])) = Inr (''x'', ''sha256:'', True)"
proof -
  obtain v' where put: "PutRisk demo_vaultlib PutWorks (\<lambda>_. True) [[CHR 0x07]] (Some ''n'') ''x'' 70 0 (empty_vault ''d'') =
      (Inr (''evh-07'', ''sha256:'', 86400000000000), v')"
    using demo_put_result by (metis prod.collapse)
  have max: "take (ev_maxEntry (empty_vault ''d'')) ''x'' = ''x''" by (simp add: empty_vault_def)
  have json: "json_faithful demo_vaultlib (seal_record demo_vaultlib (empty_vault ''d'') ''evh-07'' ''n'' ''x'' 70 0)"
    by (simp add: json_faithful_def demo_record)
  show ?thesis
    using vault_evidence_durable [OF demo_cipher, of "empty_vault ''d''" "''d''" "[]" PutWorks "\<lambda>_. True" "[[CHR 0x07]]" "''n''" "''x''" 70 0
        "''evh-07''" "''sha256:''" 86400000000000 v' "[GcEvent (\<lambda>_. True) 1]" 2 "\<lambda>_. True"] put json
    by (simp add: max demo_put_def)
qed



text \<open>
  C10: a restart loses no evidence that can still be read. After any history in which a failing disk
  access is undone, the process dies and leaves at the end of any segment the beginning of a line. Then
  the store opens again on the files, and whatever could be read before at a time not before the
  restart is read now with the same result. The records written decode from their JSON, contain no line
  break, and have distinct handles.
\<close>

theorem vault_restart_recovers:
  assumes "list_all clean_event events" and v: "v = foldl (vault_step P) (empty_vault dir) events"
    and "\<forall>r \<in> set (written P (empty_vault dir) events). readable P r" and "distinct (map vr_Handle (written P (empty_vault dir) events))"
    and "\<forall>p. CHR 0x0A \<notin> set (tail p)" and "length key = 32" and "\<forall>p. removable p"
  shows "\<exists>v2. NewEvidenceVault P removable dir key (torn tail (ev_files v)) now = Inr v2 \<and>
    (\<forall>h t raw d. now \<le> t \<and> fst (Get P removable h t v) = Inr (raw, d, True) \<longrightarrow> fst (Get P removable h t v2) = Inr (raw, d, True))"
proof -
  have "on_disk P [] (empty_vault dir)" by (simp add: on_disk_def empty_vault_def seg_files_def)
  then have "disk_inv P {} (empty_vault dir)" by (force simp: disk_inv_def records_of_def)
  from run_disk [OF empty_vault_ok this assms(1,4)] have disk: "disk_inv P (set (written P (empty_vault dir) events)) v" by (simp add: v)
  have ok: "vault_ok v" unfolding v by (rule vault_history_ok)
  from restart_keeps [OF ok disk assms(3,5,6,7), of dir now] obtain v2
    where v2: "NewEvidenceVault P removable dir key (torn tail (ev_files v)) now = Inr v2"
      and kept: "\<And>h loc. map_of (ev_index v) h = Some loc \<Longrightarrow> now < vr_ExpiresAt (vl_record loc) \<Longrightarrow>
       map_of (ev_index v2) h = Some loc \<and> map_of (ev_files v2) (vl_path loc) = map_of (ev_files v) (vl_path loc)" by metis
  have "fst (Get P removable h t v2) = Inr (raw, d, True)"
    if "now \<le> t" and found: "fst (Get P removable h t v) = Inr (raw, d, True)" for h t raw d
  proof -
    from found obtain loc where loc: "map_of (ev_index v) h = Some loc" "t < vr_ExpiresAt (vl_record loc)" by (rule Get_found)
    then show ?thesis using open_same [OF loc(1) _ _ loc(2), of v2 P removable] kept [OF loc(1)] that by auto
  qed
  then show ?thesis using v2 by blast
qed

theorem vault_restart_recovers_witness:
  "\<exists>v2. NewEvidenceVault demo_vaultlib (\<lambda>_. True) ''d'' (replicate 32 (CHR ''k''))
      (torn (\<lambda>_. ''half'') (ev_files (foldl (vault_step demo_vaultlib) (empty_vault ''d'') [demo_put]))) 1 = Inr v2"
proof -
  obtain v' where put: "PutRisk demo_vaultlib PutWorks (\<lambda>_. True) [[CHR 0x07]] (Some ''n'') ''x'' 70 0 (empty_vault ''d'') =
      (Inr (''evh-07'', ''sha256:'', 86400000000000), v')"
    using demo_put_result by (metis prod.collapse)
  have max: "take (ev_maxEntry (empty_vault ''d'')) ''x'' = ''x''" by (simp add: empty_vault_def)
  have w: "written demo_vaultlib (empty_vault ''d'') [demo_put] = [seal_record demo_vaultlib (empty_vault ''d'') ''evh-07'' ''n'' ''x'' 70 0]"
    by (simp add: demo_put_def put max)
  have r: "\<forall>r \<in> set (written demo_vaultlib (empty_vault ''d'') [demo_put]). readable demo_vaultlib r"
    unfolding w by (simp add: demo_record readable_def json_faithful_def)
  have d: "distinct (map vr_Handle (written demo_vaultlib (empty_vault ''d'') [demo_put]))" unfolding w by simp
  from vault_restart_recovers [OF _ refl r d, of "\<lambda>_. ''half''" "replicate 32 (CHR ''k'')" "\<lambda>_. True" 1] show ?thesis
    by (auto simp: demo_put_def)
qed

end
