(* ===== verification/Utf8.thy ===== *)
theory Utf8
  imports Prelude
begin

text \<open>
  Converting between strings and code points: \<open>[]rune(s)\<close> is \<open>runes\<close> of the prelude, \<open>string(rs)\<close> encodes.
  Decoding what was encoded gives the code points back, so cutting a string at a code point never
  yields more of them.
\<close>

definition valid_rune :: "nat \<Rightarrow> bool" where
  "valid_rune r \<longleftrightarrow> r < 0xD800 \<or> 0xE000 \<le> r \<and> r < 0x110000"

definition encode_valid :: "nat \<Rightarrow> nat list" where
  "encode_valid r =
     (if r < 128 then [r]
      else if r < 2048 then [192 + r div 64, 128 + r mod 64]
      else if r < 65536 then [224 + r div 4096, 128 + r div 64 mod 64, 128 + r mod 64]
      else [240 + r div 262144, 128 + r div 4096 mod 64, 128 + r div 64 mod 64, 128 + r mod 64])"

definition encode_rune :: "nat \<Rightarrow> nat list" where
  "encode_rune r = encode_valid (if valid_rune r then r else 65533)"

definition string_of_runes :: "nat list \<Rightarrow> string" where
  "string_of_runes rs = map char_of (concat (map encode_rune rs))"

lemma decode_encode1: "r < 128 \<Longrightarrow> decode_rune r rest = (r, 0)"
  by (simp add: decode_rune_def)

lemma decode_encode2:
  assumes "128 \<le> r" "r < 2048"
  shows "decode_rune (192 + r div 64) ((128 + r mod 64) # rest) = (r, 1)"
proof -
  have "2 \<le> r div 64" "r div 64 < 32" using assms by (simp_all add: less_mult_imp_div_less)
  moreover have "r mod 64 < 64" by simp
  moreover have "(r div 64) * 64 + r mod 64 = r" by simp
  ultimately show ?thesis by (cases rest; cases "tl rest") (simp_all add: decode_rune_def cont_byte_def)
qed

lemma decode_encode3:
  assumes "2048 \<le> r" "r < 65536" "valid_rune r"
  shows "decode_rune (224 + r div 4096) ((128 + r div 64 mod 64) # (128 + r mod 64) # rest) = (r, 2)"
proof -
  define q m where "q = r div 4096" and "m = r div 64 mod 64"
  have q: "q < 16" using assms by (simp add: q_def less_mult_imp_div_less)
  have m: "m < 64" by (simp add: m_def)
  have sum: "q * 4096 + m * 64 + r mod 64 = r"
  proof -
    have "r div 64 div 64 = q" by (simp add: q_def flip: div_mult2_eq)
    then have "r div 64 = q * 64 + m" using div_mult_mod_eq [of "r div 64" 64] by (simp add: m_def)
    then show ?thesis using div_mult_mod_eq [of r 64] by simp
  qed
  have low: "q = 0 \<Longrightarrow> 32 \<le> m" using sum assms(1) mod_less_divisor [of 64 r] by linarith
  have "q = 13 \<Longrightarrow> m \<le> 31" using sum assms(3) mod_less_divisor [of 64 r] m unfolding valid_rune_def by linarith
  with low q m sum have "decode_rune (224 + q) ((128 + m) # (128 + r mod 64) # rest) = (q * 4096 + m * 64 + r mod 64, 2)"
    by (cases rest) (auto simp: decode_rune_def cont_byte_def)
  then show ?thesis by (simp only: sum q_def [symmetric] m_def [symmetric])
qed

lemma decode_encode4:
  assumes "65536 \<le> r" "r < 0x110000"
  shows "decode_rune (240 + r div 262144) ((128 + r div 4096 mod 64) # (128 + r div 64 mod 64) # (128 + r mod 64) # rest) = (r, 3)"
proof -
  define q n m where "q = r div 262144" and "n = r div 4096 mod 64" and "m = r div 64 mod 64"
  have b: "n < 64" "m < 64" "r mod 64 < 64" by (simp_all add: n_def m_def)
  have sum: "q * 262144 + n * 4096 + m * 64 + r mod 64 = r"
  proof -
    have "r div 64 div 64 = r div 4096" "r div 4096 div 64 = q" by (simp_all add: q_def flip: div_mult2_eq)
    then have "r div 64 = r div 4096 * 64 + m" "r div 4096 = q * 64 + n"
      using div_mult_mod_eq [of "r div 64" 64] div_mult_mod_eq [of "r div 4096" 64] by (simp_all add: m_def n_def)
    then show ?thesis using div_mult_mod_eq [of r 64] by simp
  qed
  have q: "q \<le> 4" "q = 0 \<Longrightarrow> 16 \<le> n" "q = 4 \<Longrightarrow> n \<le> 15" using sum assms b by linarith+
  then have "decode_rune (240 + q) ((128 + n) # (128 + m) # (128 + r mod 64) # rest) = (q * 262144 + n * 4096 + m * 64 + r mod 64, 3)"
    using b by (auto simp: decode_rune_def cont_byte_def)
  then show ?thesis by (simp only: sum q_def [symmetric] m_def [symmetric] n_def [symmetric])
qed

lemma runes_of_encode: "valid_rune r \<Longrightarrow> runes_of (encode_valid r @ rest) = r # runes_of rest"
proof -
  assume r: "valid_rune r"
  then have "r < 0x110000" by (auto simp: valid_rune_def)
  consider "r < 128" | "128 \<le> r" "r < 2048" | "2048 \<le> r" "r < 65536" | "65536 \<le> r" by linarith
  then show ?thesis
  proof cases
    case 2
    then show ?thesis by (simp add: encode_valid_def decode_encode2)
  next
    case 3
    then show ?thesis using decode_encode3 [OF 3 r, of rest] by (simp add: encode_valid_def numeral_2_eq_2)
  next
    case 4
    then show ?thesis using decode_encode4 [of r rest] \<open>r < 0x110000\<close> by (simp add: encode_valid_def numeral_3_eq_3)
  qed (simp add: encode_valid_def decode_encode1)
qed

lemma encode_bytes: "b \<in> set (encode_rune r) \<Longrightarrow> b < 256"
proof -
  have "b < 256" if "b \<in> set (encode_valid r)" "valid_rune r" for r
  proof -
    have "r < 0x110000" using that(2) by (auto simp: valid_rune_def)
    then have "r div 262144 < 5" by (simp add: less_mult_imp_div_less)
    moreover have "r < 2048 \<Longrightarrow> r div 64 < 32" "r < 65536 \<Longrightarrow> r div 4096 < 16" by (simp_all add: less_mult_imp_div_less)
    moreover have "r mod 64 < 64" "r div 64 mod 64 < 64" "r div 4096 mod 64 < 64" by simp_all
    ultimately show ?thesis using that(1) unfolding encode_valid_def by (auto split: if_split_asm)
  qed
  then show "b \<in> set (encode_rune r) \<Longrightarrow> b < 256"
    by (fastforce simp: encode_rune_def valid_rune_def split: if_split_asm)
qed

lemma runes_string_of_runes: "list_all valid_rune rs \<Longrightarrow> runes (string_of_runes rs) = rs"
proof -
  have "map (\<lambda>b. of_char (char_of b :: char)) (concat (map encode_rune rs)) = concat (map encode_rune rs)"
    by (rule map_idI) (auto simp: of_char_of dest: encode_bytes)
  moreover have "list_all valid_rune rs \<Longrightarrow> runes_of (concat (map encode_rune rs)) = rs"
    by (induction rs) (auto simp: encode_rune_def runes_of_encode)
  ultimately show "list_all valid_rune rs \<Longrightarrow> runes (string_of_runes rs) = rs"
    by (simp add: runes_def string_of_runes_def comp_def)
qed

lemma two_byte_valid: "194 \<le> b \<Longrightarrow> b \<le> 223 \<Longrightarrow> cont_byte b1 \<Longrightarrow> valid_rune ((b - 192) * 64 + (b1 - 128))"
  unfolding valid_rune_def cont_byte_def by linarith

lemma three_byte_valid:
  "224 \<le> b \<Longrightarrow> b \<le> 239 \<Longrightarrow> cont_byte b1 \<Longrightarrow> cont_byte b2 \<Longrightarrow> b = 237 \<longrightarrow> b1 \<le> 159 \<Longrightarrow>
     valid_rune ((b - 224) * 4096 + (b1 - 128) * 64 + (b2 - 128))"
  unfolding valid_rune_def cont_byte_def by (cases "b \<le> 236"; cases "b = 237"; linarith)

lemma four_byte_valid:
  "240 \<le> b \<Longrightarrow> b \<le> 244 \<Longrightarrow> cont_byte b1 \<Longrightarrow> cont_byte b2 \<Longrightarrow> cont_byte b3 \<Longrightarrow> b = 240 \<longrightarrow> 144 \<le> b1 \<Longrightarrow> b = 244 \<longrightarrow> b1 \<le> 143 \<Longrightarrow>
     valid_rune ((b - 240) * 262144 + (b1 - 128) * 4096 + (b2 - 128) * 64 + (b3 - 128))"
  unfolding valid_rune_def cont_byte_def by linarith

lemma decode_valid: "valid_rune (fst (decode_rune b bs))"
  by (auto simp: decode_rune_def two_byte_valid three_byte_valid four_byte_valid valid_rune_def [of b] valid_rune_def [of 65533]
      split: list.split)

lemma runes_valid: "list_all valid_rune (runes s)"
proof -
  have "list_all valid_rune (runes_of bs)" for bs
  proof (induction bs rule: runes_of.induct)
    case (2 b bs)
    have "list_all valid_rune (runes_of (drop (snd (decode_rune b bs)) bs))" by (rule "2.IH" [OF refl surjective_pairing [symmetric]])
    then show ?case using decode_valid [of b bs] by (simp add: split_def Let_def)
  qed simp
  then show ?thesis by (simp add: runes_def)
qed

text \<open>Cutting at code points: the first \<open>n\<close> of a string are the code points of the cut.\<close>

lemma runes_take: "runes (string_of_runes (take n (runes s))) = take n (runes s)"
  by (rule runes_string_of_runes) (use runes_valid [of s] in \<open>auto simp: list_all_iff dest: in_set_takeD\<close>)

lemma runes_Nil [simp]: "runes s = [] \<longleftrightarrow> s = []"
  by (cases s) (auto simp: runes_def split_def Let_def)

lemma runes_empty [simp]: "runes [] = []"
  by simp

end
