(* ===== verification/Traffic_Review.thy ===== *)
theory Traffic_Review
  imports Release_Gate Evidence_Vault Utf8
begin

text \<open>
  The traffic review collector of an edge (\<^verbatim>\<open>src/lib/edgecore/traffic_review.go\<close>): it counts the
  requests of five-minute windows by route, keeps a few representative candidates with bounded
  evidence, and hands finished windows over in two phases. Counters are natural numbers (an int64
  does not overflow in the life of a process); the version of the hand-over is a 64-bit word. The
  clock, a fresh candidate id and the outcome of each access to the evidence store are arguments. The
  mime parser, JSON encoding, time formatting and the credential patterns are parameters.
\<close>

subsection \<open>Routes and risks\<close>

record reviewRouteKey =
  rk_method :: string
  rk_route :: string

record reviewRouteCount =
  rn_requests :: nat
  rn_critical :: nat
  rn_blocked :: nat
  rn_incomplete :: nat

definition is_alpha :: "char \<Rightarrow> bool" where
  "is_alpha c \<longleftrightarrow> (let n = (of_char c :: nat) in 65 \<le> n \<and> n \<le> 90 \<or> 97 \<le> n \<and> n \<le> 122)"

definition is_decimal :: "char \<Rightarrow> bool" where
  "is_decimal c \<longleftrightarrow> (let n = (of_char c :: nat) in 48 \<le> n \<and> n \<le> 57)"

definition reviewStaticPathSegment :: "string \<Rightarrow> bool" where
  "reviewStaticPathSegment s \<longleftrightarrow> s \<noteq> [] \<and> is_alpha (hd s) \<and> length s \<le> 64 \<and>
     list_all (\<lambda>c. is_alpha c \<or> is_decimal c \<or> c \<in> set ''._~-'') (tl s)"

definition reviewNumericPathSegment :: "string \<Rightarrow> bool" where
  "reviewNumericPathSegment s \<longleftrightarrow> s \<noteq> [] \<and> list_all is_decimal s"

definition reviewHexPathSegment :: "string \<Rightarrow> bool" where
  "reviewHexPathSegment s \<longleftrightarrow> 12 \<le> length s \<and> list_all (\<lambda>c. is_decimal c \<or> lower_char c \<in> set ''abcdef-'') s"

definition route_segment :: "string \<Rightarrow> string" where
  "route_segment s =
     (if s = [] then s
      else if reviewNumericPathSegment s then '':number''
      else if reviewHexPathSegment s then '':id''
      else if \<not> reviewStaticPathSegment s then '':value''
      else s)"

definition TrafficRouteTemplate :: "string \<Rightarrow> string" where
  "TrafficRouteTemplate arg =
     (let path = takeWhile (\<lambda>c. c \<noteq> CHR ''?'') arg in
      if path = [] \<or> path = ''/'' then ''/''
      else
        let normalized = join_with ''/'' (map route_segment (split_on (CHR ''/'') path));
            normalized = (if has_prefix normalized ''/'' then normalized else ''/'' @ normalized) in
        if length normalized > 512 then take 512 normalized else normalized)"

definition reviewFlags :: "Decision \<Rightarrow> bool \<times> bool" where
  "reviewFlags dec =
     (let incomplete = list_ex (\<lambda>c. cov_Status c \<noteq> COVERAGE_STATUS_FULL \<and> cov_Status c \<noteq> COVERAGE_STATUS_ABSENT)
            (insp_Coverage (dec_Inspection dec)) in
      (dec_Detections dec \<noteq> [] \<or> dec_WouldHaveBlocked dec \<or> dec_Action dec \<noteq> ActionAllow \<or> incomplete, incomplete))"

definition detection_risk :: "real \<times> string list \<Rightarrow> Detection \<Rightarrow> real \<times> string list" where
  "detection_risk acc d =
     (let (score, reasons) = acc;
          reasons = (if det_Class d = ATTACK_CLASS_UNMAPPED \<and> ''unmapped_detection'' \<notin> set reasons
                     then reasons @ [''unmapped_detection''] else reasons);
          reasons = (if det_Score d > 0 \<and> ''anomaly_score'' \<notin> set reasons then reasons @ [''anomaly_score''] else reasons);
          candidate = 80 + det_Score d * 20 in
      (if candidate > score then candidate else score, reasons))"

definition reviewRisk :: "Decision \<Rightarrow> bool \<Rightarrow> bool \<Rightarrow> real \<times> string list" where
  "reviewRisk dec critical incomplete =
     (let detected = (dec_Detections dec \<noteq> []);
          score = (if detected then 80 else 0);
          reasons = (if detected then [''sync_detection''] @ (if dec_Action dec = ActionAllow then [''suspected_miss''] else []) else []);
          unmitigated = (dec_WouldHaveBlocked dec \<or> dec_Action dec = ActionObserve);
          score = (if unmitigated \<and> score < 75 then 75 else score);
          reasons = reasons @ (if unmitigated then [''unmitigated''] else []);
          blocked = (dec_Action dec = ActionBlock);
          score = (if blocked \<and> score < 70 then 70 else score);
          reasons = reasons @ (if blocked then [''blocked''] else []);
          score = (if incomplete \<and> score < 60 then 60 else score);
          reasons = reasons @ (if incomplete then [''inspection_incomplete''] else []);
          (score, reasons) = foldl detection_risk (score, reasons) (dec_Detections dec) in
      if critical \<and> score = 0 then (50, reasons @ [''critical'']) else (score, reasons))"

subsection \<open>Evidence documents\<close>

record trafficEvidenceField =
  tf_Selector :: string
  tf_Surface :: string
  tf_Length :: nat
  tf_Charset :: string
  tf_Digest :: string
  tf_Value :: string

record trafficEvidenceDocument =
  td_Method :: string
  td_RouteTemplate :: string
  td_ContentType :: string
  td_ContentLength :: nat
  td_Fields :: "trafficEvidenceField list"

record reviewlib = vaultlib +
  parse_media_type :: "string \<Rightarrow> string option"
  marshal_document :: "trafficEvidenceDocument \<Rightarrow> bytes option"
  rfc3339_nano :: "instant \<Rightarrow> string"

definition trafficContentType :: "'a reviewlib_scheme \<Rightarrow> (string \<times> string) list \<Rightarrow> string" where
  "trafficContentType P headers =
     (let raw = (case find (\<lambda>(n, v). equal_fold n ''content-type'') headers of None \<Rightarrow> [] | Some (n, v) \<Rightarrow> v) in
      case parse_media_type P raw of None \<Rightarrow> [] | Some t \<Rightarrow> to_lower t)"

definition is_json_type :: "string \<Rightarrow> bool" where
  "is_json_type t \<longleftrightarrow> t = ''application/json'' \<or> has_suffix t ''+json''"

definition parsed_value :: "string \<Rightarrow> string \<Rightarrow> string option" where
  "parsed_value raw name =
     (let (vals, err) = ParseQuery raw in
      if err then None
      else case map_of vals name of None \<Rightarrow> None | Some [] \<Rightarrow> Some [] | Some (v # _) \<Rightarrow> Some v)"

definition controlledSelectorValue :: "'a golib_scheme \<Rightarrow> string \<Rightarrow> Request \<Rightarrow> string \<Rightarrow> (string \<times> string) option" where
  "controlledSelectorValue L selector req contentType =
     (let (kind, name, ok) = cut (CHR ''.'') selector in
      if \<not> ok \<or> name = [] then None
      else if kind = ''query'' then map_option (\<lambda>v. (v, ''query'')) (parsed_value (req_Query req) name)
      else if kind = ''json'' then
        (if \<not> is_json_type contentType then None else map_option (\<lambda>v. (v, ''body'')) (jsonField L (req_Body req) name))
      else if kind = ''body'' \<or> kind = ''arg'' then
        (if is_json_type contentType then map_option (\<lambda>v. (v, ''body'')) (jsonField L (req_Body req) name)
         else if contentType = ''application/x-www-form-urlencoded'' then map_option (\<lambda>v. (v, ''body'')) (parsed_value (req_Body req) name)
         else None)
      else None)"

text \<open>The patterns of the source; a backslash is spelled by its code.\<close>

definition evidenceCredentialName :: string where
  "evidenceCredentialName =
     ''(?i)(authorization|cookie|token|secret|password|passwd|api[_-]?key|client[_-]?cert|session|credential)''"

definition trafficBearer :: string where
  "trafficBearer = ''(?i)(bearer'' @ [CHR 0x5C] @ ''s+)[a-z0-9._~+/=-]+''"

definition trafficJWT :: string where
  "trafficJWT = [CHR 0x5C] @ ''beyJ[A-Za-z0-9_-]{8,}'' @ [CHR 0x5C] @ ''.[A-Za-z0-9_-]{8,}(?:'' @ [CHR 0x5C] @
     ''.[A-Za-z0-9_-]{8,})?'' @ [CHR 0x5C] @ ''b''"

definition trafficPEMMaterial :: string where
  "trafficPEMMaterial =
     ''(?s)-----BEGIN (?:CERTIFICATE|[^-]*PRIVATE KEY)-----.*?-----END (?:CERTIFICATE|[^-]*PRIVATE KEY)-----''"

definition trafficSecretPattern :: string where
  "trafficSecretPattern =
     ''(?i)((?:access[_-]?token|refresh[_-]?token|password|secret|api[_-]?key|cookie|authorization|client[_-]?cert(?:ificate)?)['' @
     [CHR 0x22, CHR 0x27] @ '']?'' @ [CHR 0x5C] @ ''s*[:=]'' @ [CHR 0x5C] @ ''s*['' @ [CHR 0x22, CHR 0x27] @ '']?)[^'' @
     [CHR 0x22, CHR 0x27] @ ''&'' @ [CHR 0x5C] @ ''s,}]+''"

definition contains_any :: "string \<Rightarrow> (char \<Rightarrow> bool) \<Rightarrow> bool" where
  "contains_any s p \<longleftrightarrow> list_ex p s"

definition sensitiveEvidenceField :: "'a golib_scheme \<Rightarrow> string \<Rightarrow> string \<Rightarrow> bool" where
  "sensitiveEvidenceField L selector v =
     (if regexp_match L evidenceCredentialName selector \<or> regexp_match L trafficBearer v \<or> regexp_match L trafficJWT v \<or>
         regexp_match L trafficPEMMaterial v \<or> regexp_match L trafficSecretPattern v then True
      else if length v < 24 then False
      else
        let classes = length (filter (contains_any v)
              [\<lambda>c. is_alpha c \<and> lower_char c = c, \<lambda>c. is_alpha c \<and> upper_char c = c, is_decimal, \<lambda>c. c \<in> set ''+/_=-.'']) in
        classes \<ge> 3 \<and> \<not> contains_any v (\<lambda>c. (of_char c :: nat) \<in> {32, 9, 13, 10}))"

definition evidenceCharset :: "string \<Rightarrow> string" where
  "evidenceCharset v =
     (if v = [] then ''empty''
      else if list_all is_decimal v then ''digit''
      else if list_all is_alpha v then ''alpha''
      else if list_all (\<lambda>c. 32 \<le> (of_char c :: nat) \<and> (of_char c :: nat) \<le> 126) v then ''ascii_print''
      else ''unicode_or_binary'')"

definition truncateEvidenceString :: "string \<Rightarrow> nat \<Rightarrow> string" where
  "truncateEvidenceString v limit = (let rs = runes v in if length rs \<le> limit then v else string_of_runes (take limit rs))"

definition evidence_field :: "'a golib_scheme \<Rightarrow> string \<Rightarrow> string \<Rightarrow> string \<Rightarrow> trafficEvidenceField" where
  "evidence_field L selector v surface =
     \<lparr>tf_Selector = truncateEvidenceString selector 128, tf_Surface = surface, tf_Length = length v,
      tf_Charset = evidenceCharset v, tf_Digest = ''sha256:'' @ hex_encode (sha256 L v),
      tf_Value = (if sensitiveEvidenceField L selector v then [] else truncateEvidenceString v 128)\<rparr>"

definition collect_field ::
  "'a golib_scheme \<Rightarrow> Request \<Rightarrow> string \<Rightarrow> trafficEvidenceField list \<times> string list \<Rightarrow> Detection \<Rightarrow>
   trafficEvidenceField list \<times> string list"
where
  "collect_field L req contentType acc detection =
     (let (found, seen) = acc; selector = to_lower (trim_space (det_Selector detection)) in
      if selector = [] \<or> selector \<in> set seen \<or> length found \<ge> shapeMaxSelectors then (found, seen)
      else case controlledSelectorValue L selector req contentType of
        None \<Rightarrow> (found, seen)
      | Some (v, surface) \<Rightarrow> (found @ [evidence_field L selector v surface], selector # seen))"

definition controlledTrafficEvidence :: "'a reviewlib_scheme \<Rightarrow> Request \<Rightarrow> Decision \<Rightarrow> string \<Rightarrow> trafficEvidenceDocument" where
  "controlledTrafficEvidence P req dec routeTemplate =
     (let contentType = trafficContentType P (req_Headers req) in
      \<lparr>td_Method = to_upper (req_Method req), td_RouteTemplate = routeTemplate, td_ContentType = contentType,
       td_ContentLength = length (req_Body req),
       td_Fields = fst (foldl (collect_field P req contentType) ([], []) (dec_Detections dec))\<rparr>)"

subsection \<open>Bounded encoding\<close>

datatype evidence_error = EvidenceLimitInvalid | EvidenceEncoding | EnvelopeTooLarge

definition shrinkEvidenceString :: "string \<Rightarrow> nat \<Rightarrow> string" where
  "shrinkEvidenceString v remove =
     (let remove = max 1 remove; rs = runes v in
      if remove \<ge> length rs then [] else string_of_runes (take (length rs - remove) rs))"

text \<open>One round of shrinking: drop the last value, then the last field, then characters of the route and the method.\<close>

definition shrink_document :: "trafficEvidenceDocument \<Rightarrow> nat \<Rightarrow> trafficEvidenceDocument option" where
  "shrink_document d excess =
     (if td_Fields d \<noteq> [] \<and> tf_Value (last (td_Fields d)) \<noteq> [] then
        Some (d\<lparr>td_Fields := butlast (td_Fields d) @ [(last (td_Fields d))\<lparr>tf_Value := []\<rparr>]\<rparr>)
      else if td_Fields d \<noteq> [] then Some (d\<lparr>td_Fields := butlast (td_Fields d)\<rparr>)
      else if td_RouteTemplate d \<noteq> [] then Some (d\<lparr>td_RouteTemplate := shrinkEvidenceString (td_RouteTemplate d) excess\<rparr>)
      else if td_Method d \<noteq> [] then Some (d\<lparr>td_Method := shrinkEvidenceString (td_Method d) excess\<rparr>)
      else None)"

definition document_size :: "trafficEvidenceDocument \<Rightarrow> nat" where
  "document_size d = sum_list (map (\<lambda>f. if tf_Value f = [] then 1 else 2) (td_Fields d)) +
     length (runes (td_RouteTemplate d)) + length (runes (td_Method d))"

lemma shrink_runes: "v \<noteq> [] \<Longrightarrow> length (runes (shrinkEvidenceString v n)) < length (runes v)"
  by (auto simp: shrinkEvidenceString_def Let_def runes_take runes_empty)

lemma shrink_document_less: "shrink_document d n = Some d' \<Longrightarrow> document_size d' < document_size d"
  by (cases "td_Fields d" rule: rev_cases)
    (auto simp: shrink_document_def document_size_def shrink_runes split: if_split_asm)

function marshal_loop :: "'a reviewlib_scheme \<Rightarrow> nat \<Rightarrow> trafficEvidenceDocument \<Rightarrow> evidence_error + bytes" where
  "marshal_loop P limit d =
     (case marshal_document P d of
        None \<Rightarrow> Inl EvidenceEncoding
      | Some raw \<Rightarrow>
          if length raw \<le> limit then Inr raw
          else case shrink_document d (length raw - limit) of
            None \<Rightarrow> Inl EnvelopeTooLarge
          | Some d' \<Rightarrow> marshal_loop P limit d')"
  by pat_completeness auto
termination
  by (relation "measure (\<lambda>(P, limit, d). document_size d)") (auto dest: shrink_document_less)

declare marshal_loop.simps [simp del]

definition marshalBoundedEvidence :: "'a reviewlib_scheme \<Rightarrow> trafficEvidenceDocument \<Rightarrow> int \<Rightarrow> evidence_error + bytes" where
  "marshalBoundedEvidence P d limit = (if limit \<le> 0 then Inl EvidenceLimitInvalid else marshal_loop P (nat limit) d)"

subsection \<open>Windows, candidates and the collector\<close>

record ReviewCandidate =
  ca_CandidateId :: string
  ca_WindowId :: string
  ca_UnitId :: string
  ca_AssetId :: string
  ca_OccurredAt :: instant
  ca_RequestId :: string
  ca_Method :: string
  ca_RouteTemplate :: string
  ca_RiskScore :: real
  ca_RiskReasons :: "string list"
  ca_GenerationId :: string
  ca_GenerationSeq :: int
  ca_Baseline :: bool
  ca_ReviewMode :: int
  ca_EvidenceExpiresAt :: instant
  ca_Evidence :: "(string \<times> string) list"
  ca_EvidenceHandle :: string
  ca_EvidenceDigest :: string

record reviewWindowState =
  ws_start :: instant
  ws_end :: instant
  ws_unitID :: string
  ws_assetID :: string
  ws_generation :: string
  ws_genSeq :: int
  ws_policy :: string
  ws_requests :: nat
  ws_critical :: nat
  ws_blocked :: nat
  ws_observed :: nat
  ws_incomplete :: nat
  ws_dropped :: nat
  ws_dropReasons :: "(string \<times> nat) list"
  ws_routes :: "(reviewRouteKey \<times> reviewRouteCount) list"
  ws_other :: reviewRouteCount
  ws_candidates :: "ReviewCandidate list"
  ws_evidence :: "(string \<times> bytes) list"

record TrafficRouteCell =
  rc_Method :: string
  rc_RouteTemplate :: string
  rc_Count :: reviewRouteCount

record TrafficWindow =
  tw_WindowId :: string
  tw_UnitId :: string
  tw_AssetId :: string
  tw_WindowStart :: instant
  tw_WindowEnd :: instant
  tw_GenerationId :: string
  tw_GenerationSeq :: int
  tw_PolicyDigest :: string
  tw_RequestCount :: nat
  tw_CriticalCount :: nat
  tw_BlockedCount :: nat
  tw_ObservedCount :: nat
  tw_IncompleteCount :: nat
  tw_EvidenceDroppedCount :: nat
  tw_EvidenceDropReasons :: "(string \<times> nat) list"
  tw_RouteCells :: "TrafficRouteCell list"
  tw_Other :: reviewRouteCount
  tw_ReviewMode :: int

record ReviewCollector =
  col_policy :: TrafficReviewPolicy
  col_digest :: string
  col_vault :: "EvidenceVault option"
  col_state :: "reviewWindowState option"
  col_readyW :: "TrafficWindow list"
  col_readyC :: "ReviewCandidate list"
  col_readyVersion :: "64 word"

text \<open>What happens at one access to the evidence store; \<open>puts i\<close> is for the \<open>i\<close>-th candidate of a freeze.\<close>

record put_env =
  pe_io :: put_io
  pe_removable :: "string \<Rightarrow> bool"
  pe_draws :: "bytes list"
  pe_nonce :: "bytes option"

definition zero_count :: reviewRouteCount where
  "zero_count = \<lparr>rn_requests = 0, rn_critical = 0, rn_blocked = 0, rn_incomplete = 0\<rparr>"

definition add_count :: "reviewRouteCount \<Rightarrow> reviewRouteCount \<Rightarrow> reviewRouteCount" where
  "add_count a b = \<lparr>rn_requests = rn_requests a + rn_requests b, rn_critical = rn_critical a + rn_critical b,
     rn_blocked = rn_blocked a + rn_blocked b, rn_incomplete = rn_incomplete a + rn_incomplete b\<rparr>"

definition NewReviewCollector :: "TrafficReviewPolicy option \<Rightarrow> string \<Rightarrow> EvidenceVault option \<Rightarrow> review_error + ReviewCollector" where
  "NewReviewCollector arg digest vault =
     (case (ValidateTrafficReviewPolicy arg, arg) of
        (None, Some policy) \<Rightarrow> Inr \<lparr>col_policy = policy, col_digest = digest, col_vault = vault, col_state = None, col_readyW = [],
          col_readyC = [], col_readyVersion = 0\<rparr>
      | (Some e, _) \<Rightarrow> Inl e
      | (None, None) \<Rightarrow> Inl ReviewPolicyRequired) \<comment> \<open>not reached: a nil policy is invalid\<close>"

definition route_name :: "reviewRouteKey \<Rightarrow> string" where
  "route_name k = rk_method k @ '' '' @ rk_route k"

definition less_frequent ::
  "reviewRouteKey \<times> reviewRouteCount \<Rightarrow> (reviewRouteKey \<times> reviewRouteCount) option \<Rightarrow> (reviewRouteKey \<times> reviewRouteCount) option"
where
  "less_frequent x best =
     (case best of
        None \<Rightarrow> Some x
      | Some b \<Rightarrow>
          if rn_requests (snd x) < rn_requests (snd b) \<or>
             rn_requests (snd x) = rn_requests (snd b) \<and> route_name (fst x) < route_name (fst b) then Some x else best)"

definition leastFrequentReviewRoute :: "(reviewRouteKey \<times> reviewRouteCount) list \<Rightarrow> (reviewRouteKey \<times> reviewRouteCount) option" where
  "leastFrequentReviewRoute routes = fold less_frequent routes None"

definition recordEvidenceDrop :: "string \<Rightarrow> reviewWindowState \<Rightarrow> reviewWindowState" where
  "recordEvidenceDrop reason s =
     s\<lparr>ws_dropped := ws_dropped s + 1,
       ws_dropReasons := AList.update reason ((case map_of (ws_dropReasons s) reason of None \<Rightarrow> 0 | Some n \<Rightarrow> n) + 1) (ws_dropReasons s)\<rparr>"

definition reviewWindowID :: "'a reviewlib_scheme \<Rightarrow> reviewWindowState \<Rightarrow> string" where
  "reviewWindowID P s =
     ''tw-'' @ hex_encode (sha256 P (ws_unitID s @ [CHR 0x00] @ ws_assetID s @ [CHR 0x00] @ rfc3339_nano P (ws_start s) @ [CHR 0x00] @
       ws_generation s @ [CHR 0x00] @ itoa (ws_genSeq s) @ [CHR 0x00] @ ws_policy s))"

subsection \<open>Freezing a window\<close>

text \<open>\<open>Timestamp.IsValid\<close>: from the year 1 to the year 9999.\<close>

definition timestamp_valid :: "instant \<Rightarrow> bool" where
  "timestamp_valid t \<longleftrightarrow> - 62135596800 * Second \<le> t \<and> t < 253402300800 * Second"

definition drop_reason :: "vault_error \<Rightarrow> string" where
  "drop_reason e =
     (if e = VaultLowRiskCapacity then ''low_risk_capacity_reserved''
      else if e = VaultCapacity then ''vault_capacity_exhausted''
      else ''vault_unavailable'')"

definition store_candidate ::
  "'a reviewlib_scheme \<Rightarrow> (nat \<Rightarrow> put_env) \<Rightarrow> reviewWindowState \<times> EvidenceVault \<times> ReviewCandidate list \<Rightarrow> nat \<times> ReviewCandidate \<Rightarrow>
   reviewWindowState \<times> EvidenceVault \<times> ReviewCandidate list"
where
  "store_candidate P puts acc ic =
     (let (s, vault, selected) = acc; (i, c) = ic; io = puts i;
          raw = (case map_of (ws_evidence s) (ca_CandidateId c) of None \<Rightarrow> [] | Some b \<Rightarrow> b);
          occurredAt = (if timestamp_valid (ca_OccurredAt c) then ca_OccurredAt c else ws_start s) in
      case PutRisk P (pe_io io) (pe_removable io) (pe_draws io) (pe_nonce io) raw (ca_RiskScore c) occurredAt vault of
        (Inl e, vault) \<Rightarrow> (recordEvidenceDrop (drop_reason e) s, vault, selected)
      | (Inr (handle, digest, expires), vault) \<Rightarrow>
          (s, vault, selected @ [c\<lparr>ca_EvidenceHandle := handle, ca_EvidenceDigest := digest, ca_EvidenceExpiresAt := expires\<rparr>]))"

definition TRAFFIC_REVIEW_MODE_REDACTED_CASES :: int where "TRAFFIC_REVIEW_MODE_REDACTED_CASES = 3"
definition TRAFFIC_REVIEW_MODE_EVIDENCE_ON_APPROVAL :: int where "TRAFFIC_REVIEW_MODE_EVIDENCE_ON_APPROVAL = 4"

definition store_evidence ::
  "'a reviewlib_scheme \<Rightarrow> (nat \<Rightarrow> put_env) \<Rightarrow> int \<Rightarrow> EvidenceVault option \<Rightarrow> reviewWindowState \<Rightarrow>
   reviewWindowState \<times> EvidenceVault option \<times> ReviewCandidate list"
where
  "store_evidence P puts mode vault s =
     (if mode < TRAFFIC_REVIEW_MODE_EVIDENCE_ON_APPROVAL then (s, vault, ws_candidates s)
      else case vault of
        None \<Rightarrow> (foldl (\<lambda>s c. recordEvidenceDrop ''vault_unavailable'' s) s (ws_candidates s), None, [])
      | Some v \<Rightarrow>
          (case foldl (store_candidate P puts) (s, v, []) (enumerate 0 (ws_candidates s)) of
             (s, v, selected) \<Rightarrow> (s, Some v, selected)))"

definition sorted_routes :: "(reviewRouteKey \<times> reviewRouteCount) list \<Rightarrow> (reviewRouteKey \<times> reviewRouteCount) list" where
  "sorted_routes routes = sort_key (\<lambda>p. - int (rn_requests (snd p))) (sort_key (\<lambda>p. route_name (fst p)) routes)"

definition route_cell :: "reviewRouteKey \<times> reviewRouteCount \<Rightarrow> TrafficRouteCell" where
  "route_cell p = \<lparr>rc_Method = rk_method (fst p), rc_RouteTemplate = rk_route (fst p), rc_Count = snd p\<rparr>"

definition freeze_window :: "'a reviewlib_scheme \<Rightarrow> TrafficReviewPolicy \<Rightarrow> reviewWindowState \<Rightarrow> TrafficWindow" where
  "freeze_window P policy s =
     (let pairs = sorted_routes (ws_routes s); limit = nat (trp_TopRouteCells policy) in
      \<lparr>tw_WindowId = reviewWindowID P s, tw_UnitId = ws_unitID s, tw_AssetId = ws_assetID s, tw_WindowStart = ws_start s,
       tw_WindowEnd = ws_end s, tw_GenerationId = ws_generation s, tw_GenerationSeq = ws_genSeq s, tw_PolicyDigest = ws_policy s,
       tw_RequestCount = ws_requests s, tw_CriticalCount = ws_critical s, tw_BlockedCount = ws_blocked s,
       tw_ObservedCount = ws_observed s, tw_IncompleteCount = ws_incomplete s, tw_EvidenceDroppedCount = ws_dropped s,
       tw_EvidenceDropReasons = ws_dropReasons s, tw_RouteCells = map route_cell (take limit pairs),
       tw_Other = foldl add_count (ws_other s) (map snd (drop limit pairs)), tw_ReviewMode = trp_Mode policy\<rparr>)"

definition freeze ::
  "'a reviewlib_scheme \<Rightarrow> (nat \<Rightarrow> put_env) \<Rightarrow> TrafficReviewPolicy \<Rightarrow> EvidenceVault option \<Rightarrow> reviewWindowState \<Rightarrow>
   TrafficWindow \<times> ReviewCandidate list \<times> EvidenceVault option"
where
  "freeze P puts policy vault s =
     (case store_evidence P puts (trp_Mode policy) vault s of
        (s1, vault1, candidates) \<Rightarrow> (freeze_window P policy s1, candidates, vault1))"

text \<open>Freezing the current window into the ready lists, as four methods do.\<close>

definition make_ready :: "'a reviewlib_scheme \<Rightarrow> (nat \<Rightarrow> put_env) \<Rightarrow> ReviewCollector \<Rightarrow> ReviewCollector" where
  "make_ready P puts c =
     (case col_state c of
        None \<Rightarrow> c
      | Some s \<Rightarrow>
          (case freeze P puts (col_policy c) (col_vault c) s of
             (w, candidates, vault) \<Rightarrow>
               c\<lparr>col_vault := vault, col_state := None, col_readyW := col_readyW c @ [w], col_readyC := col_readyC c @ candidates,
                 col_readyVersion := col_readyVersion c + 1\<rparr>))"

subsection \<open>Observing a request\<close>

text \<open>\<open>Time.Truncate\<close>: rounding down to a multiple of the duration since the year 1.\<close>

definition truncate_time :: "instant \<Rightarrow> duration \<Rightarrow> instant" where
  "truncate_time t d = (if d \<le> 0 then t else t - (t + 62135596800 * Second) mod d)"

definition new_window :: "instant \<Rightarrow> duration \<Rightarrow> string \<Rightarrow> string \<Rightarrow> Decision \<Rightarrow> string \<Rightarrow> reviewWindowState" where
  "new_window start window unitID assetID dec digest =
     \<lparr>ws_start = start, ws_end = start + window, ws_unitID = unitID, ws_assetID = assetID, ws_generation = dec_GenerationID dec,
      ws_genSeq = dec_GenerationSeq dec, ws_policy = digest, ws_requests = 0, ws_critical = 0, ws_blocked = 0, ws_observed = 0,
      ws_incomplete = 0, ws_dropped = 0, ws_dropReasons = [], ws_routes = [], ws_other = zero_count, ws_candidates = [], ws_evidence = []\<rparr>"

definition ensureWindow ::
  "'a reviewlib_scheme \<Rightarrow> (nat \<Rightarrow> put_env) \<Rightarrow> instant \<Rightarrow> string \<Rightarrow> string \<Rightarrow> Decision \<Rightarrow> ReviewCollector \<Rightarrow> ReviewCollector"
where
  "ensureWindow P puts now unitID assetID dec c =
     (let window = trp_WindowSeconds (col_policy c) * Second; start = truncate_time now window in
      if (case col_state c of None \<Rightarrow> False | Some s \<Rightarrow> ws_start s = start \<and> ws_unitID s = unitID \<and> ws_assetID s = assetID \<and>
            ws_generation s = dec_GenerationID dec \<and> ws_genSeq s = dec_GenerationSeq dec) then c
      else (make_ready P puts c)\<lparr>col_state := Some (new_window start window unitID assetID dec (col_digest c))\<rparr>)"

definition hasReviewBaseline :: "ReviewCandidate list \<Rightarrow> bool" where
  "hasReviewBaseline candidates \<longleftrightarrow> list_ex ca_Baseline candidates"

definition candidate_key :: "string \<Rightarrow> string \<Rightarrow> string list \<Rightarrow> string" where
  "candidate_key method route reasons = method @ [CHR 0x00] @ route @ [CHR 0x00] @ join_with '','' reasons"

definition key_of :: "ReviewCandidate \<Rightarrow> string" where
  "key_of c = candidate_key (ca_Method c) (ca_RouteTemplate c) (ca_RiskReasons c)"

definition hasReviewCandidateKey :: "ReviewCandidate list \<Rightarrow> string \<Rightarrow> bool" where
  "hasReviewCandidateKey candidates key \<longleftrightarrow> list_ex (\<lambda>c. key_of c = key) candidates"

definition lower_risk :: "ReviewCandidate list \<Rightarrow> nat \<Rightarrow> nat option \<Rightarrow> nat option" where
  "lower_risk cs i lowest =
     (if ca_Baseline (cs ! i) then lowest
      else case lowest of
        None \<Rightarrow> Some i
      | Some l \<Rightarrow> if ca_RiskScore (cs ! i) < ca_RiskScore (cs ! l) then Some i else lowest)"

definition lowest_risk :: "ReviewCandidate list \<Rightarrow> nat option" where
  "lowest_risk cs = fold (lower_risk cs) [0..<length cs] None"

definition reviewCandidateSlot :: "ReviewCandidate list \<Rightarrow> ReviewCandidate \<Rightarrow> int \<Rightarrow> nat option" where
  "reviewCandidateSlot cs candidate limit =
     (if int (length cs) < limit then Some (length cs)
      else case lowest_risk cs of
        None \<Rightarrow> None
      | Some l \<Rightarrow> if ca_Baseline candidate \<or> ca_RiskScore candidate > ca_RiskScore (cs ! l) then Some l else None)"

definition new_candidate ::
  "'a reviewlib_scheme \<Rightarrow> TrafficReviewPolicy \<Rightarrow> instant \<Rightarrow> string \<Rightarrow> string \<Rightarrow> string \<Rightarrow> Request \<Rightarrow> Decision \<Rightarrow> real \<Rightarrow> string list \<Rightarrow>
   reviewWindowState \<Rightarrow> ReviewCandidate"
where
  "new_candidate P policy now cid requestID routeTemplate req dec risk reasons s =
     \<lparr>ca_CandidateId = cid, ca_WindowId = reviewWindowID P s, ca_UnitId = ws_unitID s, ca_AssetId = ws_assetID s, ca_OccurredAt = now,
      ca_RequestId = requestID, ca_Method = req_Method req, ca_RouteTemplate = routeTemplate, ca_RiskScore = risk,
      ca_RiskReasons = reasons, ca_GenerationId = dec_GenerationID dec, ca_GenerationSeq = dec_GenerationSeq dec,
      ca_Baseline = (risk = 0), ca_ReviewMode = trp_Mode policy,
      ca_EvidenceExpiresAt = now + trp_EvidenceTtlSeconds policy * Second,
      ca_Evidence = [(''method'', req_Method req), (''route_template'', routeTemplate)], ca_EvidenceHandle = [], ca_EvidenceDigest = []\<rparr>"

definition place_candidate :: "nat \<Rightarrow> ReviewCandidate \<Rightarrow> reviewWindowState \<Rightarrow> reviewWindowState" where
  "place_candidate slot candidate s =
     (if slot = length (ws_candidates s) then s\<lparr>ws_candidates := ws_candidates s @ [candidate]\<rparr>
      else s\<lparr>ws_evidence := AList.delete (ca_CandidateId (ws_candidates s ! slot)) (ws_evidence s),
             ws_candidates := (ws_candidates s)[slot := candidate]\<rparr>)"

definition maybeCandidate ::
  "'a reviewlib_scheme \<Rightarrow> TrafficReviewPolicy \<Rightarrow> instant \<Rightarrow> string \<Rightarrow> string \<Rightarrow> string \<Rightarrow> Request \<Rightarrow> Decision \<Rightarrow> bool \<Rightarrow> bool \<Rightarrow>
   reviewWindowState \<Rightarrow> reviewWindowState"
where
  "maybeCandidate P policy now cid requestID routeTemplate req dec critical incomplete s =
     (if trp_Mode policy < TRAFFIC_REVIEW_MODE_REDACTED_CASES then s
      else
        let (risk, reasons) = reviewRisk dec critical incomplete;
            candidate = new_candidate P policy now cid requestID routeTemplate req dec risk reasons s in
        if risk = 0 \<and> hasReviewBaseline (ws_candidates s) then s
        else if hasReviewCandidateKey (ws_candidates s) (candidate_key (req_Method req) routeTemplate reasons) then s
        else case reviewCandidateSlot (ws_candidates s) candidate (trp_MaxCandidatesPerWindow policy) of
          None \<Rightarrow> s
        | Some slot \<Rightarrow>
            if trp_Mode policy < TRAFFIC_REVIEW_MODE_EVIDENCE_ON_APPROVAL then place_candidate slot candidate s
            else case marshalBoundedEvidence P (controlledTrafficEvidence P req dec routeTemplate) (trp_MaxEvidenceBytes policy) of
              Inl e \<Rightarrow> recordEvidenceDrop ''encoding_failed'' s
            | Inr doc \<Rightarrow> place_candidate slot candidate (s\<lparr>ws_evidence := AList.update cid doc (ws_evidence s)\<rparr>))"

definition request_count :: "bool \<Rightarrow> bool \<Rightarrow> Action \<Rightarrow> reviewRouteCount" where
  "request_count critical incomplete action =
     \<lparr>rn_requests = 1, rn_critical = of_bool critical, rn_blocked = of_bool (action = ActionBlock), rn_incomplete = of_bool incomplete\<rparr>"

text \<open>Counting a request in its route cell; a new route may displace the least frequent one into the remainder.\<close>

definition count_route :: "int \<Rightarrow> reviewRouteKey \<Rightarrow> reviewRouteCount \<Rightarrow> reviewWindowState \<Rightarrow> reviewWindowState" where
  "count_route cells key n s =
     (case map_of (ws_routes s) key of
        Some cell \<Rightarrow> s\<lparr>ws_routes := AList.update key (add_count cell n) (ws_routes s)\<rparr>
      | None \<Rightarrow>
          if int (length (ws_routes s)) < cells then s\<lparr>ws_routes := AList.update key (add_count zero_count n) (ws_routes s)\<rparr>
          else case leastFrequentReviewRoute (ws_routes s) of
            None \<Rightarrow> s \<comment> \<open>not reached: a valid policy has a cell\<close>
          | Some (evictedKey, evicted) \<Rightarrow>
              s\<lparr>ws_other := add_count (ws_other s) evicted,
                ws_routes := AList.update key (add_count zero_count n) (AList.delete evictedKey (ws_routes s))\<rparr>)"

definition count_request :: "bool \<Rightarrow> bool \<Rightarrow> Decision \<Rightarrow> reviewWindowState \<Rightarrow> reviewWindowState" where
  "count_request critical incomplete dec s =
     s\<lparr>ws_requests := ws_requests s + 1, ws_critical := ws_critical s + of_bool critical,
       ws_blocked := ws_blocked s + of_bool (dec_Action dec = ActionBlock),
       ws_observed := ws_observed s + of_bool (dec_Action dec = ActionObserve \<or> dec_WouldHaveBlocked dec),
       ws_incomplete := ws_incomplete s + of_bool incomplete\<rparr>"

definition observe_window ::
  "'a reviewlib_scheme \<Rightarrow> TrafficReviewPolicy \<Rightarrow> instant \<Rightarrow> string \<Rightarrow> string \<Rightarrow> Request \<Rightarrow> Decision \<Rightarrow> reviewWindowState \<Rightarrow> reviewWindowState"
where
  "observe_window P policy now cid requestID req dec s =
     (let (critical, incomplete) = reviewFlags dec; routeTemplate = TrafficRouteTemplate (req_Path req);
          key = \<lparr>rk_method = to_upper (req_Method req), rk_route = routeTemplate\<rparr> in
      maybeCandidate P policy now cid requestID routeTemplate req dec critical incomplete
        (count_route (trp_TopRouteCells policy) key (request_count critical incomplete (dec_Action dec))
          (count_request critical incomplete dec s)))"

definition Observe ::
  "'a reviewlib_scheme \<Rightarrow> (nat \<Rightarrow> put_env) \<Rightarrow> string \<Rightarrow> instant \<Rightarrow> string \<Rightarrow> string \<Rightarrow> string \<Rightarrow> Request \<Rightarrow> Decision \<Rightarrow> ReviewCollector \<Rightarrow>
   ReviewCollector"
where
  "Observe P puts cid now unitID assetID requestID req dec c =
     (if trp_Mode (col_policy c) = TRAFFIC_REVIEW_MODE_OFF then c
      else
        let c1 = ensureWindow P puts now unitID assetID dec c in
        c1\<lparr>col_state := map_option (observe_window P (col_policy c) now cid requestID req dec) (col_state c1)\<rparr>)"

subsection \<open>Handing windows over\<close>

type_synonym review_snapshot = "TrafficWindow list \<times> ReviewCandidate list \<times> 64 word"

definition snapshot_of :: "ReviewCollector \<Rightarrow> review_snapshot" where
  "snapshot_of c = (col_readyW c, col_readyC c, col_readyVersion c)"

definition PrepareDrain :: "'a reviewlib_scheme \<Rightarrow> (nat \<Rightarrow> put_env) \<Rightarrow> instant \<Rightarrow> ReviewCollector \<Rightarrow> review_snapshot \<times> ReviewCollector" where
  "PrepareDrain P puts now c =
     (let c1 = (case col_state c of None \<Rightarrow> c | Some s \<Rightarrow> if ws_end s \<le> now then make_ready P puts c else c) in (snapshot_of c1, c1))"

definition PrepareFlush :: "'a reviewlib_scheme \<Rightarrow> (nat \<Rightarrow> put_env) \<Rightarrow> ReviewCollector \<Rightarrow> review_snapshot \<times> ReviewCollector" where
  "PrepareFlush P puts c = (let c1 = make_ready P puts c in (snapshot_of c1, c1))"

definition CommitDrain :: "64 word \<Rightarrow> ReviewCollector \<Rightarrow> ReviewCollector" where
  "CommitDrain version c = (if version \<noteq> col_readyVersion c then c else c\<lparr>col_readyW := [], col_readyC := []\<rparr>)"

definition Drain :: "'a reviewlib_scheme \<Rightarrow> (nat \<Rightarrow> put_env) \<Rightarrow> instant \<Rightarrow> ReviewCollector \<Rightarrow> (TrafficWindow list \<times> ReviewCandidate list) \<times> ReviewCollector" where
  "Drain P puts now c = (case PrepareDrain P puts now c of ((windows, candidates, version), c1) \<Rightarrow> ((windows, candidates), CommitDrain version c1))"

definition Flush :: "'a reviewlib_scheme \<Rightarrow> (nat \<Rightarrow> put_env) \<Rightarrow> ReviewCollector \<Rightarrow> (TrafficWindow list \<times> ReviewCandidate list) \<times> ReviewCollector" where
  "Flush P puts c = (case PrepareFlush P puts c of ((windows, candidates, version), c1) \<Rightarrow> ((windows, candidates), CommitDrain version c1))"

end
