(* ===== verification/Traffic_Review_Laws.thy ===== *)
theory Traffic_Review_Laws
  imports Traffic_Review Evidence_Vault_Recovery
begin

text \<open>
  The laws of the traffic review collector, over any history of observed requests, hand-overs and
  changes of the shared evidence store: every window is well formed and its cells add up, no request
  is lost or counted twice, a commit removes exactly what was handed over, evidence fits its limit and
  a candidate's evidence can be read until it expires.
\<close>

subsection \<open>Bounded evidence\<close>

text \<open>What shrinking may leave of a document: a prefix of its fields, some without their value, and initial parts of the route and the method.\<close>

definition cleared :: "trafficEvidenceField \<Rightarrow> trafficEvidenceField \<Rightarrow> bool" where
  "cleared f g \<longleftrightarrow> f = g \<or> f = g\<lparr>tf_Value := []\<rparr>"

definition fields_reduced :: "trafficEvidenceField list \<Rightarrow> trafficEvidenceField list \<Rightarrow> bool" where
  "fields_reduced fs gs \<longleftrightarrow> length fs \<le> length gs \<and> (\<forall>i < length fs. cleared (fs ! i) (gs ! i))"

definition reduced :: "trafficEvidenceDocument \<Rightarrow> trafficEvidenceDocument \<Rightarrow> bool" where
  "reduced d' d \<longleftrightarrow> fields_reduced (td_Fields d') (td_Fields d) \<and>
     prefix (runes (td_RouteTemplate d')) (runes (td_RouteTemplate d)) \<and> prefix (runes (td_Method d')) (runes (td_Method d)) \<and>
     td_ContentType d' = td_ContentType d \<and> td_ContentLength d' = td_ContentLength d"

lemma shrink_prefix: "prefix (runes (shrinkEvidenceString v n)) (runes v)"
  by (simp add: shrinkEvidenceString_def Let_def runes_take take_is_prefix)

lemma reduced_refl: "reduced d d"
  by (simp add: reduced_def fields_reduced_def cleared_def)

lemma fields_butlast: "fields_reduced fs gs \<Longrightarrow> fields_reduced (butlast fs) gs"
  by (auto simp: fields_reduced_def nth_butlast)

lemma fields_clear_last:
  assumes "fields_reduced fs gs" "fs \<noteq> []"
  shows "fields_reduced (butlast fs @ [(last fs)\<lparr>tf_Value := []\<rparr>]) gs"
proof -
  obtain ys y where fs: "fs = ys @ [y]" using assms(2) by (cases fs rule: rev_cases) simp_all
  then have "cleared y (gs ! length ys)" using assms(1) by (auto simp: fields_reduced_def)
  then have "cleared (y\<lparr>tf_Value := []\<rparr>) (gs ! length ys)" by (auto simp: cleared_def)
  then show ?thesis using assms(1) by (auto simp: fs fields_reduced_def nth_append less_Suc_eq)
qed

lemma shrink_reduced:
  assumes "shrink_document d n = Some d'" and red: "reduced d e"
  shows "reduced d' e"
proof -
  note rules = fields_butlast fields_clear_last prefix_order.trans [OF shrink_prefix]
  show ?thesis using assms unfolding shrink_document_def reduced_def by (auto simp: rules split: if_split_asm)
qed

lemma marshal_loop_sound:
  "marshal_loop P limit d = Inr raw \<Longrightarrow> reduced d e \<Longrightarrow>
     length raw \<le> limit \<and> (\<exists>d'. marshal_document P d' = Some raw \<and> reduced d' e)"
proof (induction P limit d rule: marshal_loop.induct)
  case (1 P limit d)
  show ?case
  proof (cases "marshal_document P d")
    case None
    then show ?thesis using "1.prems" by (simp add: marshal_loop.simps)
  next
    case (Some b)
    show ?thesis
    proof (cases "length b \<le> limit")
      case True
      then show ?thesis using "1.prems" Some by (auto simp: marshal_loop.simps [of P limit d])
    next
      case False
      then obtain d1 where d1: "shrink_document d (length b - limit) = Some d1"
        using "1.prems"(1) Some by (cases "shrink_document d (length b - limit)") (simp_all add: marshal_loop.simps [of P limit d])
      then have "marshal_loop P limit d1 = Inr raw" using "1.prems"(1) Some False by (simp add: marshal_loop.simps [of P limit d])
      then show ?thesis using "1.IH" [OF Some False d1] shrink_reduced [OF d1 "1.prems"(2)] by simp
    qed
  qed
qed

text \<open>The bare envelope: no fields, no route, no method.\<close>

definition bare :: "trafficEvidenceDocument \<Rightarrow> trafficEvidenceDocument" where
  "bare d = d\<lparr>td_Fields := [], td_RouteTemplate := [], td_Method := []\<rparr>"

lemma shrink_None: "shrink_document d n = None \<Longrightarrow> d = bare d"
  by (cases d) (auto simp: shrink_document_def bare_def split: if_split_asm)

lemma shrink_bare: "shrink_document d n = Some d' \<Longrightarrow> bare d' = bare d"
  by (auto simp: shrink_document_def bare_def split: if_split_asm)

lemma marshal_loop_returns:
  assumes "\<And>d. marshal_document P d \<noteq> None" and "length (the (marshal_document P (bare d))) \<le> limit"
  shows "\<exists>raw. marshal_loop P limit d = Inr raw"
  using assms
proof (induction P limit d rule: marshal_loop.induct)
  case (1 P limit d)
  then obtain b where b: "marshal_document P d = Some b" by blast
  show ?case
  proof (cases "length b \<le> limit")
    case False
    then have "shrink_document d (length b - limit) \<noteq> None" using shrink_None [of d] "1.prems"(2) b by force
    then obtain d1 where d1: "shrink_document d (length b - limit) = Some d1" by blast
    have "\<exists>raw. marshal_loop P limit d1 = Inr raw"
      using "1.IH" [OF b False d1] "1.prems" shrink_bare [OF d1] by simp
    then show ?thesis using b False d1 by (simp add: marshal_loop.simps [of P limit d])
  qed (simp add: b marshal_loop.simps [of P limit d])
qed

subsection \<open>Route cells add up\<close>

definition additive :: "(reviewRouteCount \<Rightarrow> nat) \<Rightarrow> bool" where
  "additive f \<longleftrightarrow> (\<forall>a b. f (add_count a b) = f a + f b) \<and> f zero_count = 0"

lemma additive_fields [simp]: "additive rn_requests" "additive rn_critical" "additive rn_blocked" "additive rn_incomplete"
  by (simp_all add: additive_def add_count_def zero_count_def)

definition route_total :: "(reviewRouteCount \<Rightarrow> nat) \<Rightarrow> reviewWindowState \<Rightarrow> nat" where
  "route_total f s = sum_list (map (\<lambda>p. f (snd p)) (ws_routes s)) + f (ws_other s)"

lemma sum_update:
  fixes g :: "'b \<Rightarrow> nat"
  assumes "distinct (map fst xs)" "map_of xs k = Some v"
  shows "sum_list (map (\<lambda>p. g (snd p)) (AList.update k v' xs)) + g v = sum_list (map (\<lambda>p. g (snd p)) xs) + g v'"
  using assms by (induction xs) (auto split: if_split_asm)

lemma sum_delete:
  fixes g :: "'b \<Rightarrow> nat"
  assumes "distinct (map fst xs)" "map_of xs k = Some v"
  shows "sum_list (map (\<lambda>p. g (snd p)) (AList.delete k xs)) + g v = sum_list (map (\<lambda>p. g (snd p)) xs)"
  using assms
proof (induction xs)
  case (Cons x xs)
  then show ?case by (cases x) (auto simp: delete_notin_dom image_iff split: if_split_asm)
qed simp

lemma least_frequent_fold: "fold less_frequent xs b = None \<longleftrightarrow> xs = [] \<and> b = None"
  by (induction xs arbitrary: b) (auto simp: less_frequent_def split: option.split)

lemma least_frequent_member: "fold less_frequent xs b = Some x \<Longrightarrow> x \<in> set xs \<or> b = Some x"
proof (induction xs arbitrary: b)
  case (Cons a xs)
  have "less_frequent a b = Some a \<or> less_frequent a b = b" by (simp add: less_frequent_def split: option.split)
  then show ?case using Cons.IH [of "less_frequent a b"] Cons.prems by auto
qed simp

lemma least_frequent_cases:
  assumes "routes \<noteq> []" "distinct (map fst routes)"
  obtains k n where "leastFrequentReviewRoute routes = Some (k, n)" "map_of routes k = Some n"
proof -
  obtain x where x: "leastFrequentReviewRoute routes = Some x"
    using assms(1) least_frequent_fold [of routes None] by (auto simp: leastFrequentReviewRoute_def)
  then have "x \<in> set routes" using least_frequent_member [of routes None x] by (simp add: leastFrequentReviewRoute_def)
  then have "map_of routes (fst x) = Some (snd x)" using assms(2) by simp
  then show thesis using x that [of "fst x" "snd x"] by simp
qed

text \<open>The three ways of counting a request.\<close>

lemma count_route_cases [consumes 2]:
  assumes "distinct (map fst (ws_routes s))" "cells \<ge> 1"
  obtains (known) cell where "map_of (ws_routes s) key = Some cell"
      "count_route cells key n s = s\<lparr>ws_routes := AList.update key (add_count cell n) (ws_routes s)\<rparr>"
  | (fresh) "map_of (ws_routes s) key = None" "int (length (ws_routes s)) < cells"
      "count_route cells key n s = s\<lparr>ws_routes := ws_routes s @ [(key, add_count zero_count n)]\<rparr>"
  | (evict) k m where "map_of (ws_routes s) key = None" "map_of (ws_routes s) k = Some m" "int (length (ws_routes s)) \<ge> cells"
      "count_route cells key n s = s\<lparr>ws_other := add_count (ws_other s) m,
         ws_routes := AList.delete k (ws_routes s) @ [(key, add_count zero_count n)]\<rparr>"
proof (cases "map_of (ws_routes s) key")
  case (Some cell)
  then show thesis by (intro known) (simp_all add: count_route_def)
next
  case None
  show thesis
  proof (cases "int (length (ws_routes s)) < cells")
    case True
    then show thesis using None by (intro fresh) (simp_all add: count_route_def update_absent)
  next
    case False
    then have "ws_routes s \<noteq> []" using assms(2) by auto
    from least_frequent_cases [OF this assms(1)] obtain k m where
      k: "leastFrequentReviewRoute (ws_routes s) = Some (k, m)" "map_of (ws_routes s) k = Some m" .
    have "map_of (AList.delete k (ws_routes s)) key = None" using None by (simp add: delete_conv)
    then show thesis using None False k by (intro evict) (simp_all add: count_route_def update_absent)
  qed
qed

lemma count_route_total:
  assumes "distinct (map fst (ws_routes s))" "cells \<ge> 1" "additive f"
  shows "route_total f (count_route cells key n s) = route_total f s + f n"
  using assms(1,2)
proof (cases rule: count_route_cases [where key = key and n = n])
  case (known cell)
  then show ?thesis using sum_update [OF assms(1) known(1), of f "add_count cell n"] assms(3)
    by (simp add: route_total_def additive_def)
next
  case fresh
  then show ?thesis using assms(3) by (simp add: route_total_def additive_def)
next
  case (evict k m)
  then show ?thesis using sum_delete [OF assms(1) evict(2), of f] assms(3) by (simp add: route_total_def additive_def)
qed

subsection \<open>Well-formed windows\<close>

definition count_ok :: "reviewRouteCount \<Rightarrow> bool" where
  "count_ok n \<longleftrightarrow> rn_blocked n \<le> rn_critical n \<and> rn_incomplete n \<le> rn_critical n \<and> rn_critical n \<le> rn_requests n"

lemma count_ok_add [simp]: "count_ok a \<Longrightarrow> count_ok b \<Longrightarrow> count_ok (add_count a b)"
  by (simp add: count_ok_def add_count_def)

lemma add_zero_count [simp]: "add_count zero_count n = n"
  by (cases n) (simp add: add_count_def zero_count_def)

lemma count_ok_zero [simp]: "count_ok zero_count"
  by (simp add: count_ok_def zero_count_def)

definition cells_ok :: "TrafficReviewPolicy \<Rightarrow> reviewWindowState \<Rightarrow> bool" where
  "cells_ok policy s \<longleftrightarrow> distinct (map fst (ws_routes s)) \<and> int (length (ws_routes s)) \<le> trp_TopRouteCells policy \<and>
     (\<forall>p \<in> set (ws_routes s). count_ok (snd p) \<and> 1 \<le> rn_requests (snd p)) \<and> count_ok (ws_other s)"

definition totals_ok :: "reviewWindowState \<Rightarrow> bool" where
  "totals_ok s \<longleftrightarrow> route_total rn_requests s = ws_requests s \<and> route_total rn_critical s = ws_critical s \<and>
     route_total rn_blocked s = ws_blocked s \<and> route_total rn_incomplete s = ws_incomplete s"

definition drops_ok :: "reviewWindowState \<Rightarrow> bool" where
  "drops_ok s \<longleftrightarrow> distinct (map fst (ws_dropReasons s)) \<and> ws_dropped s = sum_list (map snd (ws_dropReasons s))"

definition candidates_ok :: "TrafficReviewPolicy \<Rightarrow> reviewWindowState \<Rightarrow> bool" where
  "candidates_ok policy s \<longleftrightarrow> int (length (ws_candidates s)) \<le> trp_MaxCandidatesPerWindow policy \<and>
     length (filter ca_Baseline (ws_candidates s)) \<le> 1 \<and> distinct (map key_of (ws_candidates s)) \<and>
     (\<forall>c \<in> set (ws_candidates s). ws_start s \<le> ca_OccurredAt c \<and> ca_OccurredAt c < ws_end s)"

definition evidence_ok :: "TrafficReviewPolicy \<Rightarrow> reviewWindowState \<Rightarrow> bool" where
  "evidence_ok policy s \<longleftrightarrow> fst ` set (ws_evidence s) \<subseteq> ca_CandidateId ` set (ws_candidates s) \<and>
     (\<forall>e \<in> set (ws_evidence s). int (length (snd e)) \<le> trp_MaxEvidenceBytes policy)"

definition window_ok :: "TrafficReviewPolicy \<Rightarrow> reviewWindowState \<Rightarrow> bool" where
  "window_ok policy s \<longleftrightarrow> ws_end s = ws_start s + TrafficReviewWindow \<and> cells_ok policy s \<and> totals_ok s \<and> drops_ok s \<and>
     candidates_ok policy s \<and> evidence_ok policy s"

lemma alist_update_member: "p \<in> set (AList.update k v xs) \<Longrightarrow> p = (k, v) \<or> p \<in> set xs"
  by (induction xs) (auto split: if_split_asm)

lemma alist_update_length: "map_of xs k = Some v \<Longrightarrow> length (AList.update k w xs) = length xs"
  by (induction xs) (auto split: if_split_asm)

lemma alist_delete_member: "p \<in> set (AList.delete k xs) \<Longrightarrow> p \<in> set xs"
  by (simp add: delete_filter)

lemma alist_delete_keys: "fst ` set (AList.delete k xs) = fst ` set xs - {k}"
  by (auto simp: delete_filter)

lemma alist_delete_length: "map_of xs k = Some v \<Longrightarrow> length (AList.delete k xs) < length xs"
  using map_of_SomeD [of xs k v] by (auto simp: delete_filter intro!: length_filter_less)

lemma count_route_cells:
  assumes ok: "cells_ok policy s" and cells: "trp_TopRouteCells policy \<ge> 1" and n: "count_ok n" "1 \<le> rn_requests n"
  shows "cells_ok policy (count_route (trp_TopRouteCells policy) key n s)"
proof -
  have d: "distinct (map fst (ws_routes s))" using ok by (simp add: cells_ok_def)
  have new: "count_ok (add_count zero_count n) \<and> 1 \<le> rn_requests (add_count zero_count n)"
    using n by simp
  from d cells show ?thesis
  proof (cases rule: count_route_cases [where key = key and n = n])
    case (known cell)
    have "count_ok (add_count cell n) \<and> 1 \<le> rn_requests (add_count cell n)"
      using ok n map_of_SomeD [OF known(1)] by (auto simp: cells_ok_def) (auto simp: add_count_def)
    then show ?thesis using ok
      by (auto simp: cells_ok_def known(2) distinct_update alist_update_length [OF known(1)] dest!: alist_update_member)
  next
    case fresh
    then show ?thesis using ok new by (auto simp: cells_ok_def map_of_eq_None_iff)
  next
    case (evict k m)
    have m: "count_ok m" using ok map_of_SomeD [OF evict(2)] by (auto simp: cells_ok_def)
    have "key \<notin> fst ` set (AList.delete k (ws_routes s))"
      using evict(1) dom_delete_subset [of k "ws_routes s"] by (auto simp: map_of_eq_None_iff)
    then show ?thesis using ok new m alist_delete_length [OF evict(2)]
      by (auto simp: cells_ok_def evict(4) distinct_delete dest!: alist_delete_member)
  qed
qed

lemma count_route_other_fields [simp]:
  "ws_requests (count_route cells key n s) = ws_requests s" "ws_critical (count_route cells key n s) = ws_critical s"
  "ws_blocked (count_route cells key n s) = ws_blocked s" "ws_incomplete (count_route cells key n s) = ws_incomplete s"
  "ws_start (count_route cells key n s) = ws_start s" "ws_end (count_route cells key n s) = ws_end s"
  "ws_dropped (count_route cells key n s) = ws_dropped s" "ws_dropReasons (count_route cells key n s) = ws_dropReasons s"
  "ws_candidates (count_route cells key n s) = ws_candidates s" "ws_evidence (count_route cells key n s) = ws_evidence s"
  "ws_unitID (count_route cells key n s) = ws_unitID s" "ws_assetID (count_route cells key n s) = ws_assetID s"
  by (simp_all add: count_route_def split: option.split)

lemma count_request_fields [simp]:
  "ws_routes (count_request a b dec s) = ws_routes s" "ws_other (count_request a b dec s) = ws_other s"
  "ws_dropped (count_request a b dec s) = ws_dropped s" "ws_dropReasons (count_request a b dec s) = ws_dropReasons s"
  "ws_candidates (count_request a b dec s) = ws_candidates s" "ws_evidence (count_request a b dec s) = ws_evidence s"
  "ws_start (count_request a b dec s) = ws_start s" "ws_end (count_request a b dec s) = ws_end s"
  "ws_unitID (count_request a b dec s) = ws_unitID s" "ws_assetID (count_request a b dec s) = ws_assetID s"
  by (simp_all add: count_request_def)

lemma count_window_ok:
  assumes ok: "window_ok policy s" and cells: "trp_TopRouteCells policy \<ge> 1" and flags: "reviewFlags dec = (critical, incomplete)"
  shows "window_ok policy (count_route (trp_TopRouteCells policy) key (request_count critical incomplete (dec_Action dec))
           (count_request critical incomplete dec s))"
proof -
  let ?n = "request_count critical incomplete (dec_Action dec)" and ?s = "count_request critical incomplete dec s"
  have n: "count_ok ?n" "1 \<le> rn_requests ?n"
    using flags by (auto simp: request_count_def count_ok_def reviewFlags_def Let_def)
  have c: "cells_ok policy ?s" and d: "distinct (map fst (ws_routes ?s))" using ok by (simp_all add: window_ok_def cells_ok_def)
  have "totals_ok (count_route (trp_TopRouteCells policy) key ?n ?s)"
    using ok count_route_total [OF d cells]
    by (simp add: totals_ok_def window_ok_def route_total_def) (simp add: count_request_def request_count_def)
  then show ?thesis using ok count_route_cells [OF c cells n]
    by (auto simp: window_ok_def drops_ok_def candidates_ok_def evidence_ok_def)
qed

subsection \<open>Candidates\<close>

lemma lowest_risk_fold:
  "fold (lower_risk cs) xs b = Some l \<Longrightarrow> l \<in> set xs \<and> \<not> ca_Baseline (cs ! l) \<or> b = Some l"
proof (induction xs arbitrary: b)
  case (Cons i xs)
  have "lower_risk cs i b = b \<or> lower_risk cs i b = Some i \<and> \<not> ca_Baseline (cs ! i)"
    by (simp add: lower_risk_def split: option.split)
  then show ?case using Cons.IH [of "lower_risk cs i b"] Cons.prems by auto
qed simp

lemma slot_cases:
  assumes "reviewCandidateSlot cs c limit = Some slot"
  obtains (append) "slot = length cs" "int (length cs) < limit"
  | (replace) "slot < length cs" "\<not> ca_Baseline (cs ! slot)"
  using assms lowest_risk_fold [of cs "[0..<length cs]" None slot]
  by (auto simp: reviewCandidateSlot_def lowest_risk_def split: if_split_asm option.split_asm)

lemma filter_update_length:
  "i < length xs \<Longrightarrow> \<not> p (xs ! i) \<Longrightarrow> length (filter p (xs[i := y])) = length (filter p xs) + of_bool (p y)"
  by (induction xs arbitrary: i) (auto split: nat.split)

lemma place_fields [simp]:
  "ws_start (place_candidate slot c s) = ws_start s" "ws_end (place_candidate slot c s) = ws_end s"
  "ws_routes (place_candidate slot c s) = ws_routes s" "ws_other (place_candidate slot c s) = ws_other s"
  "ws_requests (place_candidate slot c s) = ws_requests s" "ws_critical (place_candidate slot c s) = ws_critical s"
  "ws_blocked (place_candidate slot c s) = ws_blocked s" "ws_incomplete (place_candidate slot c s) = ws_incomplete s"
  "ws_dropped (place_candidate slot c s) = ws_dropped s" "ws_dropReasons (place_candidate slot c s) = ws_dropReasons s"
  by (simp_all add: place_candidate_def)

lemma place_candidates_ok:
  assumes ok: "candidates_ok policy s" and slot: "reviewCandidateSlot (ws_candidates s) c (trp_MaxCandidatesPerWindow policy) = Some slot"
    and base: "ca_Baseline c \<longrightarrow> \<not> hasReviewBaseline (ws_candidates s)" and key: "\<not> hasReviewCandidateKey (ws_candidates s) (key_of c)"
    and time: "ws_start s \<le> ca_OccurredAt c" "ca_OccurredAt c < ws_end s"
  shows "candidates_ok policy (place_candidate slot c s)"
proof -
  have b: "length (filter ca_Baseline (ws_candidates s)) + of_bool (ca_Baseline c) \<le> 1"
    using ok base by (cases "ca_Baseline c") (auto simp: candidates_ok_def hasReviewBaseline_def list_ex_iff filter_empty_conv)
  have k: "key_of c \<notin> set (map key_of (ws_candidates s))" using key by (auto simp: hasReviewCandidateKey_def list_ex_iff)
  from slot show ?thesis
  proof (cases rule: slot_cases)
    case append
    then show ?thesis using ok b k time by (auto simp: candidates_ok_def place_candidate_def split: if_split_asm)
  next
    case replace
    have "distinct (map key_of ((ws_candidates s)[slot := c]))"
      using ok k by (auto simp: candidates_ok_def map_update intro!: distinct_list_update)
    then show ?thesis using ok b time replace filter_update_length [of slot "ws_candidates s" ca_Baseline c]
      by (auto simp: candidates_ok_def place_candidate_def dest!: set_update_subset_insert [THEN subsetD])
  qed
qed

lemma update_member: "i < length xs \<Longrightarrow> set xs \<subseteq> insert (xs ! i) (set (xs[i := y])) \<and> y \<in> set (xs[i := y])"
  by (auto simp: set_update_memI in_set_conv_nth) (metis nth_list_update_neq)

lemma place_evidence_ok:
  assumes ok: "evidence_ok policy s" and slot: "reviewCandidateSlot (ws_candidates s) c limit = Some slot"
    and doc: "int (length doc) \<le> trp_MaxEvidenceBytes policy"
  shows "evidence_ok policy (place_candidate slot c s)"
    and "evidence_ok policy (place_candidate slot c (s\<lparr>ws_evidence := AList.update (ca_CandidateId c) doc (ws_evidence s)\<rparr>))"
proof -
  have upd: "\<forall>e \<in> set (AList.update (ca_CandidateId c) doc (ws_evidence s)). int (length (snd e)) \<le> trp_MaxEvidenceBytes policy"
    using ok doc by (auto simp: evidence_ok_def dest!: alist_update_member)
  have keys: "fst ` set (AList.update (ca_CandidateId c) doc (ws_evidence s)) = insert (ca_CandidateId c) (fst ` set (ws_evidence s))"
    by (simp add: dom_update)
  have "evidence_ok policy (place_candidate slot c s) \<and>
      evidence_ok policy (place_candidate slot c (s\<lparr>ws_evidence := AList.update (ca_CandidateId c) doc (ws_evidence s)\<rparr>))"
    using slot
  proof (cases rule: slot_cases)
    case append
    then show ?thesis using ok upd keys by (auto simp: evidence_ok_def place_candidate_def)
  next
    case replace
    let ?cs = "(ws_candidates s)[slot := c]"
    have "ca_CandidateId ` set (ws_candidates s) \<subseteq> insert (ca_CandidateId (ws_candidates s ! slot)) (ca_CandidateId ` set ?cs)"
      "ca_CandidateId c \<in> ca_CandidateId ` set ?cs"
      using update_member [OF replace(1), of c] by auto
    then have "fst ` set (ws_evidence s) - {ca_CandidateId (ws_candidates s ! slot)} \<subseteq> ca_CandidateId ` set ?cs"
      "insert (ca_CandidateId c) (fst ` set (ws_evidence s)) - {ca_CandidateId (ws_candidates s ! slot)} \<subseteq> ca_CandidateId ` set ?cs"
      using ok unfolding evidence_ok_def by blast+
    then show ?thesis using ok upd replace(1)
      by (auto simp: evidence_ok_def place_candidate_def alist_delete_keys keys dest!: alist_delete_member)
  qed
  then show "evidence_ok policy (place_candidate slot c s)"
    "evidence_ok policy (place_candidate slot c (s\<lparr>ws_evidence := AList.update (ca_CandidateId c) doc (ws_evidence s)\<rparr>))" by simp_all
qed

lemma record_drop_fields [simp]:
  "ws_start (recordEvidenceDrop r s) = ws_start s" "ws_end (recordEvidenceDrop r s) = ws_end s"
  "ws_routes (recordEvidenceDrop r s) = ws_routes s" "ws_other (recordEvidenceDrop r s) = ws_other s"
  "ws_requests (recordEvidenceDrop r s) = ws_requests s" "ws_critical (recordEvidenceDrop r s) = ws_critical s"
  "ws_blocked (recordEvidenceDrop r s) = ws_blocked s" "ws_incomplete (recordEvidenceDrop r s) = ws_incomplete s"
  "ws_candidates (recordEvidenceDrop r s) = ws_candidates s" "ws_evidence (recordEvidenceDrop r s) = ws_evidence s"
  by (simp_all add: recordEvidenceDrop_def)

lemma record_drop_ok: "drops_ok s \<Longrightarrow> drops_ok (recordEvidenceDrop r s)"
proof (cases "map_of (ws_dropReasons s) r")
  case None
  then show "drops_ok s \<Longrightarrow> drops_ok (recordEvidenceDrop r s)"
    by (simp add: drops_ok_def recordEvidenceDrop_def update_absent) (simp add: map_of_eq_None_iff)
next
  case (Some n)
  assume ok: "drops_ok s"
  then show "drops_ok (recordEvidenceDrop r s)"
    using sum_update [of "ws_dropReasons s" r n "\<lambda>x. x" "n + 1"] Some by (simp add: drops_ok_def recordEvidenceDrop_def distinct_update)
qed

lemma record_drop_window_ok: "window_ok policy s \<Longrightarrow> window_ok policy (recordEvidenceDrop r s)"
  using record_drop_ok [of s r]
  by (auto simp: window_ok_def cells_ok_def totals_ok_def route_total_def candidates_ok_def evidence_ok_def)

lemma bounded_evidence_length: "marshalBoundedEvidence P d limit = Inr doc \<Longrightarrow> int (length doc) \<le> limit"
  using marshal_loop_sound [of P "nat limit" d doc d] reduced_refl by (auto simp: marshalBoundedEvidence_def split: if_split_asm)

lemma place_candidates_evidence: "ws_candidates (place_candidate slot c (s\<lparr>ws_evidence := e\<rparr>)) = ws_candidates (place_candidate slot c s)"
  by (simp add: place_candidate_def)

lemma place_window_ok:
  assumes ok: "window_ok policy s" and slot: "reviewCandidateSlot (ws_candidates s) c (trp_MaxCandidatesPerWindow policy) = Some slot"
    and base: "ca_Baseline c \<longrightarrow> \<not> hasReviewBaseline (ws_candidates s)" and key: "\<not> hasReviewCandidateKey (ws_candidates s) (key_of c)"
    and time: "ws_start s \<le> ca_OccurredAt c" "ca_OccurredAt c < ws_end s" and doc: "int (length doc) \<le> trp_MaxEvidenceBytes policy"
  shows "window_ok policy (place_candidate slot c s)"
    and "window_ok policy (place_candidate slot c (s\<lparr>ws_evidence := AList.update (ca_CandidateId c) doc (ws_evidence s)\<rparr>))"
proof -
  have "candidates_ok policy s" and evid: "evidence_ok policy s" using ok by (simp_all add: window_ok_def)
  then have cand: "candidates_ok policy (place_candidate slot c s)" using place_candidates_ok slot base key time by blast
  note evid = place_evidence_ok [OF evid slot doc]
  show "window_ok policy (place_candidate slot c s)"
    using ok cand evid(1) by (simp add: window_ok_def cells_ok_def totals_ok_def route_total_def drops_ok_def)
  have "candidates_ok policy (place_candidate slot c (s\<lparr>ws_evidence := AList.update (ca_CandidateId c) doc (ws_evidence s)\<rparr>))"
    using cand by (simp add: candidates_ok_def place_candidates_evidence)
  then show "window_ok policy (place_candidate slot c (s\<lparr>ws_evidence := AList.update (ca_CandidateId c) doc (ws_evidence s)\<rparr>))"
    using ok evid(2) by (simp add: window_ok_def cells_ok_def totals_ok_def route_total_def drops_ok_def)
qed

lemma maybe_window_ok:
  assumes ok: "window_ok policy s" and time: "ws_start s \<le> now" "now < ws_end s" and bytes: "trp_MaxEvidenceBytes policy \<ge> 0"
  shows "window_ok policy (maybeCandidate P policy now cid requestID route req dec critical incomplete s)"
proof -
  obtain risk reasons where risk: "reviewRisk dec critical incomplete = (risk, reasons)" by fastforce
  define c where "c = new_candidate P policy now cid requestID route req dec risk reasons s"
  have c: "ca_Baseline c = (risk = 0)" "key_of c = candidate_key (req_Method req) route reasons" "ca_OccurredAt c = now" "ca_CandidateId c = cid"
    by (simp_all add: c_def new_candidate_def key_of_def)
  have placed: "window_ok policy (place_candidate slot c s)"
    "int (length doc) \<le> trp_MaxEvidenceBytes policy \<Longrightarrow>
       window_ok policy (place_candidate slot c (s\<lparr>ws_evidence := AList.update cid doc (ws_evidence s)\<rparr>))"
    if "reviewCandidateSlot (ws_candidates s) c (trp_MaxCandidatesPerWindow policy) = Some slot"
      "\<not> (risk = 0 \<and> hasReviewBaseline (ws_candidates s))" "\<not> hasReviewCandidateKey (ws_candidates s) (key_of c)" for slot doc
    using place_window_ok [OF ok that(1) _ that(3), of "[]"] place_window_ok [OF ok that(1) _ that(3), of doc] that(2) time c bytes by auto
  show ?thesis
    unfolding maybeCandidate_def risk Let_def prod.case c_def [symmetric] c(2) [symmetric]
    by (simp add: ok placed record_drop_window_ok [OF ok] bounded_evidence_length split: option.split sum.split)
qed

subsection \<open>Frozen windows\<close>

definition cell_total :: "(reviewRouteCount \<Rightarrow> nat) \<Rightarrow> TrafficWindow \<Rightarrow> nat" where
  "cell_total f w = sum_list (map (\<lambda>c. f (rc_Count c)) (tw_RouteCells w)) + f (tw_Other w)"

text \<open>A window as the brain receives it: few cells, the busiest first, that add up with the remainder to the totals.\<close>

definition traffic_window_ok :: "TrafficReviewPolicy \<Rightarrow> TrafficWindow \<Rightarrow> bool" where
  "traffic_window_ok policy w \<longleftrightarrow> tw_WindowEnd w = tw_WindowStart w + TrafficReviewWindow \<and>
     int (length (tw_RouteCells w)) \<le> trp_TopRouteCells policy \<and>
     distinct (map (\<lambda>c. (rc_Method c, rc_RouteTemplate c)) (tw_RouteCells w)) \<and>
     sorted_wrt (\<lambda>a b. rn_requests (rc_Count b) \<le> rn_requests (rc_Count a)) (tw_RouteCells w) \<and>
     list_all (\<lambda>c. count_ok (rc_Count c) \<and> 1 \<le> rn_requests (rc_Count c)) (tw_RouteCells w) \<and> count_ok (tw_Other w) \<and>
     cell_total rn_requests w = tw_RequestCount w \<and> cell_total rn_critical w = tw_CriticalCount w \<and>
     cell_total rn_blocked w = tw_BlockedCount w \<and> cell_total rn_incomplete w = tw_IncompleteCount w \<and>
     tw_EvidenceDroppedCount w = sum_list (map snd (tw_EvidenceDropReasons w))"

lemma mset_sorted_routes [simp]: "mset (sorted_routes rs) = mset rs"
  by (simp add: sorted_routes_def)

lemma set_sorted_routes [simp]: "set (sorted_routes rs) = set rs" "length (sorted_routes rs) = length rs"
  by (simp_all add: sorted_routes_def)

lemma sum_sorted_routes: "sum_list (map f (sorted_routes rs)) = sum_list (map (f :: _ \<Rightarrow> nat) rs)"
  by (metis mset_map mset_sorted_routes sum_mset_sum_list)

lemma distinct_sorted_routes: "distinct (map fst rs) \<Longrightarrow> distinct (map fst (sorted_routes rs))"
  by (metis mset_eq_imp_distinct_iff mset_map mset_sorted_routes)

lemma sorted_routes_busiest: "sorted_wrt (\<lambda>a b. rn_requests (snd b) \<le> rn_requests (snd a)) (sorted_routes rs)"
proof -
  have "sorted (map (\<lambda>p. - int (rn_requests (snd p))) (sorted_routes rs))" by (simp add: sorted_routes_def)
  then show ?thesis by (simp add: sorted_map)
qed

lemma distinct_cells:
  fixes rs :: "(reviewRouteKey \<times> reviewRouteCount) list"
  assumes "distinct (map fst rs)"
  shows "distinct (map (\<lambda>p. (rk_method (fst p), rk_route (fst p))) rs)"
proof -
  let ?f = "\<lambda>k :: reviewRouteKey. (rk_method k, rk_route k)"
  have "inj ?f" by (rule injI) simp
  then have "distinct (map ?f (map fst rs))" unfolding distinct_map [of ?f] using assms inj_on_subset by blast
  then show ?thesis by (simp add: comp_def)
qed

lemma freeze_window_ok:
  assumes ok: "window_ok policy s"
  shows "traffic_window_ok policy (freeze_window P policy s)"
proof -
  let ?pairs = "sorted_routes (ws_routes s)"
  have short: "length ?pairs \<le> nat (trp_TopRouteCells policy)" using ok by (auto simp: window_ok_def cells_ok_def)
  then have w: "tw_RouteCells (freeze_window P policy s) = map route_cell ?pairs" "tw_Other (freeze_window P policy s) = ws_other s"
    by (simp_all add: freeze_window_def Let_def)
  have total: "cell_total f (freeze_window P policy s) = route_total f s" for f
    by (simp add: cell_total_def route_total_def w comp_def route_cell_def sum_sorted_routes)
  have d: "distinct (map fst ?pairs)" using ok by (simp add: window_ok_def cells_ok_def distinct_sorted_routes)
  show ?thesis
    unfolding traffic_window_ok_def total w
    using ok sorted_routes_busiest [of "ws_routes s"] distinct_cells [OF d]
    by (auto simp: window_ok_def cells_ok_def totals_ok_def drops_ok_def freeze_window_def Let_def route_cell_def comp_def
        sorted_wrt_map list_all_iff)
qed

lemma store_candidate_ok: "window_ok policy (fst acc) \<Longrightarrow> window_ok policy (fst (store_candidate P puts acc ic))"
  by (auto simp: store_candidate_def Let_def record_drop_window_ok split: prod.split sum.split)

lemma store_evidence_ok:
  assumes "window_ok policy s"
  shows "window_ok policy (fst (store_evidence P puts mode vault s))"
proof -
  have "window_ok policy (fst (foldl (store_candidate P puts) acc xs))" if "window_ok policy (fst acc)" for acc xs
    using that by (induction xs arbitrary: acc) (simp_all add: store_candidate_ok)
  moreover have "window_ok policy (foldl (\<lambda>s c. recordEvidenceDrop r s) s xs)" if "window_ok policy s" for r s and xs :: "ReviewCandidate list"
    using that by (induction xs arbitrary: s) (simp_all add: record_drop_window_ok)
  ultimately show ?thesis using assms by (simp add: store_evidence_def split: option.split prod.split) (metis fst_conv)
qed

subsection \<open>Histories of a collector\<close>

text \<open>
  The calls a runtime makes, in any order, and the changes other users make to the shared evidence store.
  The state is the collector and the windows a commit has removed from it so far.
\<close>

datatype review_event =
    ObserveEvent "nat \<Rightarrow> put_env" string instant string string string Request Decision
  | PrepareDrainEvent "nat \<Rightarrow> put_env" instant
  | PrepareFlushEvent "nat \<Rightarrow> put_env"
  | CommitEvent "64 word"
  | VaultEvent "EvidenceVault \<Rightarrow> EvidenceVault"

fun collector_step :: "'a reviewlib_scheme \<Rightarrow> ReviewCollector \<Rightarrow> review_event \<Rightarrow> ReviewCollector" where
  "collector_step P c (ObserveEvent puts cid now unitID assetID requestID req dec) = Observe P puts cid now unitID assetID requestID req dec c"
| "collector_step P c (PrepareDrainEvent puts now) = snd (PrepareDrain P puts now c)"
| "collector_step P c (PrepareFlushEvent puts) = snd (PrepareFlush P puts c)"
| "collector_step P c (CommitEvent version) = CommitDrain version c"
| "collector_step P c (VaultEvent f) = c\<lparr>col_vault := map_option f (col_vault c)\<rparr>"

fun removed :: "ReviewCollector \<Rightarrow> review_event \<Rightarrow> TrafficWindow list" where
  "removed c (CommitEvent version) = (if version = col_readyVersion c then col_readyW c else [])"
| "removed c _ = []"

definition review_step :: "'a reviewlib_scheme \<Rightarrow> ReviewCollector \<times> TrafficWindow list \<Rightarrow> review_event \<Rightarrow> ReviewCollector \<times> TrafficWindow list" where
  "review_step P st e = (collector_step P (fst st) e, snd st @ removed (fst st) e)"

definition collector_ok :: "ReviewCollector \<Rightarrow> bool" where
  "collector_ok c \<longleftrightarrow> ValidateTrafficReviewPolicy (Some (col_policy c)) = None \<and> list_all (traffic_window_ok (col_policy c)) (col_readyW c) \<and>
     (\<forall>s. col_state c = Some s \<longrightarrow> trp_Mode (col_policy c) \<noteq> TRAFFIC_REVIEW_MODE_OFF \<and> window_ok (col_policy c) s)"

definition review_ok :: "ReviewCollector \<times> TrafficWindow list \<Rightarrow> bool" where
  "review_ok st \<longleftrightarrow> collector_ok (fst st) \<and> list_all (traffic_window_ok (col_policy (fst st))) (snd st)"

lemma valid_policy:
  assumes "ValidateTrafficReviewPolicy (Some p) = None" "trp_Mode p \<noteq> TRAFFIC_REVIEW_MODE_OFF"
  shows "trp_WindowSeconds p * Second = TrafficReviewWindow" "trp_TopRouteCells p \<ge> 1" "trp_MaxEvidenceBytes p \<ge> 0"
    "trp_MaxCandidatesPerWindow p \<ge> 0"
  using assms by (auto simp: ValidateTrafficReviewPolicy_def TrafficReviewWindow_def Minute_def Second_def Millisecond_def split: if_split_asm)

lemma truncate_bounds: "d > 0 \<Longrightarrow> truncate_time t d \<le> t \<and> t < truncate_time t d + d"
  by (simp add: truncate_time_def)

lemma new_window_ok:
  assumes "trp_TopRouteCells policy \<ge> 0" "trp_MaxCandidatesPerWindow policy \<ge> 0"
  shows "window_ok policy (new_window start TrafficReviewWindow unitID assetID dec digest)"
  using assms by (simp add: new_window_def window_ok_def cells_ok_def totals_ok_def route_total_def drops_ok_def candidates_ok_def evidence_ok_def)
    (simp add: zero_count_def)

lemma make_ready_fields [simp]:
  "col_policy (make_ready P puts c) = col_policy c" "col_digest (make_ready P puts c) = col_digest c" "col_state (make_ready P puts c) = None"
  by (simp_all add: make_ready_def split: option.split prod.split)

lemma make_ready_ok:
  assumes "collector_ok c"
  shows "collector_ok (make_ready P puts c)"
proof (cases "col_state c")
  case None
  then have "make_ready P puts c = c" by (simp add: make_ready_def)
  then show ?thesis using assms by simp
next
  case (Some s)
  obtain s1 vault1 candidates where st: "store_evidence P puts (trp_Mode (col_policy c)) (col_vault c) s = (s1, vault1, candidates)"
    by (cases "store_evidence P puts (trp_Mode (col_policy c)) (col_vault c) s")
  have "window_ok (col_policy c) s" using assms Some by (simp add: collector_ok_def)
  from store_evidence_ok [OF this, of P puts "trp_Mode (col_policy c)" "col_vault c"] have "window_ok (col_policy c) s1" by (simp add: st)
  then show ?thesis using assms Some
    by (simp add: make_ready_def freeze_def st collector_ok_def freeze_window_ok)
qed

text \<open>After \<open>ensureWindow\<close> there is a window, it is well formed and the clock is inside it.\<close>

lemma ensure_window:
  assumes ok: "collector_ok c" and mode: "trp_Mode (col_policy c) \<noteq> TRAFFIC_REVIEW_MODE_OFF"
  shows "collector_ok (ensureWindow P puts now unitID assetID dec c)" "col_policy (ensureWindow P puts now unitID assetID dec c) = col_policy c"
    "\<exists>s. col_state (ensureWindow P puts now unitID assetID dec c) = Some s \<and> ws_start s \<le> now \<and> now < ws_end s"
proof -
  have valid: "ValidateTrafficReviewPolicy (Some (col_policy c)) = None" using ok by (simp add: collector_ok_def)
  note p = valid_policy [OF valid mode]
  let ?start = "truncate_time now TrafficReviewWindow"
  have pos: "TrafficReviewWindow > 0" by (simp add: TrafficReviewWindow_def Minute_def Second_def Millisecond_def)
  note bounds = truncate_bounds [OF pos, of now]
  show "col_policy (ensureWindow P puts now unitID assetID dec c) = col_policy c" by (simp add: ensureWindow_def Let_def)
  show "\<exists>s. col_state (ensureWindow P puts now unitID assetID dec c) = Some s \<and> ws_start s \<le> now \<and> now < ws_end s"
    using ok bounds by (auto simp: ensureWindow_def Let_def p new_window_def collector_ok_def window_ok_def split: option.split)
  have "window_ok (col_policy c) (new_window ?start TrafficReviewWindow unitID assetID dec (col_digest c))"
    using p by (intro new_window_ok) simp_all
  then show "collector_ok (ensureWindow P puts now unitID assetID dec c)"
    using ok make_ready_ok [OF ok, of P puts] mode by (simp add: ensureWindow_def Let_def p) (simp add: collector_ok_def)
qed

lemma observe_window_ok:
  assumes "window_ok policy s" "trp_TopRouteCells policy \<ge> 1" "trp_MaxEvidenceBytes policy \<ge> 0" "ws_start s \<le> now" "now < ws_end s"
  shows "window_ok policy (observe_window P policy now cid requestID req dec s)"
proof -
  obtain critical incomplete where flags: "reviewFlags dec = (critical, incomplete)" by fastforce
  show ?thesis unfolding observe_window_def flags Let_def prod.case
    by (rule maybe_window_ok) (simp_all add: count_window_ok [OF assms(1,2) flags] assms)
qed

lemma Observe_ok:
  assumes ok: "collector_ok c"
  shows "collector_ok (Observe P puts cid now unitID assetID requestID req dec c)"
proof (cases "trp_Mode (col_policy c) = TRAFFIC_REVIEW_MODE_OFF")
  case False
  define c1 where "c1 = ensureWindow P puts now unitID assetID dec c"
  note e = ensure_window [OF ok False, of P puts now unitID assetID dec, folded c1_def]
  obtain s where s: "col_state c1 = Some s" "ws_start s \<le> now" "now < ws_end s" using e(3) by blast
  have valid: "ValidateTrafficReviewPolicy (Some (col_policy c)) = None" using ok by (simp add: collector_ok_def)
  have w: "window_ok (col_policy c) s" using e(1,2) s(1) by (simp add: collector_ok_def)
  have "window_ok (col_policy c) (observe_window P (col_policy c) now cid requestID req dec s)"
    by (rule observe_window_ok [OF w]) (use s valid_policy [OF valid False] in auto)
  then show ?thesis using e(1,2) s False by (simp add: Observe_def Let_def c1_def [symmetric] collector_ok_def)
qed (simp add: Observe_def ok)

lemma Observe_policy [simp]: "col_policy (Observe P puts cid now unitID assetID requestID req dec c) = col_policy c"
  by (simp add: Observe_def ensureWindow_def Let_def)

lemma collector_step_policy [simp]: "col_policy (collector_step P c e) = col_policy c"
  by (cases e) (simp_all add: PrepareDrain_def PrepareFlush_def CommitDrain_def Let_def split: option.split)

lemma collector_step_ok: "collector_ok c \<Longrightarrow> collector_ok (collector_step P c e)"
proof (cases e)
  case (ObserveEvent puts cid now unitID assetID requestID req dec)
  then show "collector_ok c \<Longrightarrow> ?thesis" by (simp add: Observe_ok)
next
  case (CommitEvent version)
  then show "collector_ok c \<Longrightarrow> ?thesis" by (simp add: CommitDrain_def collector_ok_def)
next
  case (VaultEvent f)
  then show "collector_ok c \<Longrightarrow> ?thesis" by (simp add: collector_ok_def)
qed (simp_all add: PrepareDrain_def PrepareFlush_def Let_def make_ready_ok split: option.split)

lemma review_step_ok: "review_ok st \<Longrightarrow> review_ok (review_step P st e)"
  using collector_step_ok [of "fst st" P e]
  by (cases e) (auto simp: review_ok_def review_step_def collector_ok_def simp del: collector_step.simps)

interpretation review_machine: machine "review_step P" review_ok for P
  by unfold_locales (rule review_step_ok)

lemma new_collector_ok: "NewReviewCollector (Some policy) digest vault = Inr c \<Longrightarrow> review_ok (c, []) \<and> col_policy c = policy \<and> col_state c = None \<and> col_readyW c = []"
  by (auto simp: NewReviewCollector_def review_ok_def collector_ok_def split: option.split_asm)

subsection \<open>No request is lost\<close>

definition current_requests :: "ReviewCollector \<Rightarrow> nat" where
  "current_requests c = (case col_state c of None \<Rightarrow> 0 | Some s \<Rightarrow> ws_requests s)"

definition accounted :: "ReviewCollector \<times> TrafficWindow list \<Rightarrow> nat" where
  "accounted st = sum_list (map tw_RequestCount (snd st @ col_readyW (fst st))) + current_requests (fst st)"

fun observed :: "review_event \<Rightarrow> nat" where
  "observed (ObserveEvent _ _ _ _ _ _ _ _) = 1"
| "observed _ = 0"

lemma store_evidence_requests: "ws_requests (fst (store_evidence P puts mode vault s)) = ws_requests s"
proof -
  have 1: "ws_requests (fst (store_candidate P puts acc ic)) = ws_requests (fst acc)" for acc ic
    by (auto simp: store_candidate_def Let_def split: prod.split sum.split)
  have "ws_requests (fst (foldl (store_candidate P puts) acc xs)) = ws_requests (fst acc)" for acc xs
    by (induction xs arbitrary: acc) (simp_all add: 1)
  moreover have "ws_requests (foldl (\<lambda>s c. recordEvidenceDrop r s) s xs) = ws_requests s" for r s and xs :: "ReviewCandidate list"
    by (induction xs arbitrary: s) simp_all
  ultimately show ?thesis by (simp add: store_evidence_def split: option.split prod.split) (metis fst_conv)
qed

lemma make_ready_accounted: "accounted (make_ready P puts c, out) = accounted (c, out)"
proof (cases "col_state c")
  case (Some s)
  obtain s1 vault1 candidates where st: "store_evidence P puts (trp_Mode (col_policy c)) (col_vault c) s = (s1, vault1, candidates)"
    by (cases "store_evidence P puts (trp_Mode (col_policy c)) (col_vault c) s")
  have "tw_RequestCount (freeze_window P (col_policy c) s1) = ws_requests s"
    using store_evidence_requests [of P puts "trp_Mode (col_policy c)" "col_vault c" s] by (simp add: st freeze_window_def Let_def)
  then show ?thesis by (simp add: accounted_def current_requests_def make_ready_def Some freeze_def st)
qed (simp add: make_ready_def)

lemma maybe_requests [simp]: "ws_requests (maybeCandidate P policy now cid requestID route req dec critical incomplete s) = ws_requests s"
  by (simp add: maybeCandidate_def Let_def split: option.split sum.split prod.split)

lemma observe_requests: "ws_requests (observe_window P policy now cid requestID req dec s) = ws_requests s + 1"
  by (simp add: observe_window_def Let_def count_request_def split: prod.split)

lemma Observe_accounted:
  assumes ok: "collector_ok c" and mode: "trp_Mode (col_policy c) \<noteq> TRAFFIC_REVIEW_MODE_OFF"
  shows "accounted (Observe P puts cid now unitID assetID requestID req dec c, out) = accounted (c, out) + 1"
proof -
  define c1 where "c1 = ensureWindow P puts now unitID assetID dec c"
  obtain s where s: "col_state c1 = Some s" using ensure_window(3) [OF ok mode, of P puts now unitID assetID dec] by (auto simp: c1_def)
  have "accounted (c1, out) = accounted (c, out)"
    using make_ready_accounted [of P puts c out]
    by (simp add: c1_def ensureWindow_def Let_def accounted_def current_requests_def new_window_def)
  then show ?thesis using mode s
    by (simp add: Observe_def Let_def c1_def [symmetric] accounted_def current_requests_def observe_requests)
qed

lemma step_accounted:
  assumes "collector_ok (fst st)" "trp_Mode (col_policy (fst st)) \<noteq> TRAFFIC_REVIEW_MODE_OFF"
  shows "accounted (review_step P st e) = accounted st + observed e"
proof (cases e)
  case (ObserveEvent puts cid now unitID assetID requestID req dec)
  then show ?thesis using Observe_accounted [OF assms, of P puts cid now unitID assetID requestID req dec "snd st"]
    by (simp add: review_step_def)
next
  case (PrepareDrainEvent puts now)
  then show ?thesis using make_ready_accounted [of P puts "fst st" "snd st"]
    by (simp add: review_step_def PrepareDrain_def Let_def split: option.split)
next
  case (PrepareFlushEvent puts)
  then show ?thesis using make_ready_accounted [of P puts "fst st" "snd st"] by (simp add: review_step_def PrepareFlush_def Let_def)
qed (simp_all add: review_step_def CommitDrain_def accounted_def current_requests_def)

lemma run_accounted:
  "review_ok st \<Longrightarrow> trp_Mode (col_policy (fst st)) \<noteq> TRAFFIC_REVIEW_MODE_OFF \<Longrightarrow>
     accounted (foldl (review_step P) st es) = accounted st + sum_list (map observed es)"
proof (induction es arbitrary: st)
  case (Cons e es)
  have "collector_ok (fst st)" using Cons.prems(1) by (simp add: review_ok_def)
  moreover have "review_ok (review_step P st e)" by (rule review_step_ok [OF Cons.prems(1)])
  moreover have "col_policy (fst (review_step P st e)) = col_policy (fst st)" by (simp add: review_step_def)
  ultimately show ?case using Cons.IH [of "review_step P st e"] Cons.prems(2) step_accounted [of st P e] by simp
qed simp

lemma run_policy: "col_policy (fst (foldl (review_step P) st es)) = col_policy (fst st)"
  by (induction es arbitrary: st) (simp_all add: review_step_def)

subsection \<open>A commit removes what was handed over\<close>

definition ready :: "ReviewCollector \<Rightarrow> TrafficWindow list \<times> ReviewCandidate list" where
  "ready c = (col_readyW c, col_readyC c)"

definition same_version :: "ReviewCollector \<Rightarrow> ReviewCollector \<Rightarrow> bool" where
  "same_version c c' \<longleftrightarrow> col_readyVersion c' = col_readyVersion c \<and> (ready c' = ready c \<or> ready c' = ([], []))"

lemma make_ready_version: "col_readyVersion (make_ready P puts c) = col_readyVersion c + 1 \<or> same_version c (make_ready P puts c)"
  by (auto simp: make_ready_def same_version_def split: option.split prod.split)

lemma step_version: "col_readyVersion (collector_step P c e) = col_readyVersion c + 1 \<or> same_version c (collector_step P c e)"
proof (cases e)
  case (ObserveEvent puts cid now unitID assetID requestID req dec)
  then show ?thesis using make_ready_version [of P puts c]
    by (auto simp: Observe_def ensureWindow_def Let_def same_version_def ready_def)
next
  case (PrepareDrainEvent puts now)
  then show ?thesis using make_ready_version [of P puts c]
    by (auto simp: PrepareDrain_def Let_def same_version_def split: option.split)
next
  case (PrepareFlushEvent puts)
  then show ?thesis using make_ready_version [of P puts c] by (simp add: PrepareFlush_def Let_def)
qed (auto simp: CommitDrain_def same_version_def ready_def)

lemma run_version:
  "\<exists>k \<le> length es. col_readyVersion (foldl (collector_step P) c es) = col_readyVersion c + of_nat k \<and>
     (k = 0 \<longrightarrow> same_version c (foldl (collector_step P) c es))"
proof (induction es arbitrary: c)
  case Nil
  show ?case by (simp add: same_version_def)
next
  case (Cons e es)
  let ?c = "collector_step P c e"
  obtain k where k: "k \<le> length es" "col_readyVersion (foldl (collector_step P) ?c es) = col_readyVersion ?c + of_nat k"
    "k = 0 \<longrightarrow> same_version ?c (foldl (collector_step P) ?c es)" using Cons.IH by blast
  from step_version [of P c e] show ?case
  proof
    assume "col_readyVersion ?c = col_readyVersion c + 1"
    then show ?thesis using k by (intro exI [of _ "Suc k"]) simp
  next
    assume "same_version c ?c"
    then show ?thesis using k by (intro exI [of _ k]) (auto simp: same_version_def)
  qed
qed

lemma version_returns: "(v :: 64 word) = v + of_nat k \<Longrightarrow> k < 2 ^ 64 \<Longrightarrow> k = 0"
  by (auto simp: word_of_nat_eq_0_iff dest: dvd_imp_le)

lemma prepared_ready:
  "PrepareDrain P puts now c = ((windows, candidates, version), c1) \<or> PrepareFlush P puts c = ((windows, candidates, version), c1) \<Longrightarrow>
     ready c1 = (windows, candidates) \<and> col_readyVersion c1 = version"
  by (auto simp: PrepareDrain_def PrepareFlush_def Let_def snapshot_of_def ready_def)

text \<open>
  C24: a commit removes exactly what was handed over. If preparing a drain or a flush returned a snapshot
  with its version, then after any further calls (fewer than \<open>2 ^ 64\<close>), committing that version either changes
  nothing or finds exactly the windows and candidates of the snapshot in the collector, and leaves none.
\<close>

theorem commit_removes_only_prepared:
  assumes prepared: "PrepareDrain P puts now c = ((windows, candidates, version), c1) \<or> PrepareFlush P puts c = ((windows, candidates, version), c1)"
    and "length es < 2 ^ 64" and "c2 = foldl (collector_step P) c1 es"
  shows "CommitDrain version c2 = c2 \<or>
    (col_readyW c2 = windows \<and> col_readyC c2 = candidates \<and> CommitDrain version c2 = c2\<lparr>col_readyW := [], col_readyC := []\<rparr>)"
proof (cases "version = col_readyVersion c2")
  case True
  note p = prepared_ready [OF prepared]
  obtain k where k: "k \<le> length es" "col_readyVersion c2 = version + of_nat k" "k = 0 \<longrightarrow> same_version c1 c2"
    using run_version [of es P c1] p by (auto simp: assms(3))
  then have "same_version c1 c2" using version_returns [of version k] True assms(2) by simp
  then show ?thesis using p by (auto simp: same_version_def ready_def CommitDrain_def)
qed (simp add: CommitDrain_def)

subsection \<open>Evidence of a frozen window\<close>

definition occurred_at :: "reviewWindowState \<Rightarrow> ReviewCandidate \<Rightarrow> instant" where
  "occurred_at s c = (if timestamp_valid (ca_OccurredAt c) then ca_OccurredAt c else ws_start s)"

text \<open>The store holds the first \<open>n\<close> bytes of the candidate's document under its handle, until its expiry after \<open>until\<close>.\<close>

definition evidence_kept ::
  "'a vaultlib_scheme \<Rightarrow> (string \<times> bytes) list \<Rightarrow> nat \<Rightarrow> instant \<Rightarrow> EvidenceVault \<Rightarrow> ReviewCandidate \<Rightarrow> bool"
where
  "evidence_kept P docs n until v c \<longleftrightarrow>
     (\<exists>doc v0 nonce risk now. map_of docs (ca_CandidateId c) = Some doc \<and>
        stored_at P (seal_record P v0 (ca_EvidenceHandle c) nonce (take n doc) risk now) v \<and>
        ca_EvidenceExpiresAt c = now + ev_ttl v0 \<and> until \<le> now + ev_ttl v0 \<and> ca_EvidenceDigest c = evidence_digest P (take n doc))"

lemma PutRisk_limits:
  "ev_ttl (snd (PutRisk P io removable draws nonce evidence risk now v)) = ev_ttl v"
  "ev_maxEntry (snd (PutRisk P io removable draws nonce evidence risk now v)) = ev_maxEntry v"
proof -
  have store: "ev_ttl (snd (store_record io now r line v1)) = ev_ttl v1" "ev_maxEntry (snd (store_record io now r line v1)) = ev_maxEntry v1" for r line v1
    by (simp_all add: store_record_def Let_def)
  show "ev_ttl (snd (PutRisk P io removable draws nonce evidence risk now v)) = ev_ttl v"
    "ev_maxEntry (snd (PutRisk P io removable draws nonce evidence risk now v)) = ev_maxEntry v"
    by (cases rule: PutRisk_cases [of P io removable draws nonce evidence risk now v]; auto simp: store)+
qed

lemma put_kept:
  assumes ok: "vault_ok v" and put: "PutRisk P io removable draws nonce evidence risk now v = (Inr (h, d, e), v')"
  obtains nonce' where "stored_at P (seal_record P v h nonce' (take (ev_maxEntry v) evidence) risk now) v'" "e = now + ev_ttl v"
    "d = evidence_digest P (take (ev_maxEntry v) evidence)" "evidence \<noteq> []"
proof (cases nonce)
  case None
  then show thesis using put by (simp add: PutRisk_def split: if_split_asm option.split_asm)
next
  case (Some nonce')
  have "d = evidence_digest P (take (ev_maxEntry v) evidence) \<and> evidence \<noteq> []"
    by (cases rule: PutRisk_cases [of P io removable draws nonce evidence risk now v])
       (use put in \<open>auto simp: store_record_def Let_def split: if_split_asm\<close>)
  then show thesis using that put_stored [OF ok put [unfolded Some]] by blast
qed

lemma kept_after_put:
  assumes "vault_ok v" "evidence_kept P docs n until v c" "now < until"
  shows "evidence_kept P docs n until (snd (PutRisk P io removable draws nonce evidence risk now v)) c"
proof -
  from assms(2) obtain doc v0 nonce0 risk0 now0 where
    k: "map_of docs (ca_CandidateId c) = Some doc" "stored_at P (seal_record P v0 (ca_EvidenceHandle c) nonce0 (take n doc) risk0 now0) v"
      "ca_EvidenceExpiresAt c = now0 + ev_ttl v0" "until \<le> now0 + ev_ttl v0" "ca_EvidenceDigest c = evidence_digest P (take n doc)"
    unfolding evidence_kept_def by blast
  let ?r = "seal_record P v0 (ca_EvidenceHandle c) nonce0 (take n doc) risk0 now0"
  have "vr_ExpiresAt ?r = now0 + ev_ttl v0" by (simp add: seal_record_def Let_def)
  then have "stored_at P ?r (vault_step P v (PutEvent io removable draws nonce evidence risk now))"
    using assms(3) k(4) by (intro step_keeps [OF assms(1) k(2)]) simp
  then show ?thesis using k unfolding evidence_kept_def vault_step.simps by blast
qed

text \<open>What holds while the candidates of a window are stored one after the other.\<close>

definition storing_ok ::
  "'a reviewlib_scheme \<Rightarrow> reviewWindowState \<Rightarrow> EvidenceVault \<Rightarrow> reviewWindowState \<times> EvidenceVault \<times> ReviewCandidate list \<Rightarrow> bool"
where
  "storing_ok P s0 v0 acc \<longleftrightarrow> (case acc of (s, v, selected) \<Rightarrow> ws_evidence s = ws_evidence s0 \<and> ws_start s = ws_start s0 \<and> vault_ok v \<and>
     ev_ttl v = ev_ttl v0 \<and> ev_maxEntry v = ev_maxEntry v0 \<and>
     (\<forall>c \<in> set selected. evidence_kept P (ws_evidence s0) (ev_maxEntry v0) (ws_start s0 + TrafficReviewWindow) v c))"

lemma store_candidate_storing:
  assumes acc: "storing_ok P s0 v0 acc" and ttl: "TrafficReviewWindow \<le> ev_ttl v0"
    and time: "ws_start s0 \<le> ca_OccurredAt c" "ca_OccurredAt c < ws_start s0 + TrafficReviewWindow"
  shows "storing_ok P s0 v0 (store_candidate P puts acc (i, c))"
proof -
  obtain s v selected where a: "acc = (s, v, selected)" by (cases acc)
  define raw where "raw = (case map_of (ws_evidence s) (ca_CandidateId c) of None \<Rightarrow> [] | Some b \<Rightarrow> b)"
  define now where "now = occurred_at s c"
  define out where "out = PutRisk P (pe_io (puts i)) (pe_removable (puts i)) (pe_draws (puts i)) (pe_nonce (puts i)) raw (ca_RiskScore c) now v"
  have ok: "vault_ok v" "ws_evidence s = ws_evidence s0" "ws_start s = ws_start s0" "ev_ttl v = ev_ttl v0" "ev_maxEntry v = ev_maxEntry v0"
    using acc by (simp_all add: a storing_ok_def)
  have pos: "TrafficReviewWindow > 0" by (simp add: TrafficReviewWindow_def Minute_def Second_def Millisecond_def)
  have now: "ws_start s0 \<le> now" "now < ws_start s0 + TrafficReviewWindow" using time ok pos by (auto simp: now_def occurred_at_def)
  have "vault_ok (vault_step P v (PutEvent (pe_io (puts i)) (pe_removable (puts i)) (pe_draws (puts i)) (pe_nonce (puts i)) raw (ca_RiskScore c) now))"
    by (rule vault_machine.step_invar [OF ok(1)])
  then have v': "vault_ok (snd out)" "ev_ttl (snd out) = ev_ttl v0" "ev_maxEntry (snd out) = ev_maxEntry v0"
    using ok by (simp_all add: out_def PutRisk_limits)
  have kept: "evidence_kept P (ws_evidence s0) (ev_maxEntry v0) (ws_start s0 + TrafficReviewWindow) (snd out) d" if "d \<in> set selected" for d
    using acc that now(2) unfolding out_def by (intro kept_after_put [OF ok(1)]) (simp_all add: a storing_ok_def)
  have step: "store_candidate P puts acc (i, c) = (case out of
       (Inl e, vault) \<Rightarrow> (recordEvidenceDrop (drop_reason e) s, vault, selected)
     | (Inr (handle, digest, expires), vault) \<Rightarrow>
         (s, vault, selected @ [c\<lparr>ca_EvidenceHandle := handle, ca_EvidenceDigest := digest, ca_EvidenceExpiresAt := expires\<rparr>]))"
    by (simp add: store_candidate_def a Let_def out_def raw_def now_def occurred_at_def)
  show ?thesis
  proof (cases "fst out")
    case (Inl e)
    then have put: "out = (Inl e, snd out)" by (simp add: prod_eq_iff)
    have "store_candidate P puts acc (i, c) = (recordEvidenceDrop (drop_reason e) s, snd out, selected)" unfolding step by (subst put) simp
    then show ?thesis using ok v' kept by (simp add: storing_ok_def)
  next
    case (Inr x)
    obtain h d e where "x = (h, d, e)" by (cases x)
    then have put: "out = (Inr (h, d, e), snd out)" using Inr by (simp add: prod_eq_iff)
    have put': "PutRisk P (pe_io (puts i)) (pe_removable (puts i)) (pe_draws (puts i)) (pe_nonce (puts i)) raw (ca_RiskScore c) now v = (Inr (h, d, e), snd out)"
      by (fold out_def) (rule put)
    let ?c = "c\<lparr>ca_EvidenceHandle := h, ca_EvidenceDigest := d, ca_EvidenceExpiresAt := e\<rparr>"
    obtain nonce where n: "stored_at P (seal_record P v h nonce (take (ev_maxEntry v) raw) (ca_RiskScore c) now) (snd out)" "e = now + ev_ttl v"
      "d = evidence_digest P (take (ev_maxEntry v) raw)" "raw \<noteq> []"
      by (rule put_kept [OF ok(1) put'])
    have doc: "map_of (ws_evidence s0) (ca_CandidateId c) = Some raw" using n(4) ok(2) by (simp add: raw_def split: option.split_asm)
    have "evidence_kept P (ws_evidence s0) (ev_maxEntry v0) (ws_start s0 + TrafficReviewWindow) (snd out) ?c"
      unfolding evidence_kept_def
      by (rule exI [of _ raw], rule exI [of _ v], rule exI [of _ nonce], rule exI [of _ "ca_RiskScore c"], rule exI [of _ now])
         (use n doc now(1) ttl ok in simp)
    moreover have "store_candidate P puts acc (i, c) = (s, snd out, selected @ [?c])" unfolding step by (subst put) simp
    ultimately show ?thesis using ok v' kept by (auto simp: storing_ok_def)
  qed
qed

lemma store_all_storing:
  assumes "storing_ok P s0 v0 acc" and ttl: "TrafficReviewWindow \<le> ev_ttl v0"
    and "\<forall>ic \<in> set xs. ws_start s0 \<le> ca_OccurredAt (snd ic) \<and> ca_OccurredAt (snd ic) < ws_start s0 + TrafficReviewWindow"
  shows "storing_ok P s0 v0 (foldl (store_candidate P puts) acc xs)"
  using assms(1,3)
proof (induction xs arbitrary: acc)
  case (Cons ic xs)
  obtain i c where ic: "ic = (i, c)" by (cases ic)
  have "storing_ok P s0 v0 (store_candidate P puts acc ic)"
    unfolding ic by (rule store_candidate_storing [OF Cons.prems(1) ttl]) (use Cons.prems(2) in \<open>simp_all add: ic\<close>)
  then show ?case using Cons by simp
qed simp

lemma freeze_kept:
  assumes w: "window_ok policy s" and v: "vault_ok v" and ttl: "TrafficReviewWindow \<le> ev_ttl v"
    and mode: "trp_Mode policy \<ge> TRAFFIC_REVIEW_MODE_EVIDENCE_ON_APPROVAL" and fr: "freeze P puts policy (Some v) s = (w, candidates, Some v')"
  shows "vault_ok v'" "\<forall>c \<in> set candidates. evidence_kept P (ws_evidence s) (ev_maxEntry v) (ws_start s + TrafficReviewWindow) v' c"
proof -
  define acc where "acc = foldl (store_candidate P puts) (s, v, []) (enumerate 0 (ws_candidates s))"
  have "storing_ok P s v acc" unfolding acc_def
  proof (rule store_all_storing [OF _ ttl])
    show "storing_ok P s v (s, v, [])" using v by (simp add: storing_ok_def)
    show "\<forall>ic \<in> set (enumerate 0 (ws_candidates s)). ws_start s \<le> ca_OccurredAt (snd ic) \<and> ca_OccurredAt (snd ic) < ws_start s + TrafficReviewWindow"
      using w by (auto simp: window_ok_def candidates_ok_def in_set_enumerate_eq)
  qed
  moreover have "candidates = snd (snd acc)" "v' = fst (snd acc)"
    using fr mode by (auto simp: freeze_def store_evidence_def acc_def split: prod.split_asm)
  ultimately show "vault_ok v'" "\<forall>c \<in> set candidates. evidence_kept P (ws_evidence s) (ev_maxEntry v) (ws_start s + TrafficReviewWindow) v' c"
    by (auto simp: storing_ok_def split: prod.split_asm)
qed

text \<open>
  C12: the evidence of a handed-over candidate can be read. Take any history of a collector whose mode keeps
  evidence, and any history of the store it uses, whose records live at least as long as a window. If the
  current window is frozen, whichever disk accesses fail meanwhile, then for every candidate that is
  handed over, after any later calls made before its expiry, reading its handle gives the document
  collected for it, cut to the store's entry limit and within the policy's limit, with the digest
  the candidate carries.
\<close>

theorem review_evidence_readable:
  assumes "cipher_faithful P" and new: "NewReviewCollector (Some policy) digest vault = Inr c0"
    and "c1 = fst (foldl (review_step P) (c0, []) es)" and state: "col_state c1 = Some s"
    and v: "v = foldl (vault_step P) (empty_vault dir) before" and ttl: "TrafficReviewWindow \<le> ev_ttl v"
    and mode: "trp_Mode policy \<ge> TRAFFIC_REVIEW_MODE_EVIDENCE_ON_APPROVAL" and fr: "freeze P puts policy (Some v) s = (w, candidates, Some v')"
    and c: "c \<in> set candidates" and json: "\<forall>r. stored_at P r v' \<longrightarrow> json_faithful P r"
    and later: "\<forall>ev \<in> set later. \<forall>t. event_time ev = Some t \<longrightarrow> t < ca_EvidenceExpiresAt c" and t: "t < ca_EvidenceExpiresAt c"
  shows "\<exists>doc. map_of (ws_evidence s) (ca_CandidateId c) = Some doc \<and> int (length doc) \<le> trp_MaxEvidenceBytes policy \<and>
     fst (Get P removable (ca_EvidenceHandle c) t (foldl (vault_step P) v' later)) = Inr (take (ev_maxEntry v) doc, ca_EvidenceDigest c, True)"
proof -
  have "review_ok (foldl (review_step P) (c0, []) es)" by (rule review_machine.run_invar) (use new_collector_ok [OF new] in simp)
  moreover have "col_policy c1 = policy" using run_policy [of P "(c0, [])" es] new_collector_ok [OF new] by (simp add: assms(3))
  ultimately have w: "window_ok policy s" using state by (simp add: review_ok_def collector_ok_def assms(3))
  have "vault_ok v" unfolding v by (rule vault_history_ok)
  note kept = freeze_kept [OF w this ttl mode fr]
  from kept(2) c obtain doc v0 nonce risk now where
    k: "map_of (ws_evidence s) (ca_CandidateId c) = Some doc"
      "stored_at P (seal_record P v0 (ca_EvidenceHandle c) nonce (take (ev_maxEntry v) doc) risk now) v'"
      "ca_EvidenceExpiresAt c = now + ev_ttl v0" "ca_EvidenceDigest c = evidence_digest P (take (ev_maxEntry v) doc)"
    unfolding evidence_kept_def by blast
  define r where "r = seal_record P v0 (ca_EvidenceHandle c) nonce (take (ev_maxEntry v) doc) risk now"
  have e: "vr_ExpiresAt r = ca_EvidenceExpiresAt c" by (simp add: r_def seal_record_def Let_def k(3))
  have "stored_at P r (foldl (vault_step P) v' later)"
    by (rule run_keeps [OF kept(1)]) (use k(2) later e in \<open>simp_all add: r_def\<close>)
  moreover have "json_faithful P r" using json k(2) by (simp add: r_def)
  ultimately have "Get P removable (ca_EvidenceHandle c) t (foldl (vault_step P) v' later) =
      (Inr (take (ev_maxEntry v) doc, evidence_digest P (take (ev_maxEntry v) doc), True), foldl (vault_step P) v' later)"
    using Get_stored [OF assms(1) _ r_def] t e by simp
  moreover have "int (length doc) \<le> trp_MaxEvidenceBytes policy"
    using w map_of_SomeD [OF k(1)] by (auto simp: window_ok_def evidence_ok_def)
  ultimately show ?thesis using k by simp
qed

subsection \<open>A small history\<close>

definition demo_reviewlib :: reviewlib where
  "demo_reviewlib = vaultlib.extend demo_vaultlib
     \<lparr>parse_media_type = (\<lambda>_. None), marshal_document = (\<lambda>d. Some ''x''), rfc3339_nano = (\<lambda>_. [])\<rparr>"

definition demo_review_policy :: TrafficReviewPolicy where
  "demo_review_policy = DefaultTrafficReviewPolicy\<lparr>trp_Mode := TRAFFIC_REVIEW_MODE_EVIDENCE_ON_APPROVAL\<rparr>"

definition demo_collector :: ReviewCollector where
  "demo_collector = \<lparr>col_policy = demo_review_policy, col_digest = ''d'', col_vault = None, col_state = None, col_readyW = [], col_readyC = [],
     col_readyVersion = 0\<rparr>"

lemma demo_new: "NewReviewCollector (Some demo_review_policy) ''d'' None = Inr demo_collector"
  by (simp add: NewReviewCollector_def ValidateTrafficReviewPolicy_def demo_review_policy_def demo_collector_def DefaultTrafficReviewPolicy_def
      TRAFFIC_REVIEW_MODE_EVIDENCE_ON_APPROVAL_def TRAFFIC_REVIEW_MODE_OFF_def TRAFFIC_REVIEW_MODE_SHADOW_CANDIDATES_def
      TrafficReviewWindow_def TrafficReviewTopRoutes_def TrafficReviewCandidatesPerWindow_def TrafficReviewEvidenceBytes_def
      TrafficReviewVaultBytes_def TrafficReviewEvidenceTTL_def Minute_def Second_def Millisecond_def Hour_def)

definition demo_review_request :: Request where
  "demo_review_request = \<lparr>req_AssetID = ''a'', req_UnitID = ''u'', req_Method = ''GET'', req_Path = ''/'', req_Query = [], req_Headers = [],
     req_Body = [], req_ClientAddress = None\<rparr>"

definition demo_blocked :: Decision where
  "demo_blocked = \<lparr>dec_Action = ActionBlock, dec_WouldHaveBlocked = False, dec_Verdicts = [], dec_Observations = [], dec_Detections = [],
     dec_Inspection = \<lparr>insp_Detections = [], insp_Coverage = [], insp_Rejected = False\<rparr>, dec_Posture = INGRESS_POSTURE_REVERSE_PROXY,
     dec_GenerationID = ''g'', dec_GenerationSeq = 1\<rparr>"

definition demo_puts :: "nat \<Rightarrow> put_env" where
  "demo_puts i = \<lparr>pe_io = PutWorks, pe_removable = (\<lambda>_. True), pe_draws = [[CHR 0x07]], pe_nonce = Some ''n''\<rparr>"

definition demo_observe :: review_event where
  "demo_observe = ObserveEvent demo_puts ''c1'' 0 ''u'' ''a'' ''r'' demo_review_request demo_blocked"

lemma demo_reviewlib_simps [simp]:
  "sha256 demo_reviewlib raw = []" "aead_seal demo_reviewlib nonce raw aad = raw" "aead_open demo_reviewlib nonce c aad = Some c"
  "b64_encode demo_reviewlib b = CHR ''b'' # b" "b64_decode demo_reviewlib s = (case s of [] \<Rightarrow> None | c # b \<Rightarrow> Some b)"
  "marshal_vault demo_reviewlib r = ''r''" "unmarshal_vault demo_reviewlib b = unmarshal_vault demo_vaultlib b"
  "marshal_document demo_reviewlib d = Some ''x''" "rfc3339_nano demo_reviewlib t = []" "parse_media_type demo_reviewlib m = None"
  by (simp_all add: demo_reviewlib_def vaultlib.extend_def demo_vaultlib_def golib.extend_def)

definition demo_window :: reviewWindowState where
  "demo_window = observe_window demo_reviewlib demo_review_policy 0 ''c1'' ''r'' demo_review_request demo_blocked
     (new_window 0 TrafficReviewWindow ''u'' ''a'' demo_blocked ''d'')"

lemma demo_limits:
  "trp_WindowSeconds demo_review_policy * Second = TrafficReviewWindow" "trp_Mode demo_review_policy = 4" "trp_TopRouteCells demo_review_policy = 32"
  "trp_MaxCandidatesPerWindow demo_review_policy = 4" "trp_MaxEvidenceBytes demo_review_policy = 8192" "TrafficReviewWindow = 300000000000"
  by (simp_all add: demo_review_policy_def DefaultTrafficReviewPolicy_def TrafficReviewWindow_def TrafficReviewTopRoutes_def
      TrafficReviewCandidatesPerWindow_def TrafficReviewEvidenceBytes_def TRAFFIC_REVIEW_MODE_EVIDENCE_ON_APPROVAL_def Minute_def Second_def Millisecond_def)

lemma demo_state: "col_state (fst (foldl (review_step demo_reviewlib) (demo_collector, []) [demo_observe])) = Some demo_window"
proof -
  have "truncate_time 0 TrafficReviewWindow = 0" by (simp add: truncate_time_def demo_limits Second_def Millisecond_def)
  then show ?thesis
    by (simp add: review_step_def demo_observe_def Observe_def ensureWindow_def make_ready_def demo_collector_def demo_window_def Let_def demo_limits
        TRAFFIC_REVIEW_MODE_OFF_def)
qed

definition demo_candidate :: ReviewCandidate where
  "demo_candidate = new_candidate demo_reviewlib demo_review_policy 0 ''c1'' ''r'' ''/'' demo_review_request demo_blocked 70 [''blocked'']
     (new_window 0 TrafficReviewWindow ''u'' ''a'' demo_blocked ''d'')"

lemma demo_window_fields:
  "ws_start demo_window = 0" "ws_candidates demo_window = [demo_candidate]" "ws_evidence demo_window = [(''c1'', ''x'')]"
proof -
  have flags: "reviewFlags demo_blocked = (True, False)" by (simp add: reviewFlags_def demo_blocked_def)
  have risk: "reviewRisk demo_blocked True False = (70, [''blocked''])" by (simp add: reviewRisk_def demo_blocked_def)
  have route: "TrafficRouteTemplate (req_Path demo_review_request) = ''/''" by (simp add: TrafficRouteTemplate_def demo_review_request_def)
  have doc: "marshalBoundedEvidence demo_reviewlib d 8192 = Inr ''x''" for d by (simp add: marshalBoundedEvidence_def marshal_loop.simps [of demo_reviewlib])
  have new: "new_candidate demo_reviewlib demo_review_policy 0 ''c1'' ''r'' ''/'' demo_review_request demo_blocked 70 [''blocked'']
      (count_route n key m (count_request a b demo_blocked (new_window 0 TrafficReviewWindow ''u'' ''a'' demo_blocked ''d''))) = demo_candidate" for n key m a b
    by (simp add: new_candidate_def demo_candidate_def reviewWindowID_def)
  have fresh: "ws_candidates (new_window 0 w u i dec digest) = []" "ws_evidence (new_window 0 w u i dec digest) = []" "ws_start (new_window 0 w u i dec digest) = 0"
    for w u i dec digest by (simp_all add: new_window_def)
  have m: "\<not> trp_Mode demo_review_policy < TRAFFIC_REVIEW_MODE_REDACTED_CASES" "\<not> trp_Mode demo_review_policy < TRAFFIC_REVIEW_MODE_EVIDENCE_ON_APPROVAL"
    by (simp_all add: demo_limits TRAFFIC_REVIEW_MODE_REDACTED_CASES_def TRAFFIC_REVIEW_MODE_EVIDENCE_ON_APPROVAL_def)
  show "ws_start demo_window = 0" "ws_candidates demo_window = [demo_candidate]" "ws_evidence demo_window = [(''c1'', ''x'')]"
    unfolding demo_window_def observe_window_def flags route Let_def prod.case maybeCandidate_def risk new
    by (simp_all add: m doc [folded demo_limits(5)] demo_limits(4) fresh hasReviewBaseline_def hasReviewCandidateKey_def reviewCandidateSlot_def place_candidate_def)
qed

definition demo_stored :: EvidenceVault where
  "demo_stored = snd (PutRisk demo_reviewlib PutWorks (\<lambda>_. True) [[CHR 0x07]] (Some ''n'') ''x'' 70 0 (empty_vault ''d''))"

lemma demo_stored_result:
  "PutRisk demo_reviewlib PutWorks (\<lambda>_. True) [[CHR 0x07]] (Some ''n'') ''x'' 70 0 (empty_vault ''d'') =
     (Inr (''evh-07'', ''sha256:'', 86400000000000), demo_stored)"
  "map_of (ev_index demo_stored) h = Some loc \<Longrightarrow> vl_record loc = seal_record demo_reviewlib (empty_vault ''d'') ''evh-07'' ''n'' ''x'' 70 0"
  by (auto simp: demo_stored_def prod_eq_iff PutRisk_def empty_vault_def seal_record_def store_record_def Let_def high_water_def go_div_def
      newline_def evidence_digest_def split: if_split_asm)

lemma demo_freeze:
  "\<exists>w. freeze demo_reviewlib demo_puts demo_review_policy (Some (empty_vault ''d'')) demo_window =
     (w, [demo_candidate\<lparr>ca_EvidenceHandle := ''evh-07'', ca_EvidenceDigest := ''sha256:'', ca_EvidenceExpiresAt := 86400000000000\<rparr>], Some demo_stored)"
proof -
  have c: "ca_RiskScore demo_candidate = 70" "ca_OccurredAt demo_candidate = 0" "ca_CandidateId demo_candidate = ''c1''"
    by (simp_all add: demo_candidate_def new_candidate_def)
  have "timestamp_valid 0" by (simp add: timestamp_valid_def Second_def Millisecond_def)
  then have "store_candidate demo_reviewlib demo_puts (demo_window, empty_vault ''d'', []) (0, demo_candidate) =
     (demo_window, demo_stored, [demo_candidate\<lparr>ca_EvidenceHandle := ''evh-07'', ca_EvidenceDigest := ''sha256:'', ca_EvidenceExpiresAt := 86400000000000\<rparr>])"
    by (simp add: store_candidate_def demo_window_fields c demo_puts_def demo_stored_result)
  then show ?thesis
    by (simp add: freeze_def store_evidence_def demo_limits TRAFFIC_REVIEW_MODE_EVIDENCE_ON_APPROVAL_def demo_window_fields(2))
qed

theorem review_evidence_readable_witness:
  "fst (Get demo_reviewlib (\<lambda>_. True) ''evh-07'' 2 (foldl (vault_step demo_reviewlib) demo_stored [GcEvent (\<lambda>_. True) 1])) = Inr (''x'', ''sha256:'', True)"
proof -
  let ?c = "demo_candidate\<lparr>ca_EvidenceHandle := ''evh-07'', ca_EvidenceDigest := ''sha256:'', ca_EvidenceExpiresAt := 86400000000000\<rparr>"
  obtain w where fr: "freeze demo_reviewlib demo_puts demo_review_policy (Some (empty_vault ''d'')) demo_window = (w, [?c], Some demo_stored)"
    using demo_freeze by blast
  have "seal_record demo_reviewlib (empty_vault ''d'') ''evh-07'' ''n'' ''x'' 70 0 = seal_record demo_vaultlib (empty_vault ''d'') ''evh-07'' ''n'' ''x'' 70 0"
    by (simp add: seal_record_def Let_def evidence_digest_def)
  then have json: "\<forall>r. stored_at demo_reviewlib r demo_stored \<longrightarrow> json_faithful demo_reviewlib r"
    using demo_stored_result(2) by (auto simp: stored_at_def json_faithful_def demo_record)
  have cipher: "cipher_faithful demo_reviewlib" by (simp add: cipher_faithful_def)
  have ttl: "TrafficReviewWindow \<le> ev_ttl (empty_vault ''d'')" by (simp add: empty_vault_def demo_limits)
  have id: "ca_CandidateId ?c = ''c1''" by (simp add: demo_candidate_def new_candidate_def)
  have doc: "map_of (ws_evidence demo_window) ''c1'' = Some ''x''" by (simp add: demo_window_fields)
  have max: "take (ev_maxEntry (empty_vault ''d'')) ''x'' = ''x''" by (simp add: empty_vault_def)
  have "\<exists>doc. map_of (ws_evidence demo_window) (ca_CandidateId ?c) = Some doc \<and> int (length doc) \<le> trp_MaxEvidenceBytes demo_review_policy \<and>
     fst (Get demo_reviewlib (\<lambda>_. True) (ca_EvidenceHandle ?c) 2 (foldl (vault_step demo_reviewlib) demo_stored [GcEvent (\<lambda>_. True) 1])) =
       Inr (take (ev_maxEntry (empty_vault ''d'')) doc, ca_EvidenceDigest ?c, True)"
    by (rule review_evidence_readable [OF cipher demo_new refl demo_state _ ttl _ fr _ json, where before = "[]" and dir = "''d''"])
       (simp_all add: demo_limits TRAFFIC_REVIEW_MODE_EVIDENCE_ON_APPROVAL_def)
  then show ?thesis unfolding id doc using max by simp
qed

text \<open>
  C23: every window is well formed. After any history, the window being counted, every window waiting and every
  window already handed over has at most the policy's number of cells, one per route; its cells and
  remainder add up to its totals of requests, of critical, of blocked and of incompletely inspected
  ones; in each of them the blocked and the incomplete are critical and the critical are requests; the
  drops add up by reason. The current window keeps at most the policy's number of
  candidates, at most one of them a baseline, no two of the same kind, and documents within the limit
  only for them.
\<close>

theorem review_windows_well_formed:
  assumes "NewReviewCollector (Some policy) digest vault = Inr c0" and "st = foldl (review_step P) (c0, []) es"
  shows "list_all (traffic_window_ok policy) (snd st @ col_readyW (fst st)) \<and> (\<forall>s. col_state (fst st) = Some s \<longrightarrow> window_ok policy s)"
proof -
  note new = new_collector_ok [OF assms(1)]
  have "review_ok st" unfolding assms(2) by (rule review_machine.run_invar) (use new in simp)
  moreover have "col_policy (fst st) = policy" unfolding assms(2) using run_policy [of P "(c0, [])" es] new by simp
  ultimately show ?thesis by (simp add: review_ok_def collector_ok_def)
qed

theorem review_windows_well_formed_witness: "window_ok demo_review_policy demo_window"
  using review_windows_well_formed [OF demo_new refl, of demo_reviewlib "[demo_observe]"] demo_state by blast

text \<open>
  C18: no request is lost and none is counted twice. After any history of a collector that is switched on, the
  requests of the windows handed over, of those waiting and of the current one are as many as
  were observed.
\<close>

theorem review_requests_conserved:
  assumes "NewReviewCollector (Some policy) digest vault = Inr c0" and "trp_Mode policy \<noteq> TRAFFIC_REVIEW_MODE_OFF"
    and "st = foldl (review_step P) (c0, []) es"
  shows "sum_list (map tw_RequestCount (snd st @ col_readyW (fst st))) + current_requests (fst st) = sum_list (map observed es)"
proof -
  note new = new_collector_ok [OF assms(1)]
  have "accounted st = accounted (c0, []) + sum_list (map observed es)" unfolding assms(3)
    by (rule run_accounted) (use new assms(2) in simp_all)
  moreover have "accounted (c0, []) = 0" using new by (simp add: accounted_def current_requests_def)
  ultimately show ?thesis by (simp add: accounted_def)
qed

theorem review_requests_conserved_witness:
  "current_requests (fst (foldl (review_step demo_reviewlib) (demo_collector, []) [demo_observe])) \<le> 1"
  using review_requests_conserved [OF demo_new _ refl, of demo_reviewlib "[demo_observe]"]
  by (simp add: demo_limits TRAFFIC_REVIEW_MODE_OFF_def demo_observe_def)

theorem commit_removes_only_prepared_witness:
  "\<exists>windows candidates version c1. PrepareFlush demo_reviewlib demo_puts (fst (foldl (review_step demo_reviewlib) (demo_collector, []) [demo_observe])) =
     ((windows, candidates, version), c1) \<and> (CommitDrain version (collector_step demo_reviewlib c1 demo_observe) = collector_step demo_reviewlib c1 demo_observe \<or>
       col_readyW (collector_step demo_reviewlib c1 demo_observe) = windows)"
proof -
  let ?c = "fst (foldl (review_step demo_reviewlib) (demo_collector, []) [demo_observe])"
  obtain windows candidates version c1 where p: "PrepareFlush demo_reviewlib demo_puts ?c = ((windows, candidates, version), c1)"
    by (cases "PrepareFlush demo_reviewlib demo_puts ?c") auto
  from commit_removes_only_prepared [OF disjI2 [OF p], of "[demo_observe]"] p show ?thesis by auto
qed

text \<open>
  C29: bounding evidence ends and keeps its promise. Whatever the document, the loop returns; a result fits the
  limit and encodes a part of the document: some of its first fields, each whole or without its
  value, and initial parts of the route and the method. If the encoder never fails and the bare envelope fits
  then there is a result.
\<close>

theorem bounded_evidence_returns:
  "(\<forall>raw. marshalBoundedEvidence P d limit = Inr raw \<longrightarrow>
      int (length raw) \<le> limit \<and> (\<exists>d'. marshal_document P d' = Some raw \<and> reduced d' d)) \<and>
   (0 < limit \<and> (\<forall>d'. marshal_document P d' \<noteq> None) \<and> int (length (the (marshal_document P (bare d)))) \<le> limit \<longrightarrow>
      (\<exists>raw. marshalBoundedEvidence P d limit = Inr raw))"
proof (intro conjI impI allI)
  fix raw assume "marshalBoundedEvidence P d limit = Inr raw"
  then have "marshal_loop P (nat limit) d = Inr raw" "0 < limit" by (simp_all add: marshalBoundedEvidence_def split: if_split_asm)
  from this(2) marshal_loop_sound [OF this(1) reduced_refl]
  show "int (length raw) \<le> limit" "\<exists>d'. marshal_document P d' = Some raw \<and> reduced d' d" by auto
next
  assume "0 < limit \<and> (\<forall>d'. marshal_document P d' \<noteq> None) \<and> int (length (the (marshal_document P (bare d)))) \<le> limit"
  then have "0 < limit" "\<And>d'. marshal_document P d' \<noteq> None" "length (the (marshal_document P (bare d))) \<le> nat limit" by auto
  from marshal_loop_returns [OF this(2,3)] this(1) show "\<exists>raw. marshalBoundedEvidence P d limit = Inr raw"
    by (simp add: marshalBoundedEvidence_def)
qed

theorem bounded_evidence_returns_witness:
  "\<exists>raw. marshalBoundedEvidence demo_reviewlib \<lparr>td_Method = ''GET'', td_RouteTemplate = ''/'', td_ContentType = [], td_ContentLength = 0, td_Fields = []\<rparr> 1 = Inr raw"
  using bounded_evidence_returns [of demo_reviewlib
      "\<lparr>td_Method = ''GET'', td_RouteTemplate = ''/'', td_ContentType = [], td_ContentLength = 0, td_Fields = []\<rparr>" 1] by simp

end
