(* ===== verification/Replay.thy ===== *)
theory Replay
  imports Release Release_Set_Laws
begin

text \<open>
  The replay before a release (\<^verbatim>\<open>src/lib/replay/replay.go\<close>, \<^verbatim>\<open>policy.go\<close>, \<^verbatim>\<open>shape.go\<close>): a corpus of labelled requests runs
  through the same detectors, policies and shapes as the edge, and the report is what the release
  life cycle judges. The Coraza detector a policy replay opens is a parameter: it may fail to open and
  to close. \<open>ctx i\<close> is the error of the context when it is asked at sample \<open>i\<close>. Counters are \<open>int32\<close> in the
  message and stay below the size of a corpus.
\<close>

subsection \<open>Corpus and report\<close>

record Case =
  case_ID :: string
  case_Label :: string
  case_Request :: Request

definition LabelMalicious :: string where "LabelMalicious = ''malicious''"
definition LabelBenign :: string where "LabelBenign = ''benign''"
definition LabelManagement :: string where "LabelManagement = ''management''"

definition corpus_request :: "string \<Rightarrow> string \<Rightarrow> string \<Rightarrow> string \<Rightarrow> Request" where
  "corpus_request assetID method path query =
     \<lparr>req_AssetID = assetID, req_UnitID = [], req_Method = method, req_Path = path, req_Query = query, req_Headers = [], req_Body = [],
      req_ClientAddress = None\<rparr>"

definition BuiltinCorpus :: "string \<Rightarrow> Case list" where
  "BuiltinCorpus assetID =
     [\<lparr>case_ID = ''malicious:sql'', case_Label = LabelMalicious, case_Request = corpus_request assetID ''GET'' ''/api/items'' ''id=1+UNION+SELECT+password''\<rparr>,
      \<lparr>case_ID = ''malicious:xss'', case_Label = LabelMalicious, case_Request = corpus_request assetID ''POST'' ''/api/items'' ''q=<script>alert(1)</script>''\<rparr>,
      \<lparr>case_ID = ''malicious:traversal'', case_Label = LabelMalicious, case_Request = corpus_request assetID ''GET'' ''/download/../../etc/passwd'' []\<rparr>,
      \<lparr>case_ID = ''benign:page'', case_Label = LabelBenign, case_Request = corpus_request assetID ''GET'' ''/api/items'' ''page=2''\<rparr>,
      \<lparr>case_ID = ''benign:health'', case_Label = LabelBenign, case_Request = corpus_request assetID ''GET'' ''/healthz'' []\<rparr>,
      \<lparr>case_ID = ''management:livez'', case_Label = LabelManagement, case_Request = corpus_request assetID ''GET'' ''/livez'' []\<rparr>,
      \<lparr>case_ID = ''management:readyz'', case_Label = LabelManagement, case_Request = corpus_request assetID ''GET'' ''/readyz'' []\<rparr>,
      \<lparr>case_ID = ''management:metrics'', case_Label = LabelManagement, case_Request = corpus_request assetID ''GET'' ''/metrics'' []\<rparr>]"

definition empty_report :: "string \<Rightarrow> replay_report" where
  "empty_report ref = \<lparr>malicious_total = 0, malicious_blocked = 0, benign_total = 0, benign_blocked = 0, report_passed = False,
     corpus_ref = ref, management_total = 0, management_blocked = 0\<rparr>"

definition account :: "replay_report \<Rightarrow> Case \<Rightarrow> bool \<Rightarrow> replay_report" where
  "account r c blocked =
     (if case_Label c = LabelMalicious then
        r\<lparr>malicious_total := malicious_total r + 1, malicious_blocked := malicious_blocked r + of_bool blocked\<rparr>
      else if case_Label c = LabelBenign then
        r\<lparr>benign_total := benign_total r + 1, benign_blocked := benign_blocked r + of_bool blocked\<rparr>
      else if case_Label c = LabelManagement then
        r\<lparr>management_total := management_total r + 1, management_blocked := management_blocked r + of_bool blocked\<rparr>
      else r)"

definition judged :: "replay_report \<Rightarrow> replay_report" where
  "judged r = r\<lparr>report_passed := GatePassed r\<rparr>"

datatype replay_error =
    ArtifactRequired | SchemaUnsupported | SchemaRequired string | RulesUnreadable | RulesInvalid rule_error
  | DetectorFailed string | UnknownLabel string string | PolicyUnreadable | PolicyWithoutKeys | CorazaFailed string
  | InspectFailed string | ShapeUnreadable | ShapeRejected shape_error | ContextError string | CloseFailed string

subsection \<open>Rules\<close>

fun replay_rules :: "'a golib_scheme \<Rightarrow> detector \<Rightarrow> Case list \<Rightarrow> replay_report \<Rightarrow> replay_error + replay_report" where
  "replay_rules L d [] r = Inr r"
| "replay_rules L d (c # cs) r =
     (case detector_Evaluate L d (case_Request c) of
        (v, Some e) \<Rightarrow> Inl (DetectorFailed (case_ID c))
      | (v, None) \<Rightarrow>
          if case_Label c \<notin> {LabelMalicious, LabelBenign, LabelManagement} then Inl (UnknownLabel (case_ID c) (case_Label c))
          else replay_rules L d cs (account r c (ver_Action v = ActionBlock)))"

definition RunRules :: "payloadlib \<Rightarrow> artifact \<Rightarrow> Case list \<Rightarrow> replay_error + replay_report" where
  "RunRules P a corpus =
     (case decode_rules P (art_payload a) of
        None \<Rightarrow> Inl RulesUnreadable
      | Some rules \<Rightarrow>
          (case NewRuleDetector P (art_id a) rules of
             Inl e \<Rightarrow> Inl (RulesInvalid e)
           | Inr base \<Rightarrow>
               (let d = (case art_scope a of
                           None \<Rightarrow> RuleBased base
                         | Some sc \<Rightarrow> if scope_route_selector sc \<noteq> [] then NewScoped (RuleBased base) (scope_route_selector sc) else RuleBased base) in
                case replay_rules P d corpus (empty_report ''builtin:l1-rules-v1'') of
                  Inl e \<Rightarrow> Inl e
                | Inr r \<Rightarrow> Inr (judged r))))"

subsection \<open>Policies\<close>

definition default_view :: "payloadlib \<Rightarrow> Request \<Rightarrow> CanonicalView" where
  "default_view P req = Canonicalize P (req_Method req) (req_Path req) (req_Query req) (req_Headers req) (req_Body req) (Some DefaultInspectionProfile)"

fun replay_policy :: "payloadlib \<Rightarrow> Inspector \<Rightarrow> PolicyCandidate \<Rightarrow> Case list \<Rightarrow> replay_report \<Rightarrow> replay_error + replay_report" where
  "replay_policy P det cand [] r = Inr r"
| "replay_policy P det cand (c # cs) r =
     (let view = default_view P (case_Request c) in
      if \<not> PolicyCandidateApplies P (Some cand) (case_Request c) view then replay_policy P det cand cs r
      else case ins_Inspect det \<lparr>in_View = view, in_ClientAddress = None\<rparr> of
        (inspection, True) \<Rightarrow> Inl (InspectFailed (case_ID c))
      | (inspection, False) \<Rightarrow>
          replay_policy P det cand cs (account r c (PolicyCandidateBlocks P (Some cand) (insp_Detections inspection) view)))"

text \<open>The result is the report, if any, and the error, if any: a finished replay also returns the context's error.\<close>

definition RunPolicy ::
  "payloadlib \<Rightarrow> (string + Inspector) \<Rightarrow> string option \<Rightarrow> (nat \<Rightarrow> string option) \<Rightarrow> artifact option \<Rightarrow> Case list \<Rightarrow>
   replay_report option \<times> replay_error option"
where
  "RunPolicy P coraza close_error ctx arg corpus =
     (case arg of
        None \<Rightarrow> (None, Some (SchemaRequired PolicyPayloadSchema))
      | Some a \<Rightarrow>
          if art_payload_schema a \<noteq> PolicyPayloadSchema then (None, Some (SchemaRequired PolicyPayloadSchema))
          else case decode_policy P (art_payload a) of
            None \<Rightarrow> (None, Some PolicyUnreadable)
          | Some cand \<Rightarrow>
              if (case cand_Predicate cand of None \<Rightarrow> True | Some p \<Rightarrow> prd_DetectionKeys p = []) then (None, Some PolicyWithoutKeys)
              else case coraza of
                Inl e \<Rightarrow> (None, Some (CorazaFailed e))
              | Inr det \<Rightarrow>
                  (case replay_policy P det cand corpus (empty_report ''r5:policy/v1'') of
                     Inl e \<Rightarrow> (None, Some e)
                   | Inr r \<Rightarrow> (Some (judged r),
                       (case close_error of
                          Some e \<Rightarrow> Some (CloseFailed e)
                        | None \<Rightarrow> map_option ContextError (ctx (length corpus))))))"

subsection \<open>Shapes\<close>

definition splitReplayPath :: "string \<Rightarrow> string list" where
  "splitReplayPath path = (let trimmed = trim_char (CHR ''/'') path in if trimmed = [] then [] else split_on (CHR ''/'') trimmed)"

definition replay_segment :: "string \<Rightarrow> string \<Rightarrow> bool" where
  "replay_segment want got \<longleftrightarrow> (if has_prefix want ''{'' \<and> has_suffix want ''}'' then got \<noteq> [] else want = got)"

definition shapeCovers :: "ShapeSource \<Rightarrow> string \<Rightarrow> bool" where
  "shapeCovers source path \<longleftrightarrow>
     (if shp_RouteTemplate source \<noteq> [] then list_all2 replay_segment (splitReplayPath (shp_RouteTemplate source)) (splitReplayPath path)
      else has_prefix path (shp_PathPrefix source))"

definition shapeAssetCovers :: "scope option \<Rightarrow> string \<Rightarrow> bool" where
  "shapeAssetCovers arg assetID \<longleftrightarrow> (case arg of None \<Rightarrow> True | Some sc \<Rightarrow> scope_asset_ids sc = [] \<or> assetID \<in> set (scope_asset_ids sc))"

fun replay_shape ::
  "payloadlib \<Rightarrow> (nat \<Rightarrow> string option) \<Rightarrow> ShapeSource \<Rightarrow> scope option \<Rightarrow> nat \<Rightarrow> Case list \<Rightarrow> replay_report \<Rightarrow> replay_error + replay_report"
where
  "replay_shape P ctx source sc i [] r = Inr r"
| "replay_shape P ctx source sc i (c # cs) r =
     (case ctx i of
        Some e \<Rightarrow> Inl (ContextError e)
      | None \<Rightarrow>
          if \<not> shapeCovers source (req_Path (case_Request c)) \<or> \<not> shapeAssetCovers sc (req_AssetID (case_Request c))
          then replay_shape P ctx source sc (i + 1) cs r
          else replay_shape P ctx source sc (i + 1) cs
                 (account r c (ShapeViolates P (Some source) (case_Request c) (default_view P (case_Request c)))))"

definition shapeSchema :: string where "shapeSchema = ''shape/v1''"

definition RunShape :: "payloadlib \<Rightarrow> (nat \<Rightarrow> string option) \<Rightarrow> artifact option \<Rightarrow> Case list \<Rightarrow> replay_error + replay_report" where
  "RunShape P ctx arg corpus =
     (case arg of
        None \<Rightarrow> Inl (SchemaRequired shapeSchema)
      | Some a \<Rightarrow>
          if art_payload_schema a \<noteq> shapeSchema then Inl (SchemaRequired shapeSchema)
          else case decode_shape P (art_payload a) of
            None \<Rightarrow> Inl ShapeUnreadable
          | Some source \<Rightarrow>
              (case ValidateShapeSource (Some source) of
                 Some e \<Rightarrow> Inl (ShapeRejected e)
               | None \<Rightarrow> map_sum id judged (replay_shape P ctx source (art_scope a) 0 corpus (empty_report ''builtin:l1-shape-v1''))))"

subsection \<open>The replay of an artifact\<close>

definition Run ::
  "payloadlib \<Rightarrow> (string + Inspector) \<Rightarrow> string option \<Rightarrow> (nat \<Rightarrow> string option) \<Rightarrow> artifact option \<Rightarrow> Case list \<Rightarrow>
   replay_report option \<times> replay_error option"
where
  "Run P coraza close_error ctx arg corpus =
     (let settle = (\<lambda>x. case x of Inl e \<Rightarrow> (None, Some e) | Inr r \<Rightarrow> (Some r, None)) in
      case arg of
        None \<Rightarrow> (None, Some ArtifactRequired)
      | Some a \<Rightarrow>
          if art_payload_schema a = PolicyPayloadSchema then RunPolicy P coraza close_error ctx arg corpus
          else if art_payload_schema a = shapeSchema then settle (RunShape P ctx arg corpus)
          else if art_payload_schema a \<noteq> RulePayloadSchema then (None, Some SchemaUnsupported)
          else settle (RunRules P a corpus))"

subsection \<open>What a report says\<close>

lemma account_fields:
  "malicious_total (account r c b) = malicious_total r + of_bool (case_Label c = LabelMalicious)"
  "malicious_blocked (account r c b) = malicious_blocked r + of_bool (case_Label c = LabelMalicious \<and> b)"
  "benign_blocked (account r c b) = benign_blocked r + of_bool (case_Label c = LabelBenign \<and> b)"
  "management_blocked (account r c b) = management_blocked r + of_bool (case_Label c = LabelManagement \<and> b)"
  by (simp_all add: account_def LabelMalicious_def LabelBenign_def LabelManagement_def)

definition tally :: "(Case \<Rightarrow> bool) \<Rightarrow> Case list \<Rightarrow> int" where
  "tally p cs = int (length (filter p cs))"

lemma tally_simps [simp]: "tally p [] = 0" "tally p (c # cs) = of_bool (p c) + tally p cs" "0 \<le> tally p cs"
  by (simp_all add: tally_def)

lemma tally_zero: "tally p cs = 0 \<longleftrightarrow> (\<forall>c \<in> set cs. \<not> p c)"
  by (auto simp: tally_def filter_empty_conv)

lemma tally_eq: "tally (\<lambda>c. p c \<and> q c) cs = tally p cs \<longleftrightarrow> (\<forall>c \<in> set cs. p c \<longrightarrow> q c)"
proof (induction cs)
  case (Cons c cs)
  have "tally (\<lambda>c. p c \<and> q c) cs \<le> tally p cs" by (induction cs) auto
  then show ?case using Cons by auto
qed simp

definition rule_blocks :: "'a golib_scheme \<Rightarrow> detector \<Rightarrow> Case \<Rightarrow> bool" where
  "rule_blocks L d c \<longleftrightarrow> ver_Action (fst (detector_Evaluate L d (case_Request c))) = ActionBlock"

lemma replay_rules_report:
  "replay_rules L d cs r = Inr r' \<Longrightarrow>
     malicious_total r' = malicious_total r + tally (\<lambda>c. case_Label c = LabelMalicious) cs \<and>
     malicious_blocked r' = malicious_blocked r + tally (\<lambda>c. case_Label c = LabelMalicious \<and> rule_blocks L d c) cs \<and>
     benign_blocked r' = benign_blocked r + tally (\<lambda>c. case_Label c = LabelBenign \<and> rule_blocks L d c) cs \<and>
     management_blocked r' = management_blocked r + tally (\<lambda>c. case_Label c = LabelManagement \<and> rule_blocks L d c) cs \<and>
     (\<forall>c \<in> set cs. case_Label c \<in> {LabelMalicious, LabelBenign, LabelManagement})"
proof (induction cs arbitrary: r)
  case (Cons c cs)
  obtain v where v: "detector_Evaluate L d (case_Request c) = (v, None)"
    and l: "case_Label c \<in> {LabelMalicious, LabelBenign, LabelManagement}"
    and rest: "replay_rules L d cs (account r c (ver_Action v = ActionBlock)) = Inr r'"
    using Cons.prems by (auto split: prod.split_asm option.split_asm if_split_asm)
  have "rule_blocks L d c \<longleftrightarrow> ver_Action v = ActionBlock" by (simp add: rule_blocks_def v)
  then show ?case using Cons.IH [OF rest] l by (simp add: account_fields)
qed simp

lemma replay_rules_passed:
  assumes "replay_rules L d cs (empty_report ref) = Inr r" "GatePassed r" "c \<in> set cs"
  shows "(\<exists>m \<in> set cs. case_Label m = LabelMalicious) \<and> (rule_blocks L d c \<longleftrightarrow> case_Label c = LabelMalicious)"
proof -
  note r = replay_rules_report [OF assms(1)]
  have "tally (\<lambda>c. case_Label c = LabelMalicious) cs \<noteq> 0" using r assms(2) by (simp add: GatePassed_def empty_report_def)
  moreover have "\<forall>c \<in> set cs. case_Label c = LabelMalicious \<longrightarrow> rule_blocks L d c"
    using r assms(2) tally_eq [of "\<lambda>c. case_Label c = LabelMalicious" "rule_blocks L d" cs] by (simp add: GatePassed_def empty_report_def)
  moreover have "\<forall>c \<in> set cs. \<not> (case_Label c = LabelBenign \<and> rule_blocks L d c)" "\<forall>c \<in> set cs. \<not> (case_Label c = LabelManagement \<and> rule_blocks L d c)"
    using r assms(2) tally_zero [of "\<lambda>c. case_Label c = LabelBenign \<and> rule_blocks L d c" cs]
      tally_zero [of "\<lambda>c. case_Label c = LabelManagement \<and> rule_blocks L d c" cs] by (simp_all add: GatePassed_def empty_report_def)
  ultimately show ?thesis using r assms(3) by (auto simp: tally_zero)
qed

text \<open>The replayed detector blocks what the release's detector matches, whatever ids they carry.\<close>

lemma rule_blocks_match:
  assumes "NewRuleDetector P i rules = Inr d" "NewRuleDetector P j rules = Inr e" and r: "mr_detector r = Some e" "mr_prefix r = pre"
  shows "rule_blocks P (NewScoped (RuleBased d) pre) c \<longleftrightarrow> ruleMatch P r (case_Request c) \<noteq> None"
proof -
  have "rd_rules d = rd_rules e" using assms(1,2) by (auto simp: NewRuleDetector_def split: option.split_asm if_split_asm)
  then have "RuleDetector_Match P (Some d) (case_Request c) = RuleDetector_Match P (Some e) (case_Request c)"
    by (simp add: RuleDetector_Match_def)
  then show ?thesis using r
    by (auto simp: rule_blocks_def NewScoped_def ruleMatch_def RuleDetector_Evaluate_def zero_verdict_def split: option.split)
qed

text \<open>
  C8: the replay predicts the edge. Suppose the replay of a rule artifact over a corpus passes, and a release
  with the same rules and route selector, whatever its id, is enforced among any others at an edge that
  does not merely observe. Then the corpus has a malicious sample, every malicious sample is
  blocked, and no benign or management sample is matched by this release.
\<close>

theorem replay_predicts_gate:
  assumes "Run P coraza close_error ctx (Some a) corpus = (Some report, None)" and "report_passed report"
    and schema: "art_payload_schema a = RulePayloadSchema"
    and "art_payload b = art_payload a" "art_scope b = art_scope a"
    and rules: "decode_rules P (art_payload b) = Some rules" "NewRuleDetector P (art_id b) rules = Inr d"
    and r: "r = new_release now item b (Some d) None None" "item_mode item = RELEASE_MODE_ENFORCE" "r \<in> set rs" and "\<not> Observes posture"
    and c: "c \<in> set corpus"
  shows "(\<exists>m \<in> set corpus. case_Label m = LabelMalicious) \<and>
    (if case_Label c = LabelMalicious then dec_Action (fst (gateWith P rs posture (case_Request c) insp view counters)) = ActionBlock
     else \<not> matches P (case_Request c) insp view r)"
proof -
  define pre where "pre = (case art_scope a of None \<Rightarrow> [] | Some sc \<Rightarrow> scope_route_selector sc)"
  have rules': "decode_rules P (art_payload a) = Some rules" using rules(1) assms(4) by simp
  have neq: "art_payload_schema a \<noteq> PolicyPayloadSchema" "art_payload_schema a \<noteq> shapeSchema"
    by (simp_all add: schema RulePayloadSchema_def PolicyPayloadSchema_def shapeSchema_def)
  then have run: "RunRules P a corpus = Inr report" using assms(1) schema by (simp add: Run_def Let_def split: sum.split_asm)
  have detector: "(case art_scope a of None \<Rightarrow> RuleBased base
      | Some sc \<Rightarrow> if scope_route_selector sc \<noteq> [] then NewScoped (RuleBased base) (scope_route_selector sc) else RuleBased base) =
      NewScoped (RuleBased base) pre" for base
    by (simp add: pre_def NewScoped_def split: option.split)
  obtain base raw where base: "NewRuleDetector P (art_id a) rules = Inr base"
    and raw: "replay_rules P (NewScoped (RuleBased base) pre) corpus (empty_report ''builtin:l1-rules-v1'') = Inr raw" "report = judged raw"
    using run by (auto simp: RunRules_def rules' detector Let_def split: sum.split_asm)
  have "GatePassed raw" using assms(2) raw(2) by (simp add: judged_def)
  note passed = replay_rules_passed [OF raw(1) this c]
  have rel: "mr_detector r = Some d" "mr_policy r = None" "mr_mode r = RELEASE_MODE_ENFORCE" "mr_prefix r = pre"
    using r assms(5) by (simp_all add: new_release_def pre_def)
  have m: "matches P (case_Request c) insp view r \<longleftrightarrow> case_Label c = LabelMalicious"
    using passed rule_blocks_match [OF base rules(2) rel(1,4)] rel by (simp add: matches_def)
  have "gate_spec P (set rs) (case_Request c) insp view = ActionBlock" if "case_Label c = LabelMalicious"
    using that m r(3) rel(3) by (auto simp: gate_spec_def blocking_def)
  then show ?thesis using passed m assms(11) by (simp add: gateWith_action)
qed

definition replay_lib :: payloadlib where
  "replay_lib = set_lib\<lparr>regexp_match := \<lambda>pattern t. CHR ''<'' \<in> set t\<rparr>"

definition replay_artifact :: artifact where
  "replay_artifact = set_artifact KIND_RULE RulePayloadSchema"

definition replay_corpus :: "Case list" where
  "replay_corpus = [BuiltinCorpus ''a'' ! 1, BuiltinCorpus ''a'' ! 3]"

definition replay_detector :: RuleDetector where
  "replay_detector = \<lparr>rd_id = art_id replay_artifact, rd_rules = [\<lparr>rule_ID = ''1'', rule_Pattern = ''x'', rule_Target = []\<rparr>]\<rparr>"

definition replay_release :: managedRelease where
  "replay_release = new_release 0 (set_item ''r'' KIND_RULE RulePayloadSchema) replay_artifact (Some replay_detector) None None"

lemma replay_demo_detector: "NewRuleDetector replay_lib (art_id replay_artifact) [\<lparr>rule_ID = ''1'', rule_Pattern = ''x'', rule_Target = []\<rparr>] = Inr replay_detector"
  by (simp add: NewRuleDetector_def replay_detector_def replay_lib_def)

lemma replay_demo_texts:
  "CHR ''<'' \<in> set (targetString [] (case_Request (BuiltinCorpus ''a'' ! 1)))" "CHR ''<'' \<notin> set (targetString [] (case_Request (BuiltinCorpus ''a'' ! 3)))"
  by code_simp+

lemma replay_demo_run:
  "\<exists>report. Run replay_lib (Inl []) None (\<lambda>_. None) (Some replay_artifact) replay_corpus = (Some report, None) \<and> report_passed report"
proof -
  have hits: "rule_hits replay_lib (case_Request (BuiltinCorpus ''a'' ! 1)) \<lparr>rule_ID = ''1'', rule_Pattern = ''x'', rule_Target = []\<rparr>"
    "\<not> rule_hits replay_lib (case_Request (BuiltinCorpus ''a'' ! 3)) \<lparr>rule_ID = ''1'', rule_Pattern = ''x'', rule_Target = []\<rparr>"
    using replay_demo_texts by (simp_all add: rule_hits_def replay_lib_def)
  have labels: "case_Label (BuiltinCorpus ''a'' ! 1) = ''malicious''" "case_Label (BuiltinCorpus ''a'' ! 3) = ''benign''"
    by (simp_all add: BuiltinCorpus_def LabelMalicious_def LabelBenign_def)
  have "decode_rules replay_lib b = Some [\<lparr>rule_ID = ''1'', rule_Pattern = ''x'', rule_Target = []\<rparr>]" for b by (simp add: replay_lib_def)
  moreover have "art_payload_schema replay_artifact = RulePayloadSchema" "art_scope replay_artifact = None"
    by (simp_all add: replay_artifact_def set_artifact_def)
  ultimately show ?thesis using hits replay_demo_detector
    by (simp add: Run_def RunRules_def Let_def PolicyPayloadSchema_def shapeSchema_def RulePayloadSchema_def replay_corpus_def replay_detector_def
        RuleDetector_Evaluate_def RuleDetector_Match_def zero_verdict_def labels [unfolded One_nat_def] LabelMalicious_def LabelBenign_def LabelManagement_def
        account_def judged_def empty_report_def GatePassed_def)
qed

theorem replay_predicts_gate_witness:
  "dec_Action (fst (gateWith replay_lib [replay_release] INGRESS_POSTURE_REVERSE_PROXY (case_Request (BuiltinCorpus ''a'' ! 1))
     demo_inspection (default_view replay_lib (case_Request (BuiltinCorpus ''a'' ! 1))) [])) = ActionBlock"
proof -
  obtain report where run: "Run replay_lib (Inl []) None (\<lambda>_. None) (Some replay_artifact) replay_corpus = (Some report, None)" "report_passed report"
    using replay_demo_run by blast
  have c: "BuiltinCorpus ''a'' ! 1 \<in> set replay_corpus" by (simp add: replay_corpus_def)
  have schema: "art_payload_schema replay_artifact = RulePayloadSchema" by (simp add: replay_artifact_def set_artifact_def)
  have rules: "decode_rules replay_lib (art_payload replay_artifact) = Some [\<lparr>rule_ID = ''1'', rule_Pattern = ''x'', rule_Target = []\<rparr>]"
    by (simp add: replay_lib_def)
  have mode: "item_mode (set_item ''r'' KIND_RULE RulePayloadSchema) = RELEASE_MODE_ENFORCE" by (simp add: set_item_def)
  have label: "case_Label (BuiltinCorpus ''a'' ! 1) = LabelMalicious" by (simp add: BuiltinCorpus_def)
  have "\<not> Observes INGRESS_POSTURE_REVERSE_PROXY" by (simp add: Observes_def)
  from replay_predicts_gate [OF run schema refl refl rules replay_demo_detector replay_release_def mode _ this c, of "[replay_release]" demo_inspection
      "default_view replay_lib (case_Request (BuiltinCorpus ''a'' ! 1))" "[]"] label
  show ?thesis by simp
qed

end
